theory Spec2Isabelle
  imports Complex_Main "HOL-Library.Sublist"
begin

section \<open>Tabular batches\<close>

text \<open>
  The three jobs (\<^verbatim>\<open>etl_fact.py\<close>, \<^verbatim>\<open>etl_dims.py\<close>, \<^verbatim>\<open>etl_data_mart.py\<close>) pass
  pandas DataFrames around. A DataFrame is modelled as an ordered list of column labels
  and an ordered list of rows, each row a list of cells in column order.

  Cells are dynamically typed, as Python objects are. \<open>Num\<close> is an integer, \<open>Flt\<close> a
  float (a finite float is a rational number), \<open>Str\<close> is text, \<open>Bool\<close> a boolean. There
  are two missing values, and the code tells them apart: \<open>Null\<close> is Python's \<^verbatim>\<open>None\<close>
  and \<open>NaN\<close> is the float not-a-number. Which of the two stands for a SQL NULL is
  decided by \<^verbatim>\<open>read_sql\<close>, by the column and by the pandas that is installed (the
  repository pins no version):

    \<^item> a numeric column with a NULL is a float column, its numbers are \<open>Flt\<close> and its
      NULLs are \<open>NaN\<close>; without a NULL an integer column holds \<open>Num\<close> cells;
    \<^item> a text column holds \<open>Str\<close> cells, and its NULLs are \<open>Null\<close> up to pandas 2 and
      \<open>NaN\<close> from pandas 3 on;
    \<^item> a column that is NULL in every row holds \<open>Null\<close> cells;
    \<^item> the fill value of an unmatched left join is \<open>NaN\<close> (in a column of timestamps
      pandas writes its not-a-time, which is not told apart here).

  Dates and timestamps cross every job untouched and are carried as whatever cell the
  source delivers. No arithmetic is done on floats: the cast \<^verbatim>\<open>astype(float)\<close> and the
  text of a float are parameters of the model.
\<close>

datatype val = Null | NaN | Num int | Flt rat | Str string | Bool bool

text \<open>
  Within one column the cells have one type, and pandas compares them by value with a
  missing value equal to itself: HOL equality on \<open>val\<close>. Across two columns (join keys,
  \<^verbatim>\<open>isin\<close>) an integer column meets a float column, and the comparison is by number:
  \<^verbatim>\<open>1 == 1.0 == True\<close>. \<open>as_key\<close> maps every number to the float of its value, so that
  two cells are equal as keys when their images are equal.
\<close>

definition as_key :: "val \<Rightarrow> val" where
  "as_key v = (case v of Num n \<Rightarrow> Flt (of_int n) | Bool b \<Rightarrow> Flt (if b then 1 else 0) | _ \<Rightarrow> v)"

text \<open>
  The dtype of a column, read off its cells as \<^verbatim>\<open>read_sql\<close> infers it: integers only,
  floats with or without \<open>NaN\<close>, booleans only, and \<^verbatim>\<open>object\<close> for everything else
  (text, a column of \<^verbatim>\<open>None\<close>, a column without rows). A column that holds nothing but
  \<open>NaN\<close> is a text column whose cells are all missing (in these jobs it comes from
  \<^verbatim>\<open>astype(str)\<close> only).
\<close>

datatype dtype = Int64 | Float64 | BoolT | Object

definition is_num :: "val \<Rightarrow> bool" where
  "is_num v = (case v of Num n \<Rightarrow> True | _ \<Rightarrow> False)"

definition is_flt :: "val \<Rightarrow> bool" where
  "is_flt v = (case v of Flt q \<Rightarrow> True | _ \<Rightarrow> False)"

definition is_bool :: "val \<Rightarrow> bool" where
  "is_bool v = (case v of Bool b \<Rightarrow> True | _ \<Rightarrow> False)"

definition dtype_of :: "val list \<Rightarrow> dtype" where
  "dtype_of vs =
     (if vs \<noteq> [] \<and> list_all is_num vs then Int64
      else if list_ex is_flt vs \<and> list_all (\<lambda>v. is_flt v \<or> v = NaN) vs then Float64
      else if vs \<noteq> [] \<and> list_all is_bool vs then BoolT
      else Object)"

record dataframe =
  columns :: "string list"
  rows :: "val list list"

text \<open>
  Every DataFrame is rectangular: each row has one cell per column. On a rectangular
  frame every read \<open>r ! i\<close> below is at a position \<open>i\<close> of the column index, hence in
  range.
\<close>

definition rectangular :: "dataframe \<Rightarrow> bool" where
  "rectangular df = list_all (\<lambda>r. length r = length (columns df)) (rows df)"

text \<open>
  The exceptions the jobs can raise and do not catch. \<open>KeyError\<close> carries the
  missing column label.
\<close>

datatype error = KeyError string | AttributeError | ValueError

text \<open>Sequencing of fallible steps: the first raise wins.\<close>

definition bind_err :: "error + 'a \<Rightarrow> ('a \<Rightarrow> error + 'b) \<Rightarrow> error + 'b" where
  "bind_err m f = (case m of Inl e \<Rightarrow> Inl e | Inr x \<Rightarrow> f x)"

fun sequence_err :: "(error + 'a) list \<Rightarrow> error + 'a list" where
  "sequence_err [] = Inr []"
| "sequence_err (m # ms) =
     (case m of Inl e \<Rightarrow> Inl e
      | Inr x \<Rightarrow> (case sequence_err ms of Inl e \<Rightarrow> Inl e | Inr xs \<Rightarrow> Inr (x # xs)))"

subsection \<open>Column access\<close>

text \<open>Position of a label in the column index (the first one, should a label repeat).\<close>

fun index_of :: "string \<Rightarrow> string list \<Rightarrow> nat option" where
  "index_of c [] = None"
| "index_of c (x # xs) = (if x = c then Some 0 else map_option Suc (index_of c xs))"

text \<open>\<^verbatim>\<open>df[c]\<close>: the column as a list of cells, or \<^verbatim>\<open>KeyError\<close>.\<close>

definition getcol :: "dataframe \<Rightarrow> string \<Rightarrow> error + val list" where
  "getcol df c =
     (case index_of c (columns df) of
        None \<Rightarrow> Inl (KeyError c)
      | Some i \<Rightarrow> Inr (map (\<lambda>r. r ! i) (rows df)))"

text \<open>
  \<^verbatim>\<open>df[c] = values\<close>: overwrite the column in place when the label exists, append it as
  the last column otherwise. The values are aligned with the rows by position.
\<close>

definition setcol :: "dataframe \<Rightarrow> string \<Rightarrow> val list \<Rightarrow> dataframe" where
  "setcol df c vs =
     (case index_of c (columns df) of
        None \<Rightarrow> df\<lparr>columns := columns df @ [c],
                    rows := map (\<lambda>(r, v). r @ [v]) (zip (rows df) vs)\<rparr>
      | Some i \<Rightarrow> df\<lparr>rows := map (\<lambda>(r, v). r[i := v]) (zip (rows df) vs)\<rparr>)"

text \<open>\<^verbatim>\<open>df[c] = scalar\<close>: the scalar is broadcast to every row.\<close>

definition setcol_scalar :: "dataframe \<Rightarrow> string \<Rightarrow> val \<Rightarrow> dataframe" where
  "setcol_scalar df c v = setcol df c (replicate (length (rows df)) v)"

text \<open>
  \<^verbatim>\<open>df[[c1, ..., cn]]\<close>: projection on the listed labels, in the listed order;
  \<^verbatim>\<open>KeyError\<close> on the first label that is not a column.
\<close>

definition project :: "nat list \<Rightarrow> val list \<Rightarrow> val list" where
  "project is r = map (\<lambda>i. r ! i) is"

definition positions :: "string list \<Rightarrow> string list \<Rightarrow> error + nat list" where
  "positions cols cs =
     sequence_err (map (\<lambda>c. case index_of c cols of
                                None \<Rightarrow> Inl (KeyError c) | Some i \<Rightarrow> Inr i) cs)"

definition select :: "dataframe \<Rightarrow> string list \<Rightarrow> error + dataframe" where
  "select df cs =
     bind_err (positions (columns df) cs)
       (\<lambda>is. Inr \<lparr>columns = cs, rows = map (project is) (rows df)\<rparr>)"

text \<open>
  \<^verbatim>\<open>df.rename(columns=m)\<close>: every label that is a key of \<open>m\<close> is replaced, in one pass;
  the other labels and all cells stay. A key that is no column is ignored.
\<close>

definition rename :: "dataframe \<Rightarrow> (string \<times> string) list \<Rightarrow> dataframe" where
  "rename df m =
     df\<lparr>columns := map (\<lambda>c. case map_of m c of None \<Rightarrow> c | Some c' \<Rightarrow> c') (columns df)\<rparr>"

text \<open>\<^verbatim>\<open>df[mask]\<close>: the rows whose mask entry is true, in order.\<close>

definition mask_rows :: "dataframe \<Rightarrow> bool list \<Rightarrow> dataframe" where
  "mask_rows df m = df\<lparr>rows := map fst (filter snd (zip (rows df) m))\<rparr>"

text \<open>
  \<^verbatim>\<open>series.isin(values)\<close>: one boolean per cell, true when the cell equals one of
  the values as a key.
\<close>

definition isin :: "val list \<Rightarrow> val list \<Rightarrow> bool list" where
  "isin vs ws = map (\<lambda>v. as_key v \<in> as_key ` set ws) vs"

text \<open>
  \<^verbatim>\<open>series.duplicated()\<close> with the default \<^verbatim>\<open>keep='first'\<close>: a cell is a duplicate
  when its value has been seen at an earlier position.
\<close>

fun duplicated_from :: "val list \<Rightarrow> val list \<Rightarrow> bool list" where
  "duplicated_from seen [] = []"
| "duplicated_from seen (k # ks) = (k \<in> set seen) # duplicated_from (k # seen) ks"

definition duplicated :: "val list \<Rightarrow> bool list" where
  "duplicated ks = duplicated_from [] ks"

text \<open>
  \<^verbatim>\<open>df.drop_duplicates(subset=c)\<close>: the rows that are not duplicates by column \<open>c\<close>;
  \<^verbatim>\<open>KeyError\<close> when \<open>c\<close> is no column.
\<close>

definition drop_duplicates :: "dataframe \<Rightarrow> string \<Rightarrow> error + dataframe" where
  "drop_duplicates df c =
     bind_err (getcol df c) (\<lambda>ks. Inr (mask_rows df (map Not (duplicated ks))))"

text \<open>
  \<^verbatim>\<open>pd.merge\<close> refuses two key columns of incompatible dtypes with a \<^verbatim>\<open>ValueError\<close>
  (\<^verbatim>\<open>You are trying to merge on int64 and object columns\<close>). The test is skipped when
  exactly one of the two columns has no rows. Equal dtypes pass, and so do two dtypes
  among integer, float and boolean, and \<^verbatim>\<open>object\<close> against boolean. An \<^verbatim>\<open>object\<close>
  column against an integer or a float column passes only when the \<^verbatim>\<open>object\<close> column
  holds an integer: text, and a column of \<^verbatim>\<open>None\<close>, are refused.
\<close>

definition merge_keys_ok :: "val list \<Rightarrow> val list \<Rightarrow> bool" where
  "merge_keys_ok lks rks =
     (if (lks = []) \<noteq> (rks = []) then True
      else if dtype_of lks = dtype_of rks then True
      else if dtype_of lks \<noteq> Object \<and> dtype_of rks \<noteq> Object then True
      else if dtype_of lks = BoolT \<or> dtype_of rks = BoolT then True
      else if dtype_of lks = Object then list_ex is_num lks
      else list_ex is_num rks)"

text \<open>
  \<^verbatim>\<open>pd.merge(l, r, left_on=lk, right_on=rk, how='left', suffixes=(ls, rs))\<close> with
  two different key labels. Both key columns are kept. A label that occurs on both sides
  gets the side's suffix. Every left row is kept, in the left order: it is paired with
  each right row of equal key, in the right order, or once with \<open>NaN\<close> cells when there
  is none. \<open>i\<close> and \<open>j\<close> are the positions of the two keys. Labels are not checked
  for clashes after suffixing (a clash needs a column that already ends in the suffix).

  When some left row finds no partner, the right columns receive a fill, and an integer
  column that receives a fill becomes a float column: \<open>recast\<close> turns its cells into
  the floats of the same value. The left columns keep their cells.
\<close>

definition matches :: "dataframe \<Rightarrow> nat \<Rightarrow> nat \<Rightarrow> val list \<Rightarrow> val list list" where
  "matches r i j lr = filter (\<lambda>rr. as_key (rr ! j) = as_key (lr ! i)) (rows r)"

definition recast :: "dataframe \<Rightarrow> val list \<Rightarrow> val list" where
  "recast r rr =
     map (\<lambda>k. if dtype_of (map (\<lambda>x. x ! k) (rows r)) = Int64 then as_key (rr ! k) else rr ! k)
       [0..<length rr]"

definition join_row ::
  "dataframe \<Rightarrow> bool \<Rightarrow> nat \<Rightarrow> nat \<Rightarrow> val list \<Rightarrow> val list list" where
  "join_row r fill i j lr =
     (case matches r i j lr of
        [] \<Rightarrow> [lr @ replicate (length (columns r)) NaN]
      | ms \<Rightarrow> map (\<lambda>rr. lr @ (if fill then recast r rr else rr)) ms)"

definition merge_left ::
  "dataframe \<Rightarrow> dataframe \<Rightarrow> string \<Rightarrow> string \<Rightarrow> string \<Rightarrow> string \<Rightarrow> error + dataframe" where
  "merge_left l r lk rk ls rs =
     (case index_of lk (columns l) of
        None \<Rightarrow> Inl (KeyError lk)
      | Some i \<Rightarrow>
         (case index_of rk (columns r) of
            None \<Rightarrow> Inl (KeyError rk)
          | Some j \<Rightarrow>
              if merge_keys_ok (map (\<lambda>x. x ! i) (rows l)) (map (\<lambda>x. x ! j) (rows r))
              then
                let fill = list_ex (\<lambda>lr. matches r i j lr = []) (rows l) in
                Inr \<lparr>columns =
                       map (\<lambda>c. if c \<in> set (columns r) then c @ ls else c) (columns l) @
                       map (\<lambda>c. if c \<in> set (columns l) then c @ rs else c) (columns r),
                     rows = concat (map (join_row r fill i j) (rows l))\<rparr>
              else Inl ValueError))"

text \<open>\<^verbatim>\<open>df.empty\<close>: no rows or no columns.\<close>

definition empty_df :: "dataframe \<Rightarrow> bool" where
  "empty_df df = (rows df = [] \<or> columns df = [])"

section \<open>The collaborators outside the jobs\<close>

text \<open>
  What the jobs reach through pandas and SQLAlchemy and do not decide themselves:
  \<open>read_sql\<close> is the source database seen through \<^verbatim>\<open>pd.read_sql("SELECT * FROM t")\<close>
  (\<open>None\<close> when the read raises); \<open>to_sql_ok\<close> tells whether the warehouse accepts a
  write to a table; \<open>astype_float\<close> is the cast of one cell by \<^verbatim>\<open>astype(float)\<close>, which
  raises on a cell it cannot convert; \<open>today\<close> is \<^verbatim>\<open>pd.Timestamp.now().normalize()\<close>;
  \<open>float_str\<close> is the text Python writes for a float (\<^verbatim>\<open>5.0\<close> for five);
  \<open>missing_as_text\<close> tells what \<^verbatim>\<open>astype(str)\<close> makes of a missing cell: the text
  \<^verbatim>\<open>None\<close> or \<^verbatim>\<open>nan\<close> up to pandas 2, a cell that is still missing from pandas 3 on.
\<close>

record env =
  read_sql :: "string \<Rightarrow> dataframe option"
  to_sql_ok :: "string \<Rightarrow> bool"
  astype_float :: "val \<Rightarrow> error + val"
  today :: val
  float_str :: "rat \<Rightarrow> string"
  missing_as_text :: bool

text \<open>
  What a job does to the outside, in order: lines printed, frames printed, and calls of
  \<^verbatim>\<open>df.to_sql(table, ..., if_exists=mode)\<close>. A job run is the list of its events and
  the exception that ended it, if one did.
\<close>

datatype if_exists = Append | Replace

datatype event = Print string | PrintFrame dataframe | ToSql string if_exists dataframe

type_synonym run = "event list \<times> error option"

text \<open>
  \<^verbatim>\<open>extract_data\<close> (the same in the three files): the table, or \<^verbatim>\<open>None\<close> and a
  printed line when the read raises. The driver's exception text that ends the printed
  line is left out.
\<close>

definition extract_data :: "env \<Rightarrow> string \<Rightarrow> event list \<times> dataframe option" where
  "extract_data e source_system =
     (case read_sql e source_system of
        Some df \<Rightarrow> ([], Some df)
      | None \<Rightarrow>
          ([Print (''An error occurred while extracting data from '' @ source_system)], None))"

section \<open>Field transforms\<close>

subsection \<open>Room type\<close>

text \<open>
  \<^verbatim>\<open>.str.lower().str.replace('[^a-z]', '', regex=True)\<close> on one string: lowercase, then
  delete every character outside a to z. A Python string is a sequence of code points;
  here it is the sequence of their UTF-8 bytes. \<open>lower_char\<close> is \<^verbatim>\<open>str.lower\<close> on an
  ASCII byte. Outside ASCII, \<^verbatim>\<open>str.lower\<close> yields a letter a to z for two code points:
  the Kelvin sign U+212A (bytes E2 84 AA) becomes \<^verbatim>\<open>k\<close>, and the capital I with dot
  above U+0130 (bytes C4 B0) becomes \<^verbatim>\<open>i\<close> followed by the combining dot U+0307
  (bytes CC 87). Every other code point outside ASCII stays outside ASCII, and the
  deletion removes it whatever its lowercase is: its bytes are left as they are.
\<close>

definition lower_char :: "char \<Rightarrow> char" where
  "lower_char c =
     (case map_of (zip ''ABCDEFGHIJKLMNOPQRSTUVWXYZ'' ''abcdefghijklmnopqrstuvwxyz'') c of
        Some d \<Rightarrow> d
      | None \<Rightarrow> c)"

definition is_az :: "char \<Rightarrow> bool" where
  "is_az c = (c \<in> set ''abcdefghijklmnopqrstuvwxyz'')"

function py_lower :: "string \<Rightarrow> string" where
  "py_lower [] = []"
| "py_lower (c # s) =
     (if c = CHR 0xE2 \<and> take 2 s = [CHR 0x84, CHR 0xAA]
      then CHR ''k'' # py_lower (drop 2 s)
      else if c = CHR 0xC4 \<and> take 1 s = [CHR 0xB0]
      then CHR ''i'' # CHR 0xCC # CHR 0x87 # py_lower (drop 1 s)
      else lower_char c # py_lower s)"
  by pat_completeness auto
termination
  by (relation "measure length") auto

definition normalize_room_type :: "string \<Rightarrow> string" where
  "normalize_room_type s = filter is_az (py_lower s)"

text \<open>
  The \<^verbatim>\<open>.str\<close> accessor exists on text columns only. A column read from a SQL table
  holds cells of one type and missing values, so the accessor raises \<^verbatim>\<open>AttributeError\<close>
  exactly when the column holds a number or a boolean. Missing values stay as they are,
  \<^verbatim>\<open>None\<close> as \<^verbatim>\<open>None\<close> and \<open>NaN\<close> as \<open>NaN\<close>.
\<close>

definition is_text :: "val \<Rightarrow> bool" where
  "is_text v = (case v of Null \<Rightarrow> True | NaN \<Rightarrow> True | Str s \<Rightarrow> True | _ \<Rightarrow> False)"

definition str_lower_replace_cell :: "val \<Rightarrow> val" where
  "str_lower_replace_cell v = (case v of Str s \<Rightarrow> Str (normalize_room_type s) | _ \<Rightarrow> v)"

definition str_lower_replace :: "val list \<Rightarrow> error + val list" where
  "str_lower_replace vs =
     (if list_all is_text vs then Inr (map str_lower_replace_cell vs) else Inl AttributeError)"

text \<open>\<^verbatim>\<open>etl_fact.transform_room_type\<close>: skipped when the column is absent.\<close>

definition transform_room_type :: "dataframe \<Rightarrow> error + dataframe" where
  "transform_room_type df =
     (if ''room_type'' \<in> set (columns df)
      then bind_err (getcol df ''room_type'') (\<lambda>vs.
           bind_err (str_lower_replace vs) (\<lambda>ws.
           Inr (setcol df ''room_type'' ws)))
      else Inr df)"

subsection \<open>Phone number\<close>

text \<open>
  The lambda \<^verbatim>\<open>lambda x: f"+62{x}" if x and not x.startswith('+') else x\<close>.
  \<^verbatim>\<open>None\<close>, the empty string, zero and \<^verbatim>\<open>False\<close> are falsy and returned as they are;
  a truthy value that is no string has no \<^verbatim>\<open>startswith\<close>. \<open>NaN\<close> is a float other
  than zero, hence truthy: on a missing value held as \<open>NaN\<close> the lambda raises
  \<^verbatim>\<open>AttributeError\<close>.
\<close>

definition startswith_plus :: "string \<Rightarrow> bool" where
  "startswith_plus s = (case s of [] \<Rightarrow> False | c # _ \<Rightarrow> c = CHR ''+'')"

definition phone_lambda :: "val \<Rightarrow> error + val" where
  "phone_lambda x =
     (case x of
        Null \<Rightarrow> Inr x
      | NaN \<Rightarrow> Inl AttributeError
      | Str s \<Rightarrow> if s \<noteq> [] \<and> \<not> startswith_plus s then Inr (Str (''+62'' @ s)) else Inr x
      | Num n \<Rightarrow> if n \<noteq> 0 then Inl AttributeError else Inr x
      | Flt q \<Rightarrow> if q \<noteq> 0 then Inl AttributeError else Inr x
      | Bool b \<Rightarrow> if b then Inl AttributeError else Inr x)"

text \<open>\<^verbatim>\<open>series.apply(f)\<close>: cell by cell, stopping at the first raise.\<close>

definition apply_series :: "(val \<Rightarrow> error + val) \<Rightarrow> val list \<Rightarrow> error + val list" where
  "apply_series f vs = sequence_err (map f vs)"

text \<open>\<^verbatim>\<open>etl_fact.transform_phone_number\<close>: skipped when the column is absent.\<close>

definition transform_phone_number :: "dataframe \<Rightarrow> error + dataframe" where
  "transform_phone_number df =
     (if ''phone_number'' \<in> set (columns df)
      then bind_err (getcol df ''phone_number'') (\<lambda>vs.
           bind_err (apply_series phone_lambda vs) (\<lambda>ws.
           Inr (setcol df ''phone_number'' ws)))
      else Inr df)"

subsection \<open>Numeric columns\<close>

text \<open>\<^verbatim>\<open>etl_fact.transform_reservation_data\<close>: the two money columns cast to float.\<close>

definition transform_reservation_data :: "env \<Rightarrow> dataframe \<Rightarrow> error + dataframe" where
  "transform_reservation_data e df =
     bind_err
       (if ''total_room_price'' \<in> set (columns df)
        then bind_err (getcol df ''total_room_price'') (\<lambda>vs.
             bind_err (apply_series (astype_float e) vs) (\<lambda>ws.
             Inr (setcol df ''total_room_price'' ws)))
        else Inr df)
       (\<lambda>df1.
          if ''total_discount'' \<in> set (columns df1)
          then bind_err (getcol df1 ''total_discount'') (\<lambda>vs.
               bind_err (apply_series (astype_float e) vs) (\<lambda>ws.
               Inr (setcol df1 ''total_discount'' ws)))
          else Inr df1)"

subsection \<open>The dimension job's transform\<close>

text \<open>
  \<^verbatim>\<open>etl_dims.transform_dimension_data\<close>: the same two normalisations, chosen by the
  dimension's name, and reading the column without asking whether it is there.
\<close>

definition transform_dimension_data :: "dataframe \<Rightarrow> string \<Rightarrow> error + dataframe" where
  "transform_dimension_data df dimension_type =
     (if dimension_type = ''dim_rooms''
      then bind_err (getcol df ''room_type'') (\<lambda>vs.
           bind_err (str_lower_replace vs) (\<lambda>ws.
           Inr (setcol df ''room_type'' ws)))
      else if dimension_type = ''dim_guests''
      then bind_err (getcol df ''phone_number'') (\<lambda>vs.
           bind_err (apply_series phone_lambda vs) (\<lambda>ws.
           Inr (setcol df ''phone_number'' ws)))
      else Inr df)"

section \<open>The fact job (\<^verbatim>\<open>etl_fact.py\<close>)\<close>

text \<open>
  \<^verbatim>\<open>prepare_fact_data\<close>: project on the fact table's columns, drop the rows whose id
  was seen before, rename the id column.
\<close>

definition prepare_fact_data ::
  "dataframe \<Rightarrow> string list \<Rightarrow> string \<Rightarrow> string \<Rightarrow> error + dataframe" where
  "prepare_fact_data df cols id_col new_id_col =
     bind_err (select df cols) (\<lambda>df1.
     bind_err (drop_duplicates df1 id_col) (\<lambda>df2.
     Inr (rename df2 [(id_col, new_id_col)])))"

text \<open>
  \<^verbatim>\<open>load_data\<close>: append the batch to the table. A failed write is printed and
  swallowed.
\<close>

definition load_data :: "env \<Rightarrow> dataframe \<Rightarrow> string \<Rightarrow> event list" where
  "load_data e df target_table =
     [ToSql target_table Append df,
      Print (if to_sql_ok e target_table
             then ''Data successfully loaded into '' @ target_table @ ''.''
             else ''An error occurred while loading data into '' @ target_table)]"

text \<open>
  Lines 118 to 132 of \<^verbatim>\<open>main\<close>: the three transforms, the two joins that denormalise
  the stays, the rename of the reservation reference, the join of the reservations with
  the stays' references, and the split of the stays into valid and invalid.
\<close>

record reconciled =
  reservations_df :: dataframe
  stays_df :: dataframe
  valid_stays :: dataframe
  invalid_stays :: dataframe

definition merge_and_reconcile ::
  "env \<Rightarrow> dataframe \<Rightarrow> dataframe \<Rightarrow> dataframe \<Rightarrow> dataframe \<Rightarrow> error + reconciled" where
  "merge_and_reconcile e reservations stays rooms users =
     bind_err (transform_room_type rooms) (\<lambda>rooms1.
     bind_err (transform_phone_number users) (\<lambda>users1.
     bind_err (transform_reservation_data e reservations) (\<lambda>res1.
     bind_err (select rooms1 [''id'', ''room_type'']) (\<lambda>rooms2.
     bind_err (merge_left stays rooms2 ''room_id'' ''id'' [] ''_room'') (\<lambda>stays1.
     bind_err (select users1 [''id'', ''phone_number'']) (\<lambda>users2.
     bind_err (merge_left stays1 users2 ''guest_id'' ''id'' [] ''_guest'') (\<lambda>stays2.
     let stays3 = rename stays2 [(''reference_reservation_id'', ''reservation_id'')] in
     bind_err (select stays3 [''reservation_id'']) (\<lambda>refs.
     bind_err (merge_left res1 refs ''id'' ''reservation_id'' [] ''_stays'') (\<lambda>res2.
     bind_err (getcol stays3 ''reservation_id'') (\<lambda>ks.
     bind_err (getcol res2 ''id'') (\<lambda>ids.
     Inr \<lparr>reservations_df = res2,
          stays_df = stays3,
          valid_stays = mask_rows stays3 (isin ks ids),
          invalid_stays = mask_rows stays3 (map Not (isin ks ids))\<rparr>)))))))))))"

definition fact_reservations_columns :: "string list" where
  "fact_reservations_columns =
     [''id'', ''reservation_datetime'', ''check_in_date'', ''check_out_date'', ''status'',
      ''hotel_id'', ''booker_id'', ''total_room_price'', ''voucher_code'', ''total_discount'']"

definition fact_stays_columns :: "string list" where
  "fact_stays_columns = [''id'', ''date'', ''reservation_id'', ''room_id'', ''guest_id'']"

text \<open>
  \<^verbatim>\<open>etl_fact.main\<close>. All four tables are extracted first; one failed extraction
  ends the job at once. Otherwise: transform, merge and reconcile, report the invalid
  stays if there are any, prepare the two fact tables, load them.
\<close>

definition main_fact :: "env \<Rightarrow> run" where
  "main_fact e =
     (let (p1, reservations) = extract_data e ''Reservations'';
          (p2, stays) = extract_data e ''Stays'';
          (p3, rooms) = extract_data e ''Rooms'';
          (p4, users) = extract_data e ''Users'';
          out0 = p1 @ p2 @ p3 @ p4
      in case (reservations, stays, rooms, users) of
           (Some r, Some s, Some ro, Some u) \<Rightarrow>
             (case merge_and_reconcile e r s ro u of
                Inl err \<Rightarrow> (out0, Some err)
              | Inr rc \<Rightarrow>
                 (let out1 = out0 @
                        (if \<not> empty_df (invalid_stays rc)
                         then [Print ''Invalid stays found (no matching reservation):'',
                               PrintFrame (invalid_stays rc)]
                         else [])
                  in case prepare_fact_data (reservations_df rc) fact_reservations_columns
                            ''id'' ''reservation_id'' of
                       Inl err \<Rightarrow> (out1, Some err)
                     | Inr fact_reservations \<Rightarrow>
                        (case prepare_fact_data (valid_stays rc) fact_stays_columns
                                ''id'' ''stay_id'' of
                           Inl err \<Rightarrow> (out1, Some err)
                         | Inr fact_stays \<Rightarrow>
                             (out1 @ load_data e fact_reservations ''fact_reservations''
                                   @ load_data e fact_stays ''fact_stays'', None))))
         | _ \<Rightarrow> (out0 @ [Print ''Extraction failed, aborting ETL process.''], None))"

section \<open>The dimension job (\<^verbatim>\<open>etl_dims.py\<close>)\<close>

definition columns_map :: "(string \<times> (string \<times> string) list) list" where
  "columns_map =
     [(''dim_reservations'', [(''id'', ''reservation_id'')]),
      (''dim_stays'', [(''id'', ''stay_id''), (''reference_reservation_id'', ''reservation_id'')]),
      (''dim_rooms'', [(''id'', ''room_id'')]),
      (''dim_guests'', [(''id'', ''guest_id'')])]"

text \<open>
  \<^verbatim>\<open>prepare_data\<close>: rename by the dimension's entry of \<open>columns_map\<close> (no entry, no
  rename), then add each bookkeeping column that is not there yet.
\<close>

definition prepare_data :: "env \<Rightarrow> dataframe \<Rightarrow> string \<Rightarrow> dataframe" where
  "prepare_data e df dimension_type =
     (let df1 = rename df (case map_of columns_map dimension_type of
                             None \<Rightarrow> [] | Some m \<Rightarrow> m);
          df2 = (if ''effective_date'' \<notin> set (columns df1)
                 then setcol_scalar df1 ''effective_date'' (today e) else df1);
          df3 = (if ''end_date'' \<notin> set (columns df2)
                 then setcol_scalar df2 ''end_date'' Null else df2);
          df4 = (if ''current_flag'' \<notin> set (columns df3)
                 then setcol_scalar df3 ''current_flag'' (Bool True) else df3)
      in df4)"

text \<open>\<^verbatim>\<open>load_dimension_data\<close>: replace the table by the batch.\<close>

definition load_dimension_data :: "env \<Rightarrow> dataframe \<Rightarrow> string \<Rightarrow> event list" where
  "load_dimension_data e df target_table =
     [ToSql target_table Replace df,
      Print (if to_sql_ok e target_table
             then ''Data successfully loaded into '' @ target_table @ ''.''
             else ''An error occurred while loading data into '' @ target_table)]"

text \<open>\<^verbatim>\<open>etl_dims.main\<close>.\<close>

definition main_dims :: "env \<Rightarrow> run" where
  "main_dims e =
     (let (p1, reservations) = extract_data e ''Reservations'';
          (p2, stays) = extract_data e ''Stays'';
          (p3, rooms) = extract_data e ''Rooms'';
          (p4, guests) = extract_data e ''Users'';
          out0 = p1 @ p2 @ p3 @ p4
      in case (reservations, stays, rooms, guests) of
           (Some r, Some s, Some ro, Some g) \<Rightarrow>
             (case transform_dimension_data ro ''dim_rooms'' of
                Inl err \<Rightarrow> (out0, Some err)
              | Inr ro1 \<Rightarrow>
                 (case transform_dimension_data g ''dim_guests'' of
                    Inl err \<Rightarrow> (out0, Some err)
                  | Inr g1 \<Rightarrow>
                      (out0
                       @ load_dimension_data e (prepare_data e r ''dim_reservations'')
                           ''dim_reservations''
                       @ load_dimension_data e (prepare_data e s ''dim_stays'') ''dim_stays''
                       @ load_dimension_data e (prepare_data e ro1 ''dim_rooms'') ''dim_rooms''
                       @ load_dimension_data e (prepare_data e g1 ''dim_guests'')
                           ''dim_guests'', None)))
         | _ \<Rightarrow> (out0 @ [Print ''Extraction failed, aborting ETL process.''], None))"

section \<open>The marketing mart (\<^verbatim>\<open>etl_data_mart.py\<close>)\<close>

text \<open>
  \<^verbatim>\<open>astype(str)\<close> on one cell: text stays, an integer is written in decimal, a float as
  Python writes floats, a boolean as \<^verbatim>\<open>True\<close> or \<^verbatim>\<open>False\<close>. A missing cell becomes the
  text \<^verbatim>\<open>None\<close> or \<^verbatim>\<open>nan\<close> up to pandas 2 and stays missing from pandas 3 on.
\<close>

definition digit_char :: "nat \<Rightarrow> char" where
  "digit_char d = ''0123456789'' ! d"

function str_of_nat :: "nat \<Rightarrow> string" where
  "str_of_nat n =
     (if n < 10 then [digit_char n] else str_of_nat (n div 10) @ [digit_char (n mod 10)])"
  by pat_completeness auto
termination
  by (relation "measure id") auto

declare str_of_nat.simps [simp del]

definition str_of_int :: "int \<Rightarrow> string" where
  "str_of_int n = (if n < 0 then CHR ''-'' # str_of_nat (nat (- n)) else str_of_nat (nat n))"

definition astype_str :: "env \<Rightarrow> val \<Rightarrow> val" where
  "astype_str e v =
     (case v of
        Null \<Rightarrow> if missing_as_text e then Str ''None'' else NaN
      | NaN \<Rightarrow> if missing_as_text e then Str ''nan'' else NaN
      | Num n \<Rightarrow> Str (str_of_int n)
      | Flt q \<Rightarrow> Str (float_str e q)
      | Str s \<Rightarrow> Str s
      | Bool b \<Rightarrow> Str (if b then ''True'' else ''False''))"

text \<open>\<^verbatim>\<open>df.columns = labels\<close>: \<^verbatim>\<open>ValueError\<close> unless there is one label per column.\<close>

definition set_columns :: "dataframe \<Rightarrow> string list \<Rightarrow> error + dataframe" where
  "set_columns df cs =
     (if length cs = length (columns df) then Inr (df\<lparr>columns := cs\<rparr>) else Inl ValueError)"

text \<open>
  Lines 52 to 62 of \<^verbatim>\<open>create_marketing_mart\<close>: both join keys become text, the
  reservations are left-joined with the campaigns (default suffixes \<^verbatim>\<open>_x\<close>, \<^verbatim>\<open>_y\<close>),
  eight columns are kept and relabelled.
\<close>

definition marketing_mart_frame :: "env \<Rightarrow> dataframe \<Rightarrow> dataframe \<Rightarrow> error + dataframe" where
  "marketing_mart_frame e reservations campaigns =
     bind_err (getcol reservations ''voucher_code'') (\<lambda>vs.
     let reservations1 = setcol reservations ''voucher_code'' (map (astype_str e) vs) in
     bind_err (getcol campaigns ''id'') (\<lambda>is.
     let campaigns1 = setcol campaigns ''id'' (map (astype_str e) is) in
     bind_err (merge_left reservations1 campaigns1 ''voucher_code'' ''id'' ''_x'' ''_y'') (\<lambda>m.
     bind_err (select m [''id_x'', ''reservation_datetime'', ''check_in_date'',
                         ''check_out_date'', ''total_room_price'', ''total_discount'',
                         ''name'', ''description'']) (\<lambda>m1.
     set_columns m1 [''reservation_id'', ''reservation_datetime'', ''check_in_date'',
                     ''check_out_date'', ''total_room_price'', ''total_discount'',
                     ''campaign_name'', ''campaign_description'']))))"

text \<open>\<^verbatim>\<open>etl_data_mart.load_data\<close>: replace the table by the batch.\<close>

definition load_data_mart :: "env \<Rightarrow> dataframe \<Rightarrow> string \<Rightarrow> event list" where
  "load_data_mart e df target_table =
     [ToSql target_table Replace df,
      Print (if to_sql_ok e target_table
             then ''Data successfully loaded into '' @ target_table @ ''.''
             else ''An error occurred while loading data into '' @ target_table)]"

text \<open>
  \<^verbatim>\<open>create_marketing_mart\<close>: nothing is built or loaded unless both extractions
  succeeded.
\<close>

definition create_marketing_mart :: "env \<Rightarrow> run" where
  "create_marketing_mart e =
     (let (p1, reservations) = extract_data e ''Reservations'';
          (p2, campaigns) = extract_data e ''Campaign'';
          out0 = p1 @ p2
      in case (reservations, campaigns) of
           (Some r, Some c) \<Rightarrow>
             (case marketing_mart_frame e r c of
                Inl err \<Rightarrow> (out0, Some err)
              | Inr marketing_mart \<Rightarrow>
                  (out0 @ load_data_mart e marketing_mart ''marketing_mart'', None))
         | _ \<Rightarrow> (out0, None))"

section \<open>Definitions in the spec's words\<close>

text \<open>
  The phone normalisation in the spec's words, to compare the code with: a value that is
  present (a text that is not empty) and does not start with \<^verbatim>\<open>+\<close> gets \<^verbatim>\<open>+62\<close> in
  front; every other value is returned as it is.
\<close>

definition spec_normalize_phone_number :: "val \<Rightarrow> val" where
  "spec_normalize_phone_number v =
     (case v of
        Str s \<Rightarrow> if s \<noteq> [] \<and> \<not> startswith_plus s then Str (''+62'' @ s) else v
      | _ \<Rightarrow> v)"

text \<open>
  The cells of a text column that keeps \<^verbatim>\<open>None\<close> for a missing value: text and \<^verbatim>\<open>None\<close>.
\<close>

definition is_text_or_none :: "val \<Rightarrow> bool" where
  "is_text_or_none v = (case v of Null \<Rightarrow> True | Str s \<Rightarrow> True | _ \<Rightarrow> False)"

text \<open>
  The \<^verbatim>\<open>fact_reservations\<close> batch computed from the extracted reservations alone: the
  numeric transform, then \<^verbatim>\<open>prepare_fact_data\<close> (projection on the fact columns,
  first-seen deduplication by \<^verbatim>\<open>id\<close>, rename of \<^verbatim>\<open>id\<close>), without the join of line 128.
\<close>

definition spec_fact_reservations :: "env \<Rightarrow> dataframe \<Rightarrow> error + dataframe" where
  "spec_fact_reservations e reservations =
     bind_err (transform_reservation_data e reservations) (\<lambda>df.
     prepare_fact_data df fact_reservations_columns ''id'' ''reservation_id'')"

text \<open>
  Reading a row by label: the cell of a row of \<open>df\<close> under the label \<open>c\<close>, and the
  marketing mart row made of a reservation row and the two campaign cells, in the order
  of the mart's columns.
\<close>

definition cell :: "dataframe \<Rightarrow> string \<Rightarrow> val list \<Rightarrow> val" where
  "cell df c row = (case index_of c (columns df) of None \<Rightarrow> Null | Some i \<Rightarrow> row ! i)"

definition mart_row :: "dataframe \<Rightarrow> val list \<Rightarrow> val \<Rightarrow> val \<Rightarrow> val list" where
  "mart_row reservations row campaign_name campaign_description =
     [cell reservations ''id'' row, cell reservations ''reservation_datetime'' row,
      cell reservations ''check_in_date'' row, cell reservations ''check_out_date'' row,
      cell reservations ''total_room_price'' row, cell reservations ''total_discount'' row,
      campaign_name, campaign_description]"

text \<open>
  A missing cell, of either kind. A cell that a left join carries over from the right
  frame is the right frame's cell, or the float of the same value when that cell is an
  integer of a column that received a fill.
\<close>

definition is_missing :: "val \<Rightarrow> bool" where
  "is_missing v = (v = Null \<or> v = NaN)"

definition carried :: "val \<Rightarrow> val \<Rightarrow> bool" where
  "carried a v = (a = v \<or> is_num v \<and> a = as_key v)"

section \<open>Example batches\<close>

text \<open>
  A small source database, used to run the jobs on concrete input: three reservation
  rows (two of them with the same id), four stay rows (one refers to a reservation that
  does not exist, one refers to none, two share the id 10), one room, two users and two
  campaigns. The frames are what \<^verbatim>\<open>read_sql\<close> delivers: the stays' references, an
  integer column with a NULL, are floats and \<open>NaN\<close>; a NULL of a text column is
  \<^verbatim>\<open>None\<close>.
\<close>

definition ex_reservations :: dataframe where
  "ex_reservations =
     \<lparr>columns = [''id'', ''reservation_datetime'', ''check_in_date'', ''check_out_date'',
                 ''status'', ''hotel_id'', ''booker_id'', ''total_room_price'',
                 ''voucher_code'', ''total_discount''],
      rows = [[Num 1, Str ''t1'', Str ''d1'', Str ''d2'', Str ''ok'', Num 1, Num 7, Num 100,
               Str ''5'', Num 0],
              [Num 2, Str ''t2'', Str ''d1'', Str ''d2'', Str ''ok'', Num 1, Num 7, Num 100,
               Null, Num 0],
              [Num 1, Str ''t3'', Str ''d1'', Str ''d2'', Str ''ok'', Num 1, Num 7, Num 100,
               Str ''7'', Num 0]]\<rparr>"

definition ex_stays :: dataframe where
  "ex_stays =
     \<lparr>columns = [''id'', ''date'', ''reference_reservation_id'', ''room_id'', ''guest_id''],
      rows = [[Num 10, Str ''d1'', Flt 1, Num 3, Num 4],
              [Num 11, Str ''d1'', Flt 99, Num 3, Num 5],
              [Num 12, Str ''d1'', NaN, Num 8, Num 4],
              [Num 10, Str ''d2'', Flt 2, Num 3, Num 4]]\<rparr>"

definition ex_rooms :: dataframe where
  "ex_rooms =
     \<lparr>columns = [''id'', ''name'', ''room_type'', ''floor'', ''hotel_id''],
      rows = [[Num 3, Str ''n'', Str ''De-Luxe'', Num 1, Num 1]]\<rparr>"

definition ex_users :: dataframe where
  "ex_users =
     \<lparr>columns = [''id'', ''phone_number''],
      rows = [[Num 4, Str ''0812''], [Num 5, Null]]\<rparr>"

definition ex_campaigns :: dataframe where
  "ex_campaigns =
     \<lparr>columns = [''id'', ''name'', ''description''],
      rows = [[Num 5, Str ''promo'', Str ''five''], [Num 15, Str ''other'', Null]]\<rparr>"

text \<open>
  The database is read by a pandas that keeps \<^verbatim>\<open>None\<close> in text columns and writes a
  missing cell as text under \<^verbatim>\<open>astype(str)\<close>. Its \<^verbatim>\<open>astype(float)\<close> turns a number
  into the float of the same value and a missing value into \<open>NaN\<close>, and refuses text
  (no text of the example is a number); its floats of integral value are written with
  one decimal zero.
\<close>

definition ex_astype_float :: "val \<Rightarrow> error + val" where
  "ex_astype_float v =
     (case v of
        Null \<Rightarrow> Inr NaN
      | NaN \<Rightarrow> Inr NaN
      | Num n \<Rightarrow> Inr (Flt (of_int n))
      | Flt q \<Rightarrow> Inr (Flt q)
      | Str s \<Rightarrow> Inl ValueError
      | Bool b \<Rightarrow> Inr (Flt (if b then 1 else 0)))"

definition ex_env :: env where
  "ex_env =
     \<lparr>read_sql = map_of [(''Reservations'', ex_reservations), (''Stays'', ex_stays),
                          (''Rooms'', ex_rooms), (''Users'', ex_users),
                          (''Campaign'', ex_campaigns)],
      to_sql_ok = (\<lambda>t. True),
      astype_float = ex_astype_float,
      today = Str ''2024-01-01'',
      float_str = (\<lambda>q. str_of_int \<lfloor>q\<rfloor> @ ''.0''),
      missing_as_text = True\<rparr>"

text \<open>The same database with a Rooms table that has no \<^verbatim>\<open>room_type\<close> column.\<close>

definition ex_rooms_untyped :: dataframe where
  "ex_rooms_untyped = \<lparr>columns = [''id'', ''name''], rows = [[Num 3, Str ''n'']]\<rparr>"

definition ex_env_untyped :: env where
  "ex_env_untyped =
     ex_env\<lparr>read_sql := (read_sql ex_env)(''Rooms'' := Some ex_rooms_untyped)\<rparr>"

text \<open>The same database when the Rooms table cannot be read.\<close>

definition ex_env_unreadable :: env where
  "ex_env_unreadable = ex_env\<lparr>read_sql := (read_sql ex_env)(''Rooms'' := None)\<rparr>"

text \<open>
  The same database when no stay refers to a reservation: the one stay row has a NULL
  reference, so the column \<^verbatim>\<open>reference_reservation_id\<close> holds \<^verbatim>\<open>None\<close> only. Every
  user has a phone number.
\<close>

definition ex_stays_unreferenced :: dataframe where
  "ex_stays_unreferenced =
     \<lparr>columns = [''id'', ''date'', ''reference_reservation_id'', ''room_id'', ''guest_id''],
      rows = [[Num 12, Str ''d1'', Null, Num 3, Num 4]]\<rparr>"

definition ex_users_known :: dataframe where
  "ex_users_known =
     \<lparr>columns = [''id'', ''phone_number''],
      rows = [[Num 4, Str ''0812''], [Num 5, Str ''+6281'']]\<rparr>"

definition ex_env_unreferenced :: env where
  "ex_env_unreferenced =
     ex_env\<lparr>read_sql := (read_sql ex_env)(''Stays'' := Some ex_stays_unreferenced,
                                            ''Users'' := Some ex_users_known)\<rparr>"

text \<open>
  The same database when the second user's NULL phone number is read as \<open>NaN\<close>, as a
  pandas does that keeps text in its own string dtype.
\<close>

definition ex_users_nan :: dataframe where
  "ex_users_nan =
     \<lparr>columns = [''id'', ''phone_number''],
      rows = [[Num 4, Str ''0812''], [Num 5, NaN]]\<rparr>"

definition ex_env_nan :: env where
  "ex_env_nan =
     ex_env\<lparr>read_sql := (read_sql ex_env)(''Users'' := Some ex_users_nan),
            missing_as_text := False\<rparr>"

text \<open>
  One reservation with the voucher code \<^verbatim>\<open>"5"\<close>, and a campaign table whose campaign 5
  has neither a name nor a description.
\<close>

definition ex_reservation_five :: dataframe where
  "ex_reservation_five =
     \<lparr>columns = [''id'', ''reservation_datetime'', ''check_in_date'', ''check_out_date'',
                 ''status'', ''hotel_id'', ''booker_id'', ''total_room_price'',
                 ''voucher_code'', ''total_discount''],
      rows = [[Num 1, Str ''t1'', Str ''d1'', Str ''d2'', Str ''ok'', Num 1, Num 7, Num 100,
               Str ''5'', Num 0]]\<rparr>"

definition ex_campaigns_unnamed :: dataframe where
  "ex_campaigns_unnamed =
     \<lparr>columns = [''id'', ''name'', ''description''],
      rows = [[Num 5, Null, Null]]\<rparr>"

text \<open>The frames the fact job computes from the example database.\<close>

definition ex_reservations_cast :: dataframe where
  "ex_reservations_cast =
     \<lparr>columns = [''id'', ''reservation_datetime'', ''check_in_date'', ''check_out_date'',
                 ''status'', ''hotel_id'', ''booker_id'', ''total_room_price'',
                 ''voucher_code'', ''total_discount''],
      rows = [[Num 1, Str ''t1'', Str ''d1'', Str ''d2'', Str ''ok'', Num 1, Num 7, Flt 100,
               Str ''5'', Flt 0],
              [Num 2, Str ''t2'', Str ''d1'', Str ''d2'', Str ''ok'', Num 1, Num 7, Flt 100,
               Null, Flt 0],
              [Num 1, Str ''t3'', Str ''d1'', Str ''d2'', Str ''ok'', Num 1, Num 7, Flt 100,
               Str ''7'', Flt 0]]\<rparr>"

definition ex_stays_df :: dataframe where
  "ex_stays_df =
     \<lparr>columns = [''id'', ''date'', ''reservation_id'', ''room_id'', ''guest_id'',
                 ''id_room'', ''room_type'', ''id_guest'', ''phone_number''],
      rows = [[Num 10, Str ''d1'', Flt 1, Num 3, Num 4, Flt 3, Str ''deluxe'', Num 4,
               Str ''+620812''],
              [Num 11, Str ''d1'', Flt 99, Num 3, Num 5, Flt 3, Str ''deluxe'', Num 5, Null],
              [Num 12, Str ''d1'', NaN, Num 8, Num 4, NaN, NaN, Num 4, Str ''+620812''],
              [Num 10, Str ''d2'', Flt 2, Num 3, Num 4, Flt 3, Str ''deluxe'', Num 4,
               Str ''+620812'']]\<rparr>"

definition ex_reservations_df :: dataframe where
  "ex_reservations_df =
     \<lparr>columns = [''id'', ''reservation_datetime'', ''check_in_date'', ''check_out_date'',
                 ''status'', ''hotel_id'', ''booker_id'', ''total_room_price'',
                 ''voucher_code'', ''total_discount'', ''reservation_id''],
      rows = [[Num 1, Str ''t1'', Str ''d1'', Str ''d2'', Str ''ok'', Num 1, Num 7, Flt 100,
               Str ''5'', Flt 0, Flt 1],
              [Num 2, Str ''t2'', Str ''d1'', Str ''d2'', Str ''ok'', Num 1, Num 7, Flt 100,
               Null, Flt 0, Flt 2],
              [Num 1, Str ''t3'', Str ''d1'', Str ''d2'', Str ''ok'', Num 1, Num 7, Flt 100,
               Str ''7'', Flt 0, Flt 1]]\<rparr>"

definition ex_valid_stays :: dataframe where
  "ex_valid_stays =
     \<lparr>columns = [''id'', ''date'', ''reservation_id'', ''room_id'', ''guest_id'',
                 ''id_room'', ''room_type'', ''id_guest'', ''phone_number''],
      rows = [[Num 10, Str ''d1'', Flt 1, Num 3, Num 4, Flt 3, Str ''deluxe'', Num 4,
               Str ''+620812''],
              [Num 10, Str ''d2'', Flt 2, Num 3, Num 4, Flt 3, Str ''deluxe'', Num 4,
               Str ''+620812'']]\<rparr>"

definition ex_invalid_stays :: dataframe where
  "ex_invalid_stays =
     \<lparr>columns = [''id'', ''date'', ''reservation_id'', ''room_id'', ''guest_id'',
                 ''id_room'', ''room_type'', ''id_guest'', ''phone_number''],
      rows = [[Num 11, Str ''d1'', Flt 99, Num 3, Num 5, Flt 3, Str ''deluxe'', Num 5, Null],
              [Num 12, Str ''d1'', NaN, Num 8, Num 4, NaN, NaN, Num 4,
               Str ''+620812'']]\<rparr>"

definition ex_fact_reservations :: dataframe where
  "ex_fact_reservations =
     \<lparr>columns = [''reservation_id'', ''reservation_datetime'', ''check_in_date'',
                 ''check_out_date'', ''status'', ''hotel_id'', ''booker_id'',
                 ''total_room_price'', ''voucher_code'', ''total_discount''],
      rows = [[Num 1, Str ''t1'', Str ''d1'', Str ''d2'', Str ''ok'', Num 1, Num 7, Flt 100,
               Str ''5'', Flt 0],
              [Num 2, Str ''t2'', Str ''d1'', Str ''d2'', Str ''ok'', Num 1, Num 7, Flt 100,
               Null, Flt 0]]\<rparr>"

definition ex_fact_stays :: dataframe where
  "ex_fact_stays =
     \<lparr>columns = [''stay_id'', ''date'', ''reservation_id'', ''room_id'', ''guest_id''],
      rows = [[Num 10, Str ''d1'', Flt 1, Num 3, Num 4]]\<rparr>"

text \<open>The marketing mart of the example database.\<close>

definition ex_marketing_mart :: dataframe where
  "ex_marketing_mart =
     \<lparr>columns = [''reservation_id'', ''reservation_datetime'', ''check_in_date'',
                 ''check_out_date'', ''total_room_price'', ''total_discount'',
                 ''campaign_name'', ''campaign_description''],
      rows = [[Num 1, Str ''t1'', Str ''d1'', Str ''d2'', Num 100, Num 0, Str ''promo'',
               Str ''five''],
              [Num 2, Str ''t2'', Str ''d1'', Str ''d2'', Num 100, Num 0, NaN, NaN],
              [Num 1, Str ''t3'', Str ''d1'', Str ''d2'', Num 100, Num 0, NaN, NaN]]\<rparr>"

section \<open>Basic facts about the frame operations\<close>

lemma bind_err_Inr [simp]: "bind_err (Inr x) f = f x"
  by (simp add: bind_err_def)

lemma bind_err_Inl [simp]: "bind_err (Inl e) f = Inl e"
  by (simp add: bind_err_def)

lemma bind_err_eq_Inr: "bind_err m f = Inr y \<longleftrightarrow> (\<exists>x. m = Inr x \<and> f x = Inr y)"
  by (cases m) simp_all

lemma index_of_None: "index_of c cs = None \<longleftrightarrow> c \<notin> set cs"
  by (induction cs) auto

lemma index_of_Some: "index_of c cs = Some i \<Longrightarrow> i < length cs \<and> cs ! i = c"
  by (induction cs arbitrary: i) (auto split: if_splits)

lemma index_of_mem: "c \<in> set cs \<Longrightarrow> \<exists>i. index_of c cs = Some i"
  using index_of_None [of c cs] by (cases "index_of c cs") auto

lemma sequence_err_map: "(\<And>v. v \<in> set vs \<Longrightarrow> f v = Inr (g v)) \<Longrightarrow> sequence_err (map f vs) = Inr (map g vs)"
  by (induction vs) auto

lemma sequence_err_length: "sequence_err ms = Inr xs \<Longrightarrow> length xs = length ms"
  by (induction ms arbitrary: xs) (auto split: sum.splits)

lemma getcol_Inr: "getcol df c = Inr vs \<longleftrightarrow> (\<exists>i. index_of c (columns df) = Some i \<and> vs = map (\<lambda>r. r ! i) (rows df))"
  by (auto simp: getcol_def split: option.splits)

lemma getcol_length: "getcol df c = Inr vs \<Longrightarrow> length vs = length (rows df)"
  by (auto simp: getcol_Inr)

lemma getcol_mem: "getcol df c = Inr vs \<Longrightarrow> c \<in> set (columns df)"
  using index_of_None [of c "columns df"] by (auto simp: getcol_Inr)

lemma set_nth_rows:
  "list_all (\<lambda>r. i < length r) rs \<Longrightarrow> length ws = length rs \<Longrightarrow>
   map (\<lambda>r. r ! i) (map (\<lambda>(r, v). r[i := v]) (zip rs ws)) = ws"
  by (induction rs arbitrary: ws) (auto simp: length_Suc_conv)

lemma set_set_rows:
  "map (\<lambda>(r, v). r[i := v]) (zip (map (\<lambda>(r, v). r[i := v]) (zip rs ws)) ws) =
   map (\<lambda>(r, v). r[i := v]) (zip rs ws)"
proof (induction rs arbitrary: ws)
  case Nil
  show ?case by simp
next
  case (Cons r rs)
  show ?case by (cases ws) (simp_all add: Cons.IH)
qed

lemma rectangular_index:
  "rectangular df \<Longrightarrow> index_of c (columns df) = Some i \<Longrightarrow> list_all (\<lambda>r. i < length r) (rows df)"
  using index_of_Some [of c "columns df" i] by (auto simp: rectangular_def list_all_iff)

lemma setcol_present:
  "index_of c (columns df) = Some i \<Longrightarrow>
   setcol df c ws = df\<lparr>rows := map (\<lambda>(r, v). r[i := v]) (zip (rows df) ws)\<rparr>"
  by (simp add: setcol_def)

lemma getcol_setcol:
  assumes "rectangular df" and "getcol df c = Inr vs" and "length ws = length vs"
  shows "getcol (setcol df c ws) c = Inr ws"
proof -
  from assms(2) obtain i where i: "index_of c (columns df) = Some i"
    and vs: "vs = map (\<lambda>r. r ! i) (rows df)"
    by (auto simp: getcol_Inr)
  have "list_all (\<lambda>r. i < length r) (rows df)"
    using assms(1) i by (rule rectangular_index)
  moreover have "length ws = length (rows df)"
    using assms(3) vs by simp
  ultimately have "map (\<lambda>r. r ! i) (map (\<lambda>(r, v). r[i := v]) (zip (rows df) ws)) = ws"
    by (rule set_nth_rows)
  then show ?thesis
    by (simp add: setcol_present [OF i] getcol_def i)
qed

lemma setcol_setcol:
  assumes "getcol df c = Inr vs"
  shows "setcol (setcol df c ws) c ws = setcol df c ws"
proof -
  from assms obtain i where i: "index_of c (columns df) = Some i"
    by (auto simp: getcol_Inr)
  show ?thesis
    by (simp add: setcol_def i set_set_rows)
qed

lemma rectangular_setcol:
  assumes "rectangular df" and "getcol df c = Inr vs"
  shows "rectangular (setcol df c ws)"
proof -
  from assms(2) obtain i where i: "index_of c (columns df) = Some i"
    by (auto simp: getcol_Inr)
  have "\<And>r v. (r, v) \<in> set (zip (rows df) ws) \<Longrightarrow> length r = length (columns df)"
    using assms(1) by (auto simp: rectangular_def list_all_iff dest: set_zip_leftD)
  then show ?thesis
    by (auto simp: setcol_present [OF i] rectangular_def list_all_iff)
qed

subsection \<open>Phone numbers\<close>

lemma phone_lambda_text: "is_text_or_none v \<Longrightarrow> phone_lambda v = Inr (spec_normalize_phone_number v)"
  by (cases v) (simp_all add: is_text_or_none_def phone_lambda_def spec_normalize_phone_number_def)

lemma spec_normalize_phone_number_text: "is_text_or_none v \<Longrightarrow> is_text_or_none (spec_normalize_phone_number v)"
  by (cases v) (simp_all add: is_text_or_none_def spec_normalize_phone_number_def)

lemma spec_normalize_phone_number_idem:
  "spec_normalize_phone_number (spec_normalize_phone_number v) = spec_normalize_phone_number v"
  by (cases v) (simp_all add: spec_normalize_phone_number_def startswith_plus_def)

lemma apply_phone_lambda:
  "list_all is_text_or_none vs \<Longrightarrow>
   apply_series phone_lambda vs = Inr (map spec_normalize_phone_number vs)"
  unfolding apply_series_def
  by (rule sequence_err_map) (simp add: list_all_iff phone_lambda_text)

lemma transform_phone_number_text:
  assumes "getcol df ''phone_number'' = Inr vs" and "list_all is_text_or_none vs"
  shows "transform_phone_number df =
         Inr (setcol df ''phone_number'' (map spec_normalize_phone_number vs))"
  using assms getcol_mem [OF assms(1)]
  by (simp add: transform_phone_number_def apply_phone_lambda)

lemma transform_dimension_data_guests_text:
  assumes "getcol df ''phone_number'' = Inr vs" and "list_all is_text_or_none vs"
  shows "transform_dimension_data df ''dim_guests'' =
         Inr (setcol df ''phone_number'' (map spec_normalize_phone_number vs))"
  using assms by (simp add: transform_dimension_data_def apply_phone_lambda)

text \<open>
  On a column of text and \<^verbatim>\<open>None\<close> the phone transform is the spec's normalisation:
  \<^verbatim>\<open>+62\<close> is put in front exactly when the text is not empty and does not start with
  \<^verbatim>\<open>+\<close>; text that starts with \<^verbatim>\<open>+\<close>, the empty text and \<^verbatim>\<open>None\<close> come back as they
  are; doing it twice is doing it once, in the fact job and in the dimension job.
\<close>

lemma phone_number_normalisation_text:
  assumes "rectangular df"
    and "getcol df ''phone_number'' = Inr vs"
    and "list_all is_text_or_none vs"
  shows "phone_lambda Null = Inr Null
       \<and> phone_lambda (Str []) = Inr (Str [])
       \<and> phone_lambda (Str (CHR ''+'' # s)) = Inr (Str (CHR ''+'' # s))
       \<and> phone_lambda (Str s) =
           Inr (Str (if s \<noteq> [] \<and> \<not> startswith_plus s then ''+62'' @ s else s))
       \<and> list_all (\<lambda>v. \<exists>w. phone_lambda v = Inr w \<and> phone_lambda w = Inr w) vs
       \<and> (\<exists>df'. transform_phone_number df = Inr df'
              \<and> transform_dimension_data df ''dim_guests'' = Inr df'
              \<and> getcol df' ''phone_number'' = Inr (map spec_normalize_phone_number vs)
              \<and> transform_phone_number df' = Inr df'
              \<and> transform_dimension_data df' ''dim_guests'' = Inr df')"
proof -
  have a: "phone_lambda Null = Inr Null"
    by (simp add: phone_lambda_def)
  have b: "phone_lambda (Str []) = Inr (Str [])"
    by (simp add: phone_lambda_def)
  have c: "phone_lambda (Str (CHR ''+'' # s)) = Inr (Str (CHR ''+'' # s))"
    by (simp add: phone_lambda_def startswith_plus_def)
  have d: "phone_lambda (Str s) =
          Inr (Str (if s \<noteq> [] \<and> \<not> startswith_plus s then ''+62'' @ s else s))"
    by (simp add: phone_lambda_def)
  have e: "list_all (\<lambda>v. \<exists>w. phone_lambda v = Inr w \<and> phone_lambda w = Inr w) vs"
    unfolding list_all_iff
  proof
    fix v assume "v \<in> set vs"
    then have t: "is_text_or_none v" using assms(3) by (simp add: list_all_iff)
    have "phone_lambda (spec_normalize_phone_number v) = Inr (spec_normalize_phone_number v)"
      using phone_lambda_text [OF spec_normalize_phone_number_text [OF t]]
      by (simp add: spec_normalize_phone_number_idem)
    with phone_lambda_text [OF t]
    show "\<exists>w. phone_lambda v = Inr w \<and> phone_lambda w = Inr w" by blast
  qed
  let ?ws = "map spec_normalize_phone_number vs"
  let ?df = "setcol df ''phone_number'' ?ws"
  have g: "getcol ?df ''phone_number'' = Inr ?ws"
    using assms(1,2) by (rule getcol_setcol) simp
  have t: "list_all is_text_or_none ?ws"
    using assms(3) by (simp add: list_all_iff spec_normalize_phone_number_text)
  have "map spec_normalize_phone_number ?ws = ?ws"
    by (simp add: spec_normalize_phone_number_idem)
  then have same: "setcol ?df ''phone_number'' (map spec_normalize_phone_number ?ws) = ?df"
    by (simp only: setcol_setcol [OF assms(2)])
  have "transform_phone_number ?df = Inr ?df"
    using transform_phone_number_text [OF g t] same by simp
  moreover have "transform_dimension_data ?df ''dim_guests'' = Inr ?df"
    using transform_dimension_data_guests_text [OF g t] same by simp
  ultimately have f: "\<exists>df'. transform_phone_number df = Inr df'
              \<and> transform_dimension_data df ''dim_guests'' = Inr df'
              \<and> getcol df' ''phone_number'' = Inr (map spec_normalize_phone_number vs)
              \<and> transform_phone_number df' = Inr df'
              \<and> transform_dimension_data df' ''dim_guests'' = Inr df'"
    using transform_phone_number_text [OF assms(2,3)]
      transform_dimension_data_guests_text [OF assms(2,3)] g
    by simp
  show ?thesis
    by (intro conjI) (rule a b c d e f)+
qed

subsection \<open>Room types\<close>

lemma lower_char_az: "is_az c \<Longrightarrow> lower_char c = c"
  unfolding is_az_def lower_char_def by (elim disjE | simp)+

lemma normalize_room_type_az: "list_all is_az (normalize_room_type s)"
  by (simp add: normalize_room_type_def list_all_iff)

lemma is_az_ascii: "is_az c \<Longrightarrow> c \<noteq> CHR 0xE2 \<and> c \<noteq> CHR 0xC4"
  unfolding is_az_def by (elim disjE | simp)+

lemma py_lower_az: "list_all is_az s \<Longrightarrow> py_lower s = s"
  by (induction s) (simp_all add: lower_char_az is_az_ascii)

lemma normalize_room_type_fixed: "list_all is_az s \<Longrightarrow> normalize_room_type s = s"
  by (simp add: normalize_room_type_def py_lower_az list_all_iff)

lemma normalize_room_type_idem:
  "normalize_room_type (normalize_room_type s) = normalize_room_type s"
  by (rule normalize_room_type_fixed) (rule normalize_room_type_az)

text \<open>
  Outside ASCII: the Kelvin sign and the capital I with dot above leave a letter, an
  accented letter leaves none.
\<close>

lemma normalize_room_type_non_ascii:
  "normalize_room_type [CHR 0xE2, CHR 0x84, CHR 0xAA, CHR ''i'', CHR ''n'', CHR ''g''] = ''king''
   \<and> normalize_room_type [CHR 0xC4, CHR 0xB0, CHR ''n'', CHR ''n''] = ''inn''
   \<and> normalize_room_type [CHR 0xC3, CHR 0x89, CHR ''t'', CHR 0xC3, CHR 0xA9] = ''t''"
  by (simp add: normalize_room_type_def lower_char_def is_az_def)

lemma str_lower_replace_cell_text: "is_text v \<Longrightarrow> is_text (str_lower_replace_cell v)"
  by (cases v) (simp_all add: is_text_def str_lower_replace_cell_def)

lemma str_lower_replace_cell_idem:
  "str_lower_replace_cell (str_lower_replace_cell v) = str_lower_replace_cell v"
  by (cases v) (simp_all add: str_lower_replace_cell_def normalize_room_type_idem)

lemma str_lower_replace_cell_az:
  "is_text v \<Longrightarrow>
   (case str_lower_replace_cell v of
      Str t \<Rightarrow> list_all is_az t | Null \<Rightarrow> True | NaN \<Rightarrow> True | _ \<Rightarrow> False)"
  by (cases v) (simp_all add: is_text_def str_lower_replace_cell_def normalize_room_type_az)

lemma str_lower_replace_cell_NaN: "str_lower_replace_cell v = NaN \<longleftrightarrow> v = NaN"
  by (cases v) (simp_all add: str_lower_replace_cell_def)

lemma str_lower_replace_NaN:
  "(NaN \<in> set (map str_lower_replace_cell vs)) = (NaN \<in> set vs)"
proof -
  have "NaN \<in> str_lower_replace_cell ` set vs \<longleftrightarrow> NaN \<in> set vs"
    using str_lower_replace_cell_NaN by (metis imageE imageI)
  then show ?thesis
    by simp
qed

lemma transform_room_type_text:
  assumes "getcol df ''room_type'' = Inr vs" and "list_all is_text vs"
  shows "transform_room_type df = Inr (setcol df ''room_type'' (map str_lower_replace_cell vs))"
  using assms getcol_mem [OF assms(1)]
  by (simp add: transform_room_type_def str_lower_replace_def)

lemma transform_dimension_data_rooms_text:
  assumes "getcol df ''room_type'' = Inr vs" and "list_all is_text vs"
  shows "transform_dimension_data df ''dim_rooms'' =
         Inr (setcol df ''room_type'' (map str_lower_replace_cell vs))"
  using assms by (simp add: transform_dimension_data_def str_lower_replace_def)

text \<open>
  C6. For every string, the normalised room type consists of characters a to z only, and
  normalising it again changes nothing. On a frame whose \<^verbatim>\<open>room_type\<close> column is text,
  the fact job's \<^verbatim>\<open>transform_room_type\<close> and the dimension job's
  \<^verbatim>\<open>transform_dimension_data\<close> for \<^verbatim>\<open>dim_rooms\<close> return the same frame, every cell of its
  \<^verbatim>\<open>room_type\<close> column is missing (\<^verbatim>\<open>None\<close>, or \<open>NaN\<close> when the column held \<open>NaN\<close>)
  or a string of a to z, and transforming that frame again returns it unchanged.
\<close>

theorem room_type_normalisation:
  assumes "rectangular df"
    and "getcol df ''room_type'' = Inr vs"
    and "list_all is_text vs"
  shows "list_all is_az (normalize_room_type s)
       \<and> normalize_room_type (normalize_room_type s) = normalize_room_type s
       \<and> (\<exists>df'. transform_room_type df = Inr df'
              \<and> transform_dimension_data df ''dim_rooms'' = Inr df'
              \<and> getcol df' ''room_type'' = Inr (map str_lower_replace_cell vs)
              \<and> list_all (\<lambda>w. case w of Str t \<Rightarrow> list_all is_az t | Null \<Rightarrow> True
                                | NaN \<Rightarrow> True | _ \<Rightarrow> False) (map str_lower_replace_cell vs)
              \<and> (NaN \<in> set (map str_lower_replace_cell vs)) = (NaN \<in> set vs)
              \<and> transform_room_type df' = Inr df'
              \<and> transform_dimension_data df' ''dim_rooms'' = Inr df')"
proof -
  let ?ws = "map str_lower_replace_cell vs"
  let ?df = "setcol df ''room_type'' ?ws"
  have g: "getcol ?df ''room_type'' = Inr ?ws"
    using assms(1,2) by (rule getcol_setcol) simp
  have t: "list_all is_text ?ws"
    using assms(3) by (simp add: list_all_iff str_lower_replace_cell_text)
  have "map str_lower_replace_cell ?ws = ?ws"
    by (simp add: str_lower_replace_cell_idem)
  then have same: "setcol ?df ''room_type'' (map str_lower_replace_cell ?ws) = ?df"
    by (simp only: setcol_setcol [OF assms(2)])
  have az: "list_all (\<lambda>w. case w of Str t \<Rightarrow> list_all is_az t | Null \<Rightarrow> True
                           | NaN \<Rightarrow> True | _ \<Rightarrow> False) ?ws"
    using assms(3) str_lower_replace_cell_az by (simp add: list_all_iff)
  have once1: "transform_room_type df = Inr ?df"
    by (rule transform_room_type_text [OF assms(2,3)])
  have once2: "transform_dimension_data df ''dim_rooms'' = Inr ?df"
    by (rule transform_dimension_data_rooms_text [OF assms(2,3)])
  have again1: "transform_room_type ?df = Inr ?df"
    using transform_room_type_text [OF g t] same by simp
  have again2: "transform_dimension_data ?df ''dim_rooms'' = Inr ?df"
    using transform_dimension_data_rooms_text [OF g t] same by simp
  have frame: "\<exists>df'. transform_room_type df = Inr df'
              \<and> transform_dimension_data df ''dim_rooms'' = Inr df'
              \<and> getcol df' ''room_type'' = Inr (map str_lower_replace_cell vs)
              \<and> list_all (\<lambda>w. case w of Str t \<Rightarrow> list_all is_az t | Null \<Rightarrow> True
                                | NaN \<Rightarrow> True | _ \<Rightarrow> False) (map str_lower_replace_cell vs)
              \<and> (NaN \<in> set (map str_lower_replace_cell vs)) = (NaN \<in> set vs)
              \<and> transform_room_type df' = Inr df'
              \<and> transform_dimension_data df' ''dim_rooms'' = Inr df'"
    by (rule exI [of _ ?df]) (intro conjI once1 once2 g az str_lower_replace_NaN again1 again2)
  show ?thesis
    by (intro conjI) (rule normalize_room_type_az normalize_room_type_idem frame)+
qed

theorem room_type_normalisation_witness:
  "rectangular \<lparr>columns = [''id'', ''room_type''],
                rows = [[Num 3, Str ''De-Luxe 2''], [Num 4, Null]]\<rparr>
   \<and> getcol \<lparr>columns = [''id'', ''room_type''],
              rows = [[Num 3, Str ''De-Luxe 2''], [Num 4, Null]]\<rparr> ''room_type'' =
       Inr [Str ''De-Luxe 2'', Null]
   \<and> list_all is_text [Str ''De-Luxe 2'', Null]
   \<and> list_all is_az (normalize_room_type ''De-Luxe 2'')
   \<and> normalize_room_type ''De-Luxe 2'' = ''deluxe''
   \<and> transform_room_type \<lparr>columns = [''id'', ''room_type''],
                           rows = [[Num 3, Str ''De-Luxe 2''], [Num 4, Null]]\<rparr> =
       Inr \<lparr>columns = [''id'', ''room_type''], rows = [[Num 3, Str ''deluxe''], [Num 4, Null]]\<rparr>"
proof -
  let ?df = "\<lparr>columns = [''id'', ''room_type''],
              rows = [[Num 3, Str ''De-Luxe 2''], [Num 4, Null]]\<rparr>"
  have h1: "rectangular ?df"
    by (simp add: rectangular_def)
  have h2: "getcol ?df ''room_type'' = Inr [Str ''De-Luxe 2'', Null]"
    by (simp add: getcol_def)
  have h3: "list_all is_text [Str ''De-Luxe 2'', Null]"
    by (simp add: is_text_def)
  have p: "list_all is_az (normalize_room_type ''De-Luxe 2'')"
    by (rule room_type_normalisation [OF h1 h2 h3, THEN conjunct1])
  have n: "normalize_room_type ''De-Luxe 2'' = ''deluxe''"
    by (simp add: normalize_room_type_def lower_char_def is_az_def)
  have q: "transform_room_type ?df =
       Inr \<lparr>columns = [''id'', ''room_type''], rows = [[Num 3, Str ''deluxe''], [Num 4, Null]]\<rparr>"
    by (simp add: transform_room_type_def getcol_def str_lower_replace_def is_text_def
        str_lower_replace_cell_def n setcol_def)
  show ?thesis
    by (intro conjI) (rule h1 h2 h3 p n q)+
qed

subsection \<open>Missing columns\<close>

lemma transform_room_type_absent:
  "''room_type'' \<notin> set (columns df) \<Longrightarrow> transform_room_type df = Inr df"
  by (simp add: transform_room_type_def)

lemma transform_phone_number_absent:
  "''phone_number'' \<notin> set (columns df) \<Longrightarrow> transform_phone_number df = Inr df"
  by (simp add: transform_phone_number_def)

lemma transform_dimension_data_rooms_absent:
  "''room_type'' \<notin> set (columns df) \<Longrightarrow>
   transform_dimension_data df ''dim_rooms'' = Inl (KeyError ''room_type'')"
  using index_of_None [of "''room_type''" "columns df"]
  by (simp add: transform_dimension_data_def getcol_def)

lemma transform_dimension_data_guests_absent:
  "''phone_number'' \<notin> set (columns df) \<Longrightarrow>
   transform_dimension_data df ''dim_guests'' = Inl (KeyError ''phone_number'')"
  using index_of_None [of "''phone_number''" "columns df"]
  by (simp add: transform_dimension_data_def getcol_def)

text \<open>
  C5. On a Rooms batch without a \<^verbatim>\<open>room_type\<close> column the fact job's
  \<^verbatim>\<open>transform_room_type\<close> returns the batch unchanged, but the dimension job's
  \<^verbatim>\<open>transform_dimension_data\<close> raises \<^verbatim>\<open>KeyError\<close>, and so does the whole dimension job,
  which then loads nothing. The same holds for a batch without \<^verbatim>\<open>phone_number\<close>: a
  no-op in the fact job, \<^verbatim>\<open>KeyError\<close> in the dimension job.
\<close>

theorem dimension_transform_missing_column_raises:
  "transform_room_type ex_rooms_untyped = Inr ex_rooms_untyped
   \<and> transform_phone_number ex_rooms_untyped = Inr ex_rooms_untyped
   \<and> transform_dimension_data ex_rooms_untyped ''dim_rooms'' = Inl (KeyError ''room_type'')
   \<and> transform_dimension_data ex_rooms_untyped ''dim_guests'' = Inl (KeyError ''phone_number'')
   \<and> main_dims ex_env_untyped = ([], Some (KeyError ''room_type''))"
proof -
  have c: "columns ex_rooms_untyped = [''id'', ''name'']"
    by (simp add: ex_rooms_untyped_def)
  have a1: "transform_room_type ex_rooms_untyped = Inr ex_rooms_untyped"
    by (rule transform_room_type_absent) (simp add: c)
  have a2: "transform_phone_number ex_rooms_untyped = Inr ex_rooms_untyped"
    by (rule transform_phone_number_absent) (simp add: c)
  have a3: "transform_dimension_data ex_rooms_untyped ''dim_rooms'' =
            Inl (KeyError ''room_type'')"
    by (rule transform_dimension_data_rooms_absent) (simp add: c)
  have a4: "transform_dimension_data ex_rooms_untyped ''dim_guests'' =
            Inl (KeyError ''phone_number'')"
    by (rule transform_dimension_data_guests_absent) (simp add: c)
  have a5: "main_dims ex_env_untyped = ([], Some (KeyError ''room_type''))"
    by (simp add: main_dims_def extract_data_def ex_env_untyped_def ex_env_def a3)
  show ?thesis
    by (intro conjI) (rule a1 a2 a3 a4 a5)+
qed

subsection \<open>Failed extractions\<close>

text \<open>
  C8. When the read of Reservations, Stays, Rooms or Users fails, the fact job and the
  dimension job both end without an exception after printing one line per failed read
  and the abort line: every event of the run is a printed line, so no frame was
  transformed into an error, none was printed and no table was written. The run does
  not depend on the batches that were read.
\<close>

theorem extraction_failure_aborts:
  assumes "read_sql e ''Reservations'' = None \<or> read_sql e ''Stays'' = None
           \<or> read_sql e ''Rooms'' = None \<or> read_sql e ''Users'' = None"
  shows "main_fact e =
           (fst (extract_data e ''Reservations'') @ fst (extract_data e ''Stays'')
            @ fst (extract_data e ''Rooms'') @ fst (extract_data e ''Users'')
            @ [Print ''Extraction failed, aborting ETL process.''], None)
       \<and> main_dims e = main_fact e
       \<and> list_all (\<lambda>ev. case ev of Print line \<Rightarrow> True | _ \<Rightarrow> False) (fst (main_fact e))"
proof -
  have f: "main_fact e =
           (fst (extract_data e ''Reservations'') @ fst (extract_data e ''Stays'')
            @ fst (extract_data e ''Rooms'') @ fst (extract_data e ''Users'')
            @ [Print ''Extraction failed, aborting ETL process.''], None)"
    using assms by (auto simp: main_fact_def extract_data_def split: option.splits)
  have d: "main_dims e =
           (fst (extract_data e ''Reservations'') @ fst (extract_data e ''Stays'')
            @ fst (extract_data e ''Rooms'') @ fst (extract_data e ''Users'')
            @ [Print ''Extraction failed, aborting ETL process.''], None)"
    using assms by (auto simp: main_dims_def extract_data_def split: option.splits)
  have p: "list_all (\<lambda>ev. case ev of Print line \<Rightarrow> True | _ \<Rightarrow> False) (fst (main_fact e))"
    unfolding f by (simp add: extract_data_def split: option.splits)
  show ?thesis
    using f d p by simp
qed

theorem extraction_failure_aborts_witness:
  "(read_sql ex_env_unreadable ''Reservations'' = None
    \<or> read_sql ex_env_unreadable ''Stays'' = None
    \<or> read_sql ex_env_unreadable ''Rooms'' = None
    \<or> read_sql ex_env_unreadable ''Users'' = None)
   \<and> main_fact ex_env_unreadable =
       ([Print ''An error occurred while extracting data from Rooms'',
         Print ''Extraction failed, aborting ETL process.''], None)
   \<and> main_dims ex_env_unreadable =
       ([Print ''An error occurred while extracting data from Rooms'',
         Print ''Extraction failed, aborting ETL process.''], None)"
proof -
  have h: "read_sql ex_env_unreadable ''Reservations'' = None
    \<or> read_sql ex_env_unreadable ''Stays'' = None
    \<or> read_sql ex_env_unreadable ''Rooms'' = None
    \<or> read_sql ex_env_unreadable ''Users'' = None"
    by (simp add: ex_env_unreadable_def)
  have x: "fst (extract_data ex_env_unreadable ''Reservations'') = []"
    "fst (extract_data ex_env_unreadable ''Stays'') = []"
    "fst (extract_data ex_env_unreadable ''Rooms'') =
       [Print ''An error occurred while extracting data from Rooms'']"
    "fst (extract_data ex_env_unreadable ''Users'') = []"
    by (simp_all add: extract_data_def ex_env_unreadable_def ex_env_def)
  note t = extraction_failure_aborts [OF h]
  have f: "main_fact ex_env_unreadable =
       ([Print ''An error occurred while extracting data from Rooms'',
         Print ''Extraction failed, aborting ETL process.''], None)"
    using t [THEN conjunct1] by (simp add: x)
  have d: "main_dims ex_env_unreadable =
       ([Print ''An error occurred while extracting data from Rooms'',
         Print ''Extraction failed, aborting ETL process.''], None)"
    using t [THEN conjunct2, THEN conjunct1] f by simp
  show ?thesis
    by (intro conjI) (rule h f d)+
qed

subsection \<open>Dimension preparation\<close>

lemma append_scalar_rows:
  "map (\<lambda>(r, v). r @ [v]) (zip rs (replicate (length rs) x)) = map (\<lambda>r. r @ [x]) rs"
  by (induction rs) simp_all

lemma setcol_scalar_absent:
  "c \<notin> set (columns df) \<Longrightarrow>
   setcol_scalar df c x = df\<lparr>columns := columns df @ [c], rows := map (\<lambda>r. r @ [x]) (rows df)\<rparr>"
  using index_of_None [of c "columns df"]
  by (simp add: setcol_scalar_def setcol_def append_scalar_rows)

lemma rows_rename [simp]: "rows (rename df m) = rows df"
  by (simp add: rename_def)

lemma columns_rename:
  "columns (rename df m) = map (\<lambda>c. case map_of m c of None \<Rightarrow> c | Some c' \<Rightarrow> c') (columns df)"
  by (simp add: rename_def)

lemma prepare_data_shape:
  fixes e df t
  defines "df1 \<equiv> rename df (case map_of columns_map t of None \<Rightarrow> [] | Some m \<Rightarrow> m)"
  defines "added \<equiv> filter (\<lambda>(c, x). c \<notin> set (columns df1))
                     [(''effective_date'', today e), (''end_date'', Null),
                      (''current_flag'', Bool True)]"
  shows "columns (prepare_data e df t) = columns df1 @ map fst added"
    and "rows (prepare_data e df t) = map (\<lambda>r. r @ map snd added) (rows df)"
proof -
  have r: "rows df1 = rows df"
    by (simp add: df1_def)
  have p: "prepare_data e df t =
     (let df2 = (if ''effective_date'' \<notin> set (columns df1)
                 then setcol_scalar df1 ''effective_date'' (today e) else df1);
          df3 = (if ''end_date'' \<notin> set (columns df2)
                 then setcol_scalar df2 ''end_date'' Null else df2)
      in if ''current_flag'' \<notin> set (columns df3)
         then setcol_scalar df3 ''current_flag'' (Bool True) else df3)"
    by (simp add: prepare_data_def df1_def Let_def)
  show "columns (prepare_data e df t) = columns df1 @ map fst added"
    unfolding p added_def Let_def
    by (cases "''effective_date'' \<in> set (columns df1)";
        cases "''end_date'' \<in> set (columns df1)";
        cases "''current_flag'' \<in> set (columns df1)")
       (simp_all add: setcol_scalar_absent)
  show "rows (prepare_data e df t) = map (\<lambda>r. r @ map snd added) (rows df)"
    unfolding p added_def Let_def
    by (cases "''effective_date'' \<in> set (columns df1)";
        cases "''end_date'' \<in> set (columns df1)";
        cases "''current_flag'' \<in> set (columns df1)")
       (simp_all add: setcol_scalar_absent r)
qed

lemma prepare_data_has_scd:
  "''effective_date'' \<in> set (columns (prepare_data e df t))"
  "''end_date'' \<in> set (columns (prepare_data e df t))"
  "''current_flag'' \<in> set (columns (prepare_data e df t))"
proof -
  let ?df1 = "rename df (case map_of columns_map t of None \<Rightarrow> [] | Some m \<Rightarrow> m)"
  have c: "columns (prepare_data e df t) = columns ?df1 @
             map fst (filter (\<lambda>(c, x). c \<notin> set (columns ?df1))
                  [(''effective_date'', today e), (''end_date'', Null),
                   (''current_flag'', Bool True)])"
    by (rule prepare_data_shape)
  show "''effective_date'' \<in> set (columns (prepare_data e df t))"
    unfolding c by (cases "''effective_date'' \<in> set (columns ?df1)") simp_all
  show "''end_date'' \<in> set (columns (prepare_data e df t))"
    unfolding c by (cases "''end_date'' \<in> set (columns ?df1)") simp_all
  show "''current_flag'' \<in> set (columns (prepare_data e df t))"
    unfolding c by (cases "''current_flag'' \<in> set (columns ?df1)") simp_all
qed

lemma main_dims_loads_scd:
  "list_all (\<lambda>ev. case ev of
                ToSql t m d \<Rightarrow> ''effective_date'' \<in> set (columns d)
                              \<and> ''end_date'' \<in> set (columns d)
                              \<and> ''current_flag'' \<in> set (columns d)
              | _ \<Rightarrow> True) (fst (main_dims e))"
  by (simp add: main_dims_def extract_data_def load_dimension_data_def prepare_data_has_scd
      split: option.splits sum.splits)

text \<open>
  C7. \<^verbatim>\<open>prepare_data\<close> first renames the columns by the dimension's mapping:
  \<^verbatim>\<open>id\<close> becomes \<^verbatim>\<open>reservation_id\<close> for \<^verbatim>\<open>dim_reservations\<close>, \<^verbatim>\<open>stay_id\<close> for
  \<^verbatim>\<open>dim_stays\<close> (where \<^verbatim>\<open>reference_reservation_id\<close> also becomes \<^verbatim>\<open>reservation_id\<close>),
  \<^verbatim>\<open>room_id\<close> for \<^verbatim>\<open>dim_rooms\<close> and \<^verbatim>\<open>guest_id\<close> for \<^verbatim>\<open>dim_guests\<close>. The emitted batch
  then has the renamed columns followed by those of \<^verbatim>\<open>effective_date\<close>, \<^verbatim>\<open>end_date\<close>,
  \<^verbatim>\<open>current_flag\<close> that the renamed input lacks, in this order; each row is the input
  row followed by the defaults of the appended columns (the load date, null, true). So
  all three columns are in every emitted batch, a column is appended only when it was
  absent, and a column that was present keeps its cells. Every batch the dimension job
  writes to the warehouse has the three columns.
\<close>

theorem prepare_data_scd_columns:
  "(let df1 = rename df (case map_of columns_map t of None \<Rightarrow> [] | Some m \<Rightarrow> m);
        added = filter (\<lambda>(c, x). c \<notin> set (columns df1))
                  [(''effective_date'', today e), (''end_date'', Null),
                   (''current_flag'', Bool True)]
    in columns (prepare_data e df t) = columns df1 @ map fst added
     \<and> rows (prepare_data e df t) = map (\<lambda>r. r @ map snd added) (rows df)
     \<and> rows df1 = rows df)
   \<and> ''effective_date'' \<in> set (columns (prepare_data e df t))
   \<and> ''end_date'' \<in> set (columns (prepare_data e df t))
   \<and> ''current_flag'' \<in> set (columns (prepare_data e df t))
   \<and> list_all (\<lambda>ev. case ev of
                  ToSql tab mode d \<Rightarrow> ''effective_date'' \<in> set (columns d)
                                     \<and> ''end_date'' \<in> set (columns d)
                                     \<and> ''current_flag'' \<in> set (columns d)
                | _ \<Rightarrow> True) (fst (main_dims e))
   \<and> columns (rename df (case map_of columns_map ''dim_reservations'' of
                            None \<Rightarrow> [] | Some m \<Rightarrow> m)) =
       map (\<lambda>c. if c = ''id'' then ''reservation_id'' else c) (columns df)
   \<and> columns (rename df (case map_of columns_map ''dim_stays'' of
                            None \<Rightarrow> [] | Some m \<Rightarrow> m)) =
       map (\<lambda>c. if c = ''id'' then ''stay_id''
                else if c = ''reference_reservation_id'' then ''reservation_id'' else c)
         (columns df)
   \<and> columns (rename df (case map_of columns_map ''dim_rooms'' of
                            None \<Rightarrow> [] | Some m \<Rightarrow> m)) =
       map (\<lambda>c. if c = ''id'' then ''room_id'' else c) (columns df)
   \<and> columns (rename df (case map_of columns_map ''dim_guests'' of
                            None \<Rightarrow> [] | Some m \<Rightarrow> m)) =
       map (\<lambda>c. if c = ''id'' then ''guest_id'' else c) (columns df)"
proof -
  let ?df1 = "rename df (case map_of columns_map t of None \<Rightarrow> [] | Some m \<Rightarrow> m)"
  let ?added = "filter (\<lambda>(c, x). c \<notin> set (columns ?df1))
                  [(''effective_date'', today e), (''end_date'', Null),
                   (''current_flag'', Bool True)]"
  have c: "columns (prepare_data e df t) = columns ?df1 @ map fst ?added"
    by (rule prepare_data_shape)
  have r: "rows (prepare_data e df t) = map (\<lambda>r. r @ map snd ?added) (rows df)"
    by (rule prepare_data_shape)
  have shape: "(let df1 = ?df1; added = filter (\<lambda>(c, x). c \<notin> set (columns df1))
                  [(''effective_date'', today e), (''end_date'', Null),
                   (''current_flag'', Bool True)]
    in columns (prepare_data e df t) = columns df1 @ map fst added
     \<and> rows (prepare_data e df t) = map (\<lambda>r. r @ map snd added) (rows df)
     \<and> rows df1 = rows df)"
    unfolding Let_def using c r by simp
  note m = prepare_data_has_scd [of e df t] main_dims_loads_scd [of e]
  have n1: "columns (rename df (case map_of columns_map ''dim_reservations'' of
                            None \<Rightarrow> [] | Some m \<Rightarrow> m)) =
       map (\<lambda>c. if c = ''id'' then ''reservation_id'' else c) (columns df)"
    by (simp add: columns_rename columns_map_def)
  have n2: "columns (rename df (case map_of columns_map ''dim_stays'' of
                            None \<Rightarrow> [] | Some m \<Rightarrow> m)) =
       map (\<lambda>c. if c = ''id'' then ''stay_id''
                else if c = ''reference_reservation_id'' then ''reservation_id'' else c)
         (columns df)"
    by (simp add: columns_rename columns_map_def)
  have n3: "columns (rename df (case map_of columns_map ''dim_rooms'' of
                            None \<Rightarrow> [] | Some m \<Rightarrow> m)) =
       map (\<lambda>c. if c = ''id'' then ''room_id'' else c) (columns df)"
    by (simp add: columns_rename columns_map_def)
  have n4: "columns (rename df (case map_of columns_map ''dim_guests'' of
                            None \<Rightarrow> [] | Some m \<Rightarrow> m)) =
       map (\<lambda>c. if c = ''id'' then ''guest_id'' else c) (columns df)"
    by (simp add: columns_rename columns_map_def)
  show ?thesis
    by (intro conjI) (rule shape m n1 n2 n3 n4)+
qed

theorem prepare_data_scd_columns_witness:
  "columns (prepare_data ex_env ex_stays ''dim_stays'') =
     [''stay_id'', ''date'', ''reservation_id'', ''room_id'', ''guest_id'',
      ''effective_date'', ''end_date'', ''current_flag'']
   \<and> rows (prepare_data ex_env ex_stays ''dim_stays'') =
     [[Num 10, Str ''d1'', Flt 1, Num 3, Num 4, Str ''2024-01-01'', Null, Bool True],
      [Num 11, Str ''d1'', Flt 99, Num 3, Num 5, Str ''2024-01-01'', Null, Bool True],
      [Num 12, Str ''d1'', NaN, Num 8, Num 4, Str ''2024-01-01'', Null, Bool True],
      [Num 10, Str ''d2'', Flt 2, Num 3, Num 4, Str ''2024-01-01'', Null, Bool True]]"
  using prepare_data_scd_columns [of ex_stays "''dim_stays''" ex_env, THEN conjunct1]
  by (simp add: Let_def columns_rename columns_map_def ex_stays_def ex_env_def)

subsection \<open>Projection and first-seen deduplication\<close>

lemma positions_Inr:
  "positions cols cs = Inr is \<Longrightarrow> map (\<lambda>c. index_of c cols) cs = map Some is"
  unfolding positions_def
  by (induction cs arbitrary: "is") (auto split: option.splits sum.splits)

lemma positions_nth:
  assumes "positions cols cs = Inr is" and "k < length cs"
  shows "length is = length cs" and "index_of (cs ! k) cols = Some (is ! k)"
proof -
  have m: "map (\<lambda>c. index_of c cols) cs = map Some is"
    using assms(1) by (rule positions_Inr)
  then show l: "length is = length cs"
    by (metis length_map)
  have "map (\<lambda>c. index_of c cols) cs ! k = map Some is ! k"
    by (simp only: m)
  then show "index_of (cs ! k) cols = Some (is ! k)"
    using assms(2) l by simp
qed

lemma select_Inr:
  "select df cs = Inr d \<longleftrightarrow>
   (\<exists>is. positions (columns df) cs = Inr is
        \<and> d = \<lparr>columns = cs, rows = map (project is) (rows df)\<rparr>)"
  by (auto simp: select_def bind_err_eq_Inr)

lemma kept_Cons:
  "map fst (filter snd (zip (r # rs) (map Not (duplicated_from seen (map key (r # rs)))))) =
   (if key r \<in> set seen then [] else [r]) @
   map fst (filter snd (zip rs (map Not (duplicated_from (key r # seen) (map key rs)))))"
  by simp

lemma kept_find:
  "List.find (\<lambda>r. key r = x)
     (map fst (filter snd (zip rs (map Not (duplicated_from seen (map key rs)))))) =
   (if x \<in> set seen then None else List.find (\<lambda>r. key r = x) rs)"
proof (induction rs arbitrary: seen)
  case Nil
  show ?case by simp
next
  case (Cons r rs)
  show ?case
    unfolding kept_Cons by (simp add: Cons.IH)
qed

lemma kept_keys:
  "distinct (map key (map fst (filter snd (zip rs (map Not (duplicated_from seen (map key rs)))))))
   \<and> key ` set (map fst (filter snd (zip rs (map Not (duplicated_from seen (map key rs))))))
       \<inter> set seen = {}"
proof (induction rs arbitrary: seen)
  case Nil
  show ?case by simp
next
  case (Cons r rs)
  from Cons.IH [of "key r # seen"] show ?case
    unfolding kept_Cons by auto
qed

lemma kept_subseq:
  "subseq (map fst (filter snd (zip rs m))) rs"
proof (induction rs arbitrary: m)
  case Nil
  show ?case by simp
next
  case (Cons r rs)
  show ?case
    by (cases m) (auto intro: Cons.IH list_emb.intros)
qed

lemma drop_duplicates_Inr:
  "drop_duplicates df c = Inr d \<longleftrightarrow>
   (\<exists>i. index_of c (columns df) = Some i
       \<and> d = df\<lparr>rows := map fst (filter snd (zip (rows df)
                 (map Not (duplicated_from [] (map (\<lambda>r. r ! i) (rows df))))))\<rparr>)"
  by (auto simp: drop_duplicates_def bind_err_eq_Inr getcol_Inr mask_rows_def duplicated_def)

lemma find_map_project:
  "List.find P (map f rs) = map_option f (List.find (\<lambda>r. P (f r)) rs)"
  by (induction rs) simp_all

lemma prepare_fact_data_Inr:
  assumes "prepare_fact_data df cols id_col new_id_col = Inr out"
  shows "\<exists>is i. positions (columns df) cols = Inr is
       \<and> index_of id_col cols = Some i
       \<and> index_of id_col (columns df) = Some (is ! i)
       \<and> columns out = map (\<lambda>c. if c = id_col then new_id_col else c) cols
       \<and> rows out = map fst (filter snd (zip (map (project is) (rows df))
            (map Not (duplicated_from [] (map (\<lambda>r. r ! (is ! i)) (rows df))))))"
proof -
  from assms obtain d1 d2 where s: "select df cols = Inr d1"
    and dd: "drop_duplicates d1 id_col = Inr d2"
    and o: "out = rename d2 [(id_col, new_id_col)]"
    by (auto simp: prepare_fact_data_def bind_err_eq_Inr)
  from s obtain "is" where p: "positions (columns df) cols = Inr is"
    and d1: "d1 = \<lparr>columns = cols, rows = map (project is) (rows df)\<rparr>"
    by (auto simp: select_Inr)
  from dd obtain i where i: "index_of id_col (columns d1) = Some i"
    and d2: "d2 = d1\<lparr>rows := map fst (filter snd (zip (rows d1)
                 (map Not (duplicated_from [] (map (\<lambda>r. r ! i) (rows d1))))))\<rparr>"
    by (auto simp: drop_duplicates_Inr)
  have ic: "index_of id_col cols = Some i"
    using i d1 by simp
  then have il: "i < length cols" and ci: "cols ! i = id_col"
    using index_of_Some [of id_col cols i] by simp_all
  have len: "length is = length cols" and j: "index_of id_col (columns df) = Some (is ! i)"
    using positions_nth [OF p il] ci by simp_all
  have key: "map (\<lambda>r. r ! i) (map (project is) (rows df)) = map (\<lambda>r. r ! (is ! i)) (rows df)"
    using il len by (simp add: project_def)
  have c: "columns out = map (\<lambda>c. if c = id_col then new_id_col else c) cols"
    by (simp add: o d2 d1 columns_rename)
  have r0: "rows out = map fst (filter snd (zip (rows d1)
            (map Not (duplicated_from [] (map (\<lambda>r. r ! i) (rows d1))))))"
    by (simp add: o d2)
  have r1: "rows d1 = map (project is) (rows df)"
    by (simp add: d1)
  have r: "rows out = map fst (filter snd (zip (map (project is) (rows df))
            (map Not (duplicated_from [] (map (\<lambda>r. r ! (is ! i)) (rows df))))))"
    unfolding r0 r1 key ..
  show ?thesis
    using p ic j c r by blast
qed

text \<open>
  C2. When \<^verbatim>\<open>prepare_fact_data\<close> returns a batch, the id column is one of the
  selected columns, say at position \<open>i\<close> of the selection and position \<open>j\<close> of the input.
  The emitted batch has the selected columns with the id column renamed; no two of its
  rows have the same id; for every id value, the emitted row with that id is the
  projection of the first input row with that id (and there is none when the input has
  none); and the emitted rows are in input order.
\<close>

theorem prepare_fact_data_first_seen:
  assumes "prepare_fact_data df cols id_col new_id_col = Inr out"
  shows "\<exists>is i j. positions (columns df) cols = Inr is
       \<and> index_of id_col cols = Some i
       \<and> index_of id_col (columns df) = Some j
       \<and> columns out = map (\<lambda>c. if c = id_col then new_id_col else c) cols
       \<and> distinct (map (\<lambda>r. r ! i) (rows out))
       \<and> (\<forall>x. List.find (\<lambda>r. r ! i = x) (rows out) =
               map_option (project is) (List.find (\<lambda>r. r ! j = x) (rows df)))
       \<and> subseq (rows out) (map (project is) (rows df))"
proof -
  from prepare_fact_data_Inr [OF assms] obtain "is" i
    where p: "positions (columns df) cols = Inr is"
      and i: "index_of id_col cols = Some i"
      and j: "index_of id_col (columns df) = Some (is ! i)"
      and c: "columns out = map (\<lambda>c. if c = id_col then new_id_col else c) cols"
      and r: "rows out = map fst (filter snd (zip (map (project is) (rows df))
            (map Not (duplicated_from [] (map (\<lambda>r. r ! (is ! i)) (rows df))))))"
    by blast
  have il: "i < length is"
    using index_of_Some [OF i] positions_nth(1) [OF p, of i] by simp
  have pk: "\<And>r. project is r ! i = r ! (is ! i)"
    using il by (simp add: project_def)
  have k: "map (\<lambda>r. r ! (is ! i)) (rows df) = map (\<lambda>r. r ! i) (map (project is) (rows df))"
    by (simp add: pk)
  have r': "rows out = map fst (filter snd (zip (map (project is) (rows df))
            (map Not (duplicated_from [] (map (\<lambda>r. r ! i) (map (project is) (rows df)))))))"
    unfolding r k ..
  have d: "distinct (map (\<lambda>r. r ! i) (rows out))"
    unfolding r' using kept_keys [of "\<lambda>r. r ! i" "map (project is) (rows df)" "[]"] by blast
  have f: "\<forall>x. List.find (\<lambda>r. r ! i = x) (rows out) =
               map_option (project is) (List.find (\<lambda>r. r ! (is ! i) = x) (rows df))"
    unfolding r' kept_find by (simp add: find_map_project pk)
  have s: "subseq (rows out) (map (project is) (rows df))"
    unfolding r by (rule kept_subseq)
  show ?thesis
    using p i j c d f s by blast
qed

theorem prepare_fact_data_first_seen_witness:
  "prepare_fact_data ex_reservations fact_reservations_columns ''id'' ''reservation_id'' =
     Inr \<lparr>columns = [''reservation_id'', ''reservation_datetime'', ''check_in_date'',
                      ''check_out_date'', ''status'', ''hotel_id'', ''booker_id'',
                      ''total_room_price'', ''voucher_code'', ''total_discount''],
          rows = [[Num 1, Str ''t1'', Str ''d1'', Str ''d2'', Str ''ok'', Num 1, Num 7,
                   Num 100, Str ''5'', Num 0],
                  [Num 2, Str ''t2'', Str ''d1'', Str ''d2'', Str ''ok'', Num 1, Num 7,
                   Num 100, Null, Num 0]]\<rparr>
   \<and> (\<exists>is i j. positions (columns ex_reservations) fact_reservations_columns = Inr is
       \<and> index_of ''id'' fact_reservations_columns = Some i
       \<and> index_of ''id'' (columns ex_reservations) = Some j
       \<and> distinct (map (\<lambda>r. r ! i)
            [[Num 1, Str ''t1'', Str ''d1'', Str ''d2'', Str ''ok'', Num 1, Num 7,
              Num 100, Str ''5'', Num 0],
             [Num 2, Str ''t2'', Str ''d1'', Str ''d2'', Str ''ok'', Num 1, Num 7,
              Num 100, Null, Num 0]]))"
proof -
  let ?out = "\<lparr>columns = [''reservation_id'', ''reservation_datetime'', ''check_in_date'',
                      ''check_out_date'', ''status'', ''hotel_id'', ''booker_id'',
                      ''total_room_price'', ''voucher_code'', ''total_discount''],
          rows = [[Num 1, Str ''t1'', Str ''d1'', Str ''d2'', Str ''ok'', Num 1, Num 7,
                   Num 100, Str ''5'', Num 0],
                  [Num 2, Str ''t2'', Str ''d1'', Str ''d2'', Str ''ok'', Num 1, Num 7,
                   Num 100, Null, Num 0]]\<rparr>"
  have h: "prepare_fact_data ex_reservations fact_reservations_columns ''id''
             ''reservation_id'' = Inr ?out"
    by (simp add: prepare_fact_data_def select_def positions_def project_def
        drop_duplicates_def getcol_def mask_rows_def duplicated_def rename_def
        ex_reservations_def fact_reservations_columns_def)
  from prepare_fact_data_first_seen [OF h]
  obtain "is" i j where
    "positions (columns ex_reservations) fact_reservations_columns = Inr is"
    "index_of ''id'' fact_reservations_columns = Some i"
    "index_of ''id'' (columns ex_reservations) = Some j"
    "distinct (map (\<lambda>r. r ! i) (rows ?out))"
    by blast
  then have "\<exists>is i j. positions (columns ex_reservations) fact_reservations_columns = Inr is
       \<and> index_of ''id'' fact_reservations_columns = Some i
       \<and> index_of ''id'' (columns ex_reservations) = Some j
       \<and> distinct (map (\<lambda>r. r ! i) (rows ?out))"
    by blast
  then show ?thesis
    using h by simp
qed

subsection \<open>Left joins\<close>

lemma merge_left_Inr:
  "merge_left l r lk rk ls rs = Inr m \<longleftrightarrow>
   (\<exists>i j. index_of lk (columns l) = Some i \<and> index_of rk (columns r) = Some j
        \<and> merge_keys_ok (map (\<lambda>x. x ! i) (rows l)) (map (\<lambda>x. x ! j) (rows r))
        \<and> m = \<lparr>columns =
                  map (\<lambda>c. if c \<in> set (columns r) then c @ ls else c) (columns l) @
                  map (\<lambda>c. if c \<in> set (columns l) then c @ rs else c) (columns r),
                rows = concat (map (join_row r (list_ex (\<lambda>lr. matches r i j lr = []) (rows l))
                                      i j) (rows l))\<rparr>)"
  by (auto simp: merge_left_def Let_def split: option.splits if_splits)

lemma if_append_Nil: "(if b then c @ [] else c) = c"
  by simp

lemma merge_left_plain:
  assumes "merge_left l r lk rk [] rs = Inr m"
  shows "\<exists>i j fill. index_of lk (columns l) = Some i \<and> index_of rk (columns r) = Some j
    \<and> columns m = columns l @ map (\<lambda>c. if c \<in> set (columns l) then c @ rs else c) (columns r)
    \<and> rows m = concat (map (join_row r fill i j) (rows l))"
proof -
  from assms obtain i j where i: "index_of lk (columns l) = Some i"
    and j: "index_of rk (columns r) = Some j"
    and m: "m = \<lparr>columns =
                  map (\<lambda>c. if c \<in> set (columns r) then c @ [] else c) (columns l) @
                  map (\<lambda>c. if c \<in> set (columns l) then c @ rs else c) (columns r),
                rows = concat (map (join_row r (list_ex (\<lambda>lr. matches r i j lr = []) (rows l))
                                      i j) (rows l))\<rparr>"
    unfolding merge_left_Inr by blast
  have "columns m = columns l @ map (\<lambda>c. if c \<in> set (columns l) then c @ rs else c) (columns r)"
    by (simp add: m if_append_Nil)
  moreover have "rows m = concat (map (join_row r (list_ex (\<lambda>lr. matches r i j lr = []) (rows l))
                                      i j) (rows l))"
    by (simp add: m)
  ultimately show ?thesis
    using i j by blast
qed

lemma merge_left_columns:
  "merge_left l r lk rk [] rs = Inr m \<Longrightarrow>
   columns m = columns l @ map (\<lambda>c. if c \<in> set (columns l) then c @ rs else c) (columns r)"
  using merge_left_plain by blast

lemma join_row_nonempty: "join_row r fill i j lr \<noteq> []"
  by (simp add: join_row_def split: list.splits)

lemma join_row_prefix: "x \<in> set (join_row r fill i j lr) \<Longrightarrow> prefix lr x"
  by (auto simp: join_row_def split: list.splits)

lemma join_row_some: "\<exists>x. x \<in> set (join_row r fill i j lr)"
  using join_row_nonempty [of r fill i j lr] by (cases "join_row r fill i j lr") auto

lemma merge_rows_prefix:
  assumes "rows m = concat (map (join_row r fill i j) (rows l))"
  shows "x \<in> set (rows m) \<Longrightarrow> \<exists>lr \<in> set (rows l). prefix lr x"
    and "lr \<in> set (rows l) \<Longrightarrow> \<exists>x \<in> set (rows m). prefix lr x"
proof -
  show "x \<in> set (rows m) \<Longrightarrow> \<exists>lr \<in> set (rows l). prefix lr x"
    unfolding assms by (auto dest: join_row_prefix)
  show "lr \<in> set (rows l) \<Longrightarrow> \<exists>x \<in> set (rows m). prefix lr x"
    unfolding assms using join_row_some [of r fill i j lr] by (auto dest: join_row_prefix)
qed

lemma merge_left_keeps_left:
  assumes "merge_left l r lk rk [] rs = Inr m" and "c \<in> set (columns l)"
  shows "c \<in> set (columns m)"
  using assms(2) by (simp add: merge_left_columns [OF assms(1)])

lemma merge_left_adds_right:
  assumes "merge_left l r lk rk [] rs = Inr m" and "c \<in> set (columns r)"
  shows "c \<in> set (columns m)"
proof (cases "c \<in> set (columns l)")
  case True
  then show ?thesis by (rule merge_left_keeps_left [OF assms(1)])
next
  case False
  have "c \<in> (\<lambda>c. if c \<in> set (columns l) then c @ rs else c) ` set (columns r)"
    using assms(2) False by (intro image_eqI [of _ _ c]) simp_all
  then show ?thesis
    by (simp add: merge_left_columns [OF assms(1)])
qed

lemma rename_keeps:
  assumes "c \<in> set (columns df)" and "map_of m c = None"
  shows "c \<in> set (columns (rename df m))"
proof -
  have "c \<in> (\<lambda>c. case map_of m c of None \<Rightarrow> c | Some c' \<Rightarrow> c') ` set (columns df)"
    using assms by (intro image_eqI [of _ _ c]) simp_all
  then show ?thesis
    by (simp add: columns_rename)
qed

lemma select_columns: "select df cs = Inr d \<Longrightarrow> columns d = cs"
  by (auto simp: select_Inr)

lemma mask_rows_columns [simp]: "columns (mask_rows df m) = columns df"
  by (simp add: mask_rows_def)

lemma mask_rows_rows: "rows (mask_rows df m) = map fst (filter snd (zip (rows df) m))"
  by (simp add: mask_rows_def)

lemma kept_subset: "set (map fst (filter snd (zip xs m))) \<subseteq> set xs"
  by (auto dest: set_zip_leftD)

subsection \<open>The steps of the fact job\<close>

lemma merge_and_reconcile_Inr:
  assumes "merge_and_reconcile e r s ro u = Inr rc"
  shows "\<exists>rooms1 users1 res1 rooms2 stays1 users2 stays2 refs ks ids.
    transform_room_type ro = Inr rooms1
    \<and> transform_phone_number u = Inr users1
    \<and> transform_reservation_data e r = Inr res1
    \<and> select rooms1 [''id'', ''room_type''] = Inr rooms2
    \<and> merge_left s rooms2 ''room_id'' ''id'' [] ''_room'' = Inr stays1
    \<and> select users1 [''id'', ''phone_number''] = Inr users2
    \<and> merge_left stays1 users2 ''guest_id'' ''id'' [] ''_guest'' = Inr stays2
    \<and> stays_df rc = rename stays2 [(''reference_reservation_id'', ''reservation_id'')]
    \<and> select (stays_df rc) [''reservation_id''] = Inr refs
    \<and> merge_left res1 refs ''id'' ''reservation_id'' [] ''_stays'' = Inr (reservations_df rc)
    \<and> getcol (stays_df rc) ''reservation_id'' = Inr ks
    \<and> getcol (reservations_df rc) ''id'' = Inr ids
    \<and> valid_stays rc = mask_rows (stays_df rc) (isin ks ids)
    \<and> invalid_stays rc = mask_rows (stays_df rc) (map Not (isin ks ids))"
proof -
  from assms obtain rooms1 users1 res1 rooms2 stays1 users2 stays2 refs res2 ks ids where
    f: "transform_room_type ro = Inr rooms1"
    "transform_phone_number u = Inr users1"
    "transform_reservation_data e r = Inr res1"
    "select rooms1 [''id'', ''room_type''] = Inr rooms2"
    "merge_left s rooms2 ''room_id'' ''id'' [] ''_room'' = Inr stays1"
    "select users1 [''id'', ''phone_number''] = Inr users2"
    "merge_left stays1 users2 ''guest_id'' ''id'' [] ''_guest'' = Inr stays2"
    "select (rename stays2 [(''reference_reservation_id'', ''reservation_id'')])
       [''reservation_id''] = Inr refs"
    "merge_left res1 refs ''id'' ''reservation_id'' [] ''_stays'' = Inr res2"
    "getcol (rename stays2 [(''reference_reservation_id'', ''reservation_id'')])
       ''reservation_id'' = Inr ks"
    "getcol res2 ''id'' = Inr ids"
    and rc: "Inr \<lparr>reservations_df = res2,
          stays_df = rename stays2 [(''reference_reservation_id'', ''reservation_id'')],
          valid_stays = mask_rows
             (rename stays2 [(''reference_reservation_id'', ''reservation_id'')]) (isin ks ids),
          invalid_stays = mask_rows
             (rename stays2 [(''reference_reservation_id'', ''reservation_id'')])
             (map Not (isin ks ids))\<rparr> = (Inr rc :: error + reconciled)"
    unfolding merge_and_reconcile_def bind_err_eq_Inr Let_def
    by (elim exE conjE) (rule that, assumption+)
  from rc have rc: "rc = \<lparr>reservations_df = res2,
          stays_df = rename stays2 [(''reference_reservation_id'', ''reservation_id'')],
          valid_stays = mask_rows
             (rename stays2 [(''reference_reservation_id'', ''reservation_id'')]) (isin ks ids),
          invalid_stays = mask_rows
             (rename stays2 [(''reference_reservation_id'', ''reservation_id'')])
             (map Not (isin ks ids))\<rparr>"
    by simp
  have s: "stays_df rc = rename stays2 [(''reference_reservation_id'', ''reservation_id'')]"
    "reservations_df rc = res2"
    "valid_stays rc = mask_rows
        (rename stays2 [(''reference_reservation_id'', ''reservation_id'')]) (isin ks ids)"
    "invalid_stays rc = mask_rows
        (rename stays2 [(''reference_reservation_id'', ''reservation_id'')])
        (map Not (isin ks ids))"
    by (simp_all add: rc)
  show ?thesis
    unfolding s by (intro exI conjI) (rule f refl)+
qed

lemma main_fact_loads:
  assumes "ToSql t mode d \<in> set (fst (main_fact e))"
  shows "\<exists>r s ro u rc fr fs.
           read_sql e ''Reservations'' = Some r \<and> read_sql e ''Stays'' = Some s
         \<and> read_sql e ''Rooms'' = Some ro \<and> read_sql e ''Users'' = Some u
         \<and> merge_and_reconcile e r s ro u = Inr rc
         \<and> prepare_fact_data (reservations_df rc) fact_reservations_columns
              ''id'' ''reservation_id'' = Inr fr
         \<and> prepare_fact_data (valid_stays rc) fact_stays_columns ''id'' ''stay_id'' = Inr fs
         \<and> mode = Append
         \<and> (t = ''fact_reservations'' \<and> d = fr \<or> t = ''fact_stays'' \<and> d = fs)"
  using assms
  by (auto simp: main_fact_def extract_data_def load_data_def Let_def
      split: option.splits sum.splits if_splits)

lemma stays_df_denormalised:
  assumes "merge_and_reconcile e r s ro u = Inr rc"
  shows "''room_type'' \<in> set (columns (stays_df rc))"
    and "''phone_number'' \<in> set (columns (stays_df rc))"
proof -
  from merge_and_reconcile_Inr [OF assms] obtain rooms1 users1 rooms2 stays1 users2 stays2
    where r2: "select rooms1 [''id'', ''room_type''] = Inr rooms2"
    and m1: "merge_left s rooms2 ''room_id'' ''id'' [] ''_room'' = Inr stays1"
    and u2: "select users1 [''id'', ''phone_number''] = Inr users2"
    and m2: "merge_left stays1 users2 ''guest_id'' ''id'' [] ''_guest'' = Inr stays2"
    and s3: "stays_df rc = rename stays2 [(''reference_reservation_id'', ''reservation_id'')]"
    by blast
  have "''room_type'' \<in> set (columns stays1)"
    by (rule merge_left_adds_right [OF m1]) (simp add: select_columns [OF r2])
  then have a: "''room_type'' \<in> set (columns stays2)"
    by (rule merge_left_keeps_left [OF m2])
  have b: "''phone_number'' \<in> set (columns stays2)"
    by (rule merge_left_adds_right [OF m2]) (simp add: select_columns [OF u2])
  show "''room_type'' \<in> set (columns (stays_df rc))"
    unfolding s3 using a by (rule rename_keeps) simp
  show "''phone_number'' \<in> set (columns (stays_df rc))"
    unfolding s3 using b by (rule rename_keeps) simp
qed

subsection \<open>The fact job on the example database\<close>

lemma ex_transform_room_type:
  "transform_room_type ex_rooms =
     Inr \<lparr>columns = [''id'', ''name'', ''room_type'', ''floor'', ''hotel_id''],
          rows = [[Num 3, Str ''n'', Str ''deluxe'', Num 1, Num 1]]\<rparr>"
proof -
  have n: "normalize_room_type ''De-Luxe'' = ''deluxe''"
    by (simp add: normalize_room_type_def lower_char_def is_az_def)
  show ?thesis
    by (simp add: transform_room_type_def ex_rooms_def getcol_def str_lower_replace_def
        is_text_def str_lower_replace_cell_def n setcol_def)
qed

lemma ex_transform_phone_number:
  "transform_phone_number ex_users =
     Inr \<lparr>columns = [''id'', ''phone_number''],
          rows = [[Num 4, Str ''+620812''], [Num 5, Null]]\<rparr>"
  by (simp add: transform_phone_number_def ex_users_def getcol_def apply_series_def
      phone_lambda_def startswith_plus_def setcol_def)

lemma ex_transform_reservation_data:
  "transform_reservation_data ex_env ex_reservations = Inr ex_reservations_cast"
  by (simp add: transform_reservation_data_def ex_env_def ex_reservations_def getcol_def
      apply_series_def setcol_def ex_astype_float_def ex_reservations_cast_def)

lemmas merge_eval = merge_left_def join_row_def matches_def recast_def as_key_def
  merge_keys_ok_def dtype_of_def is_num_def is_flt_def is_bool_def Let_def upt_rec

lemma ex_merge_and_reconcile:
  "merge_and_reconcile ex_env ex_reservations ex_stays ex_rooms ex_users =
     Inr \<lparr>reservations_df = ex_reservations_df,
          stays_df = ex_stays_df,
          valid_stays = ex_valid_stays,
          invalid_stays = ex_invalid_stays\<rparr>"
  unfolding merge_and_reconcile_def ex_transform_room_type ex_transform_phone_number
    ex_transform_reservation_data bind_err_Inr
  by (simp add: select_def positions_def project_def merge_eval rename_def
      ex_stays_def ex_stays_df_def ex_reservations_cast_def ex_reservations_df_def getcol_def
      mask_rows_def isin_def ex_valid_stays_def ex_invalid_stays_def)

lemma ex_fact_reservations:
  "prepare_fact_data ex_reservations_df fact_reservations_columns ''id'' ''reservation_id'' =
     Inr ex_fact_reservations"
  by (simp add: prepare_fact_data_def select_def positions_def project_def
      drop_duplicates_def getcol_def mask_rows_def duplicated_def rename_def
      ex_reservations_df_def fact_reservations_columns_def ex_fact_reservations_def)

lemma ex_fact_stays:
  "prepare_fact_data ex_valid_stays fact_stays_columns ''id'' ''stay_id'' = Inr ex_fact_stays"
  by (simp add: prepare_fact_data_def select_def positions_def project_def
      drop_duplicates_def getcol_def mask_rows_def duplicated_def rename_def
      ex_valid_stays_def fact_stays_columns_def ex_fact_stays_def)

lemma ex_read_sql:
  "read_sql ex_env ''Reservations'' = Some ex_reservations"
  "read_sql ex_env ''Stays'' = Some ex_stays"
  "read_sql ex_env ''Rooms'' = Some ex_rooms"
  "read_sql ex_env ''Users'' = Some ex_users"
  "read_sql ex_env ''Campaign'' = Some ex_campaigns"
  by (simp_all add: ex_env_def)

lemma main_fact_ex_env:
  "main_fact ex_env =
    ([Print ''Invalid stays found (no matching reservation):'',
      PrintFrame ex_invalid_stays,
      ToSql ''fact_reservations'' Append ex_fact_reservations,
      Print ''Data successfully loaded into fact_reservations.'',
      ToSql ''fact_stays'' Append ex_fact_stays,
      Print ''Data successfully loaded into fact_stays.''],
     None)"
proof -
  have e: "\<not> empty_df ex_invalid_stays"
    by (simp add: empty_df_def ex_invalid_stays_def)
  have ok: "to_sql_ok ex_env = (\<lambda>t. True)"
    by (simp add: ex_env_def)
  show ?thesis
    by (simp add: main_fact_def extract_data_def ex_read_sql ex_merge_and_reconcile
        ex_fact_reservations ex_fact_stays e load_data_def ok)
qed

subsection \<open>The columns of \<^verbatim>\<open>fact_stays\<close>\<close>

lemma main_fact_loads_stays:
  assumes "ToSql ''fact_stays'' mode d \<in> set (fst (main_fact e))"
  shows "\<exists>r s ro u rc.
           read_sql e ''Reservations'' = Some r \<and> read_sql e ''Stays'' = Some s
         \<and> read_sql e ''Rooms'' = Some ro \<and> read_sql e ''Users'' = Some u
         \<and> merge_and_reconcile e r s ro u = Inr rc
         \<and> prepare_fact_data (valid_stays rc) fact_stays_columns ''id'' ''stay_id'' = Inr d"
  using main_fact_loads [OF assms] by auto

lemma main_fact_loads_reservations:
  assumes "ToSql ''fact_reservations'' mode d \<in> set (fst (main_fact e))"
  shows "\<exists>r s ro u rc.
           read_sql e ''Reservations'' = Some r \<and> read_sql e ''Stays'' = Some s
         \<and> read_sql e ''Rooms'' = Some ro \<and> read_sql e ''Users'' = Some u
         \<and> merge_and_reconcile e r s ro u = Inr rc
         \<and> prepare_fact_data (reservations_df rc) fact_reservations_columns
              ''id'' ''reservation_id'' = Inr d"
  using main_fact_loads [OF assms] by auto

text \<open>
  C10. Every batch the fact job writes to \<^verbatim>\<open>fact_stays\<close> is the prepared batch of the
  valid stays; its columns are exactly \<^verbatim>\<open>stay_id\<close>, \<^verbatim>\<open>date\<close>, \<^verbatim>\<open>reservation_id\<close>,
  \<^verbatim>\<open>room_id\<close>, \<^verbatim>\<open>guest_id\<close> and each of its rows has five cells, although the valid
  stays it is made from carry the joined \<^verbatim>\<open>room_type\<close> and \<^verbatim>\<open>phone_number\<close> columns.
\<close>

theorem fact_stays_columns_only:
  assumes "ToSql ''fact_stays'' mode d \<in> set (fst (main_fact e))"
  shows "columns d = [''stay_id'', ''date'', ''reservation_id'', ''room_id'', ''guest_id'']
       \<and> list_all (\<lambda>row. length row = 5) (rows d)
       \<and> ''room_type'' \<notin> set (columns d)
       \<and> ''phone_number'' \<notin> set (columns d)
       \<and> (\<exists>r s ro u rc.
             read_sql e ''Reservations'' = Some r \<and> read_sql e ''Stays'' = Some s
           \<and> read_sql e ''Rooms'' = Some ro \<and> read_sql e ''Users'' = Some u
           \<and> merge_and_reconcile e r s ro u = Inr rc
           \<and> prepare_fact_data (valid_stays rc) fact_stays_columns ''id'' ''stay_id'' = Inr d
           \<and> ''room_type'' \<in> set (columns (valid_stays rc))
           \<and> ''phone_number'' \<in> set (columns (valid_stays rc)))"
proof -
  from main_fact_loads_stays [OF assms] obtain r s ro u rc where
    db: "read_sql e ''Reservations'' = Some r" "read_sql e ''Stays'' = Some s"
        "read_sql e ''Rooms'' = Some ro" "read_sql e ''Users'' = Some u"
    and mr: "merge_and_reconcile e r s ro u = Inr rc"
    and pf: "prepare_fact_data (valid_stays rc) fact_stays_columns ''id'' ''stay_id'' = Inr d"
    by (elim exE conjE) (rule that; assumption)
  from prepare_fact_data_Inr [OF pf] obtain "is" i where
    p: "positions (columns (valid_stays rc)) fact_stays_columns = Inr is"
    and c0: "columns d = map (\<lambda>c. if c = ''id'' then ''stay_id'' else c) fact_stays_columns"
    and r0: "rows d = map fst (filter snd (zip (map (project is) (rows (valid_stays rc)))
            (map Not (duplicated_from [] (map (\<lambda>r. r ! (is ! i)) (rows (valid_stays rc)))))))"
    by (elim exE conjE) (rule that; assumption)
  have c: "columns d = [''stay_id'', ''date'', ''reservation_id'', ''room_id'', ''guest_id'']"
    by (simp add: c0 fact_stays_columns_def)
  have "length is = length fact_stays_columns"
    using positions_Inr [OF p] by (metis length_map)
  then have "length is = 5"
    by (simp add: fact_stays_columns_def)
  then have "\<And>row. row \<in> set (map (project is) (rows (valid_stays rc))) \<Longrightarrow> length row = 5"
    by (auto simp: project_def)
  then have w: "list_all (\<lambda>row. length row = 5) (rows d)"
    unfolding r0 list_all_iff
    using kept_subset [of "map (project is) (rows (valid_stays rc))"] by (auto simp del: set_map)
  from merge_and_reconcile_Inr [OF mr] obtain ks ids where
    "valid_stays rc = mask_rows (stays_df rc) (isin ks ids)"
    by (elim exE conjE) (rule that; assumption)
  then have v: "columns (valid_stays rc) = columns (stays_df rc)"
    by simp
  have n1: "''room_type'' \<notin> set (columns d)" and n2: "''phone_number'' \<notin> set (columns d)"
    by (simp_all add: c)
  have j: "''room_type'' \<in> set (columns (valid_stays rc))"
    "''phone_number'' \<in> set (columns (valid_stays rc))"
    unfolding v by (rule stays_df_denormalised [OF mr])+
  have ex: "\<exists>r s ro u rc.
             read_sql e ''Reservations'' = Some r \<and> read_sql e ''Stays'' = Some s
           \<and> read_sql e ''Rooms'' = Some ro \<and> read_sql e ''Users'' = Some u
           \<and> merge_and_reconcile e r s ro u = Inr rc
           \<and> prepare_fact_data (valid_stays rc) fact_stays_columns ''id'' ''stay_id'' = Inr d
           \<and> ''room_type'' \<in> set (columns (valid_stays rc))
           \<and> ''phone_number'' \<in> set (columns (valid_stays rc))"
    by (intro exI conjI) (rule db mr pf j)+
  show ?thesis
    by (intro conjI) (rule c w n1 n2 ex)+
qed


theorem fact_stays_columns_only_witness:
  "ToSql ''fact_stays'' Append ex_fact_stays \<in> set (fst (main_fact ex_env))
   \<and> columns ex_fact_stays = [''stay_id'', ''date'', ''reservation_id'', ''room_id'', ''guest_id'']
   \<and> list_all (\<lambda>row. length row = 5) (rows ex_fact_stays)
   \<and> ''room_type'' \<in> set (columns ex_valid_stays)
   \<and> ''room_type'' \<notin> set (columns ex_fact_stays)"
proof -
  have h: "ToSql ''fact_stays'' Append ex_fact_stays \<in> set (fst (main_fact ex_env))"
    by (simp add: main_fact_ex_env)
  note t = fact_stays_columns_only [OF h]
  have v: "''room_type'' \<in> set (columns ex_valid_stays)"
    by (simp add: ex_valid_stays_def)
  show ?thesis
    by (intro conjI)
       (rule h t [THEN conjunct1] t [THEN conjunct2, THEN conjunct1]
             t [THEN conjunct2, THEN conjunct2, THEN conjunct1] v)+
qed

subsection \<open>The join of the reservations with the stays' references\<close>

lemma duplicated_from_cong:
  "set seen = set seen' \<Longrightarrow> duplicated_from seen ks = duplicated_from seen' ks"
proof (induction ks arbitrary: seen seen')
  case Nil
  show ?case by simp
next
  case (Cons k ks)
  have "duplicated_from (k # seen) ks = duplicated_from (k # seen') ks"
    by (rule Cons.IH) (simp add: Cons.prems)
  then show ?case
    by (simp add: Cons.prems)
qed

lemma kept_replicate:
  assumes "key p \<in> set seen"
  shows "map fst (filter snd (zip (replicate n p @ ys)
            (map Not (duplicated_from seen (map key (replicate n p @ ys)))))) =
         map fst (filter snd (zip ys (map Not (duplicated_from seen (map key ys)))))"
proof (induction n)
  case 0
  show ?case by simp
next
  case (Suc n)
  have "duplicated_from (key p # seen) (map key (replicate n p @ ys)) =
        duplicated_from seen (map key (replicate n p @ ys))"
    by (rule duplicated_from_cong) (use assms in auto)
  then show ?case
    using assms Suc.IH by simp
qed

lemma kept_concat:
  "map fst (filter snd (zip (concat (map (\<lambda>r. replicate (Suc (n r)) (f r)) rs))
      (map Not (duplicated_from seen
         (map key (concat (map (\<lambda>r. replicate (Suc (n r)) (f r)) rs))))))) =
   map fst (filter snd (zip (map f rs) (map Not (duplicated_from seen (map key (map f rs))))))"
proof (induction rs arbitrary: seen)
  case Nil
  show ?case by simp
next
  case (Cons r rs)
  let ?C = "concat (map (\<lambda>r. replicate (Suc (n r)) (f r)) rs)"
  have c: "concat (map (\<lambda>r. replicate (Suc (n r)) (f r)) (r # rs)) =
           f r # (replicate (n r) (f r) @ ?C)"
    by simp
  have "map fst (filter snd (zip (replicate (n r) (f r) @ ?C)
            (map Not (duplicated_from (key (f r) # seen)
               (map key (replicate (n r) (f r) @ ?C)))))) =
        map fst (filter snd (zip ?C (map Not (duplicated_from (key (f r) # seen) (map key ?C)))))"
    by (rule kept_replicate) simp
  also have "\<dots> = map fst (filter snd (zip (map f rs)
            (map Not (duplicated_from (key (f r) # seen) (map key (map f rs))))))"
    by (rule Cons.IH)
  finally show ?case
    unfolding c list.map(2) [of f r rs] kept_Cons by (simp only:)
qed

lemma index_of_append:
  "c \<notin> set ys \<Longrightarrow> index_of c (xs @ ys) = index_of c xs"
  using index_of_None [of c ys] by (induction xs) simp_all

lemma positions_append:
  assumes "set cs \<inter> set ys = {}"
  shows "positions (xs @ ys) cs = positions xs cs"
proof -
  have "\<And>c. c \<in> set cs \<Longrightarrow> index_of c (xs @ ys) = index_of c xs"
    using assms by (intro index_of_append) auto
  then have "map (\<lambda>c. case index_of c (xs @ ys) of None \<Rightarrow> Inl (KeyError c) | Some i \<Rightarrow> Inr i) cs =
             map (\<lambda>c. case index_of c xs of None \<Rightarrow> Inl (KeyError c) | Some i \<Rightarrow> Inr i) cs"
    by simp
  then show ?thesis
    by (simp only: positions_def)
qed

lemma positions_bound:
  assumes "positions cols cs = Inr is"
  shows "list_all (\<lambda>k. k < length cols) is"
proof -
  have m: "map (\<lambda>c. index_of c cols) cs = map Some is"
    using assms by (rule positions_Inr)
  have l: "length is = length cs"
    using m by (metis length_map)
  have "\<And>n. n < length is \<Longrightarrow> is ! n < length cols"
  proof -
    fix n assume n: "n < length is"
    have "map (\<lambda>c. index_of c cols) cs ! n = map Some is ! n"
      by (simp only: m)
    then have "index_of (cs ! n) cols = Some (is ! n)"
      using n l by simp
    then show "is ! n < length cols"
      using index_of_Some by blast
  qed
  then show ?thesis
    by (simp add: list_all_length)
qed

lemma project_append:
  "list_all (\<lambda>k. k < length lr) is \<Longrightarrow> project is (lr @ ext) = project is lr"
  by (simp add: project_def list_all_iff nth_append)

lemma join_row_project:
  assumes "list_all (\<lambda>k. k < length lr) is"
  shows "map (project is) (join_row r fill i j lr) =
         replicate (Suc (length (join_row r fill i j lr) - 1)) (project is lr)"
proof -
  have "\<And>x. x \<in> set (join_row r fill i j lr) \<Longrightarrow> project is x = project is lr"
    using assms by (auto dest!: join_row_prefix simp: prefix_def project_append)
  then have "map (project is) (join_row r fill i j lr) =
             replicate (length (join_row r fill i j lr)) (project is lr)"
    by (simp add: map_replicate_const [symmetric])
  moreover have "length (join_row r fill i j lr) = Suc (length (join_row r fill i j lr) - 1)"
    using join_row_nonempty [of r fill i j lr] by (cases "join_row r fill i j lr") simp_all
  ultimately show ?thesis
    by simp
qed

lemma merge_rows_project:
  assumes "rectangular l"
    and "list_all (\<lambda>k. k < length (columns l)) is"
  shows "map (project is) (concat (map (join_row r fill i j) (rows l))) =
         concat (map (\<lambda>lr. replicate (Suc (length (join_row r fill i j lr) - 1)) (project is lr))
                   (rows l))"
proof -
  have "\<And>lr. lr \<in> set (rows l) \<Longrightarrow> map (project is) (join_row r fill i j lr) =
         replicate (Suc (length (join_row r fill i j lr) - 1)) (project is lr)"
    using assms by (intro join_row_project) (simp add: rectangular_def list_all_iff)
  then show ?thesis
    by (simp add: map_concat cong: map_cong)
qed

lemma merge_then_prepare:
  assumes "rectangular l"
    and "merge_left l rt lk rk [] rs = Inr m"
    and "set cols \<inter> set (map (\<lambda>c. if c \<in> set (columns l) then c @ rs else c) (columns rt)) = {}"
    and "prepare_fact_data m cols id_col new_id_col = Inr d"
  shows "prepare_fact_data l cols id_col new_id_col = Inr d"
proof -
  from merge_left_plain [OF assms(2)] obtain i j fill where
    cm: "columns m = columns l @
           map (\<lambda>c. if c \<in> set (columns l) then c @ rs else c) (columns rt)"
    and rm: "rows m = concat (map (join_row rt fill i j) (rows l))"
    by (elim exE conjE) (rule that; assumption)
  from prepare_fact_data_Inr [OF assms(4)] obtain "is" k where
    p: "positions (columns m) cols = Inr is"
    and k: "index_of id_col cols = Some k"
    and c: "columns d = map (\<lambda>c. if c = id_col then new_id_col else c) cols"
    and r: "rows d = map fst (filter snd (zip (map (project is) (rows m))
            (map Not (duplicated_from [] (map (\<lambda>r. r ! (is ! k)) (rows m))))))"
    by (elim exE conjE) (rule that; assumption)
  have pl: "positions (columns l) cols = Inr is"
    using p positions_append [OF assms(3), of "columns l"] by (simp add: cm)
  have b: "list_all (\<lambda>k. k < length (columns l)) is"
    using pl by (rule positions_bound)
  have kl: "k < length is"
    using index_of_Some [OF k] positions_nth(1) [OF pl, of k] by simp
  have key: "\<And>rows. map (\<lambda>r. r ! (is ! k)) rows = map (\<lambda>r. r ! k) (map (project is) rows)"
    using kl by (simp add: project_def)
  let ?n = "\<lambda>lr. length (join_row rt fill i j lr) - 1"
  have pm: "map (project is) (rows m) =
            concat (map (\<lambda>lr. replicate (Suc (?n lr)) (project is lr)) (rows l))"
    unfolding rm by (rule merge_rows_project [OF assms(1) b])
  have "rows d = map fst (filter snd (zip (map (project is) (rows l))
            (map Not (duplicated_from [] (map (\<lambda>r. r ! k) (map (project is) (rows l)))))))"
    unfolding r key pm by (rule kept_concat)
  then have rl: "rows d = map fst (filter snd (zip (map (project is) (rows l))
            (map Not (duplicated_from [] (map (\<lambda>r. r ! (is ! k)) (rows l))))))"
    by (simp only: key)
  have sel: "select l cols = Inr \<lparr>columns = cols, rows = map (project is) (rows l)\<rparr>"
    by (simp add: select_def pl)
  have dd: "drop_duplicates \<lparr>columns = cols, rows = map (project is) (rows l)\<rparr> id_col =
         Inr \<lparr>columns = cols, rows = rows d\<rparr>"
    unfolding rl key by (simp add: drop_duplicates_def getcol_def k mask_rows_def duplicated_def)
  have "d = rename \<lparr>columns = cols, rows = rows d\<rparr> [(id_col, new_id_col)]"
    using c by (simp add: rename_def)
  then show ?thesis
    by (simp add: prepare_fact_data_def sel dd)
qed

lemma apply_series_length: "apply_series f vs = Inr ws \<Longrightarrow> length ws = length vs"
  unfolding apply_series_def using sequence_err_length [of "map f vs" ws] by simp

lemma setcol_columns: "getcol df c = Inr vs \<Longrightarrow> columns (setcol df c ws) = columns df"
  by (auto simp: getcol_Inr setcol_def)

lemma set_other_rows:
  "length rs = length ws \<Longrightarrow> j \<noteq> i \<Longrightarrow>
   map (\<lambda>r. r ! j) (map (\<lambda>(r, v). r[i := v]) (zip rs ws)) = map (\<lambda>r. r ! j) rs"
  by (induction rs ws rule: list_induct2) simp_all

lemma astype_column:
  assumes "rectangular df"
    and "(if c \<in> set (columns df)
          then bind_err (getcol df c) (\<lambda>vs. bind_err (apply_series f vs) (\<lambda>ws.
               Inr (setcol df c ws)))
          else Inr df) = Inr df1"
  shows "rectangular df1 \<and> columns df1 = columns df
       \<and> (\<forall>c'. c' \<noteq> c \<longrightarrow> getcol df1 c' = getcol df c')"
proof (cases "c \<in> set (columns df)")
  case False
  then show ?thesis using assms by simp
next
  case True
  with assms(2) obtain vs ws where g: "getcol df c = Inr vs"
    and a: "apply_series f vs = Inr ws" and d: "df1 = setcol df c ws"
    by (auto simp: bind_err_eq_Inr)
  from g obtain i where i: "index_of c (columns df) = Some i"
    by (auto simp: getcol_Inr)
  have len: "length ws = length (rows df)"
    using apply_series_length [OF a] getcol_length [OF g] by simp
  have other: "getcol df1 c' = getcol df c'" if "c' \<noteq> c" for c'
  proof (cases "index_of c' (columns df)")
    case None
    then show ?thesis by (simp add: d getcol_def setcol_columns [OF g])
  next
    case (Some j)
    have "j \<noteq> i"
      using index_of_Some [OF Some] index_of_Some [OF i] that by auto
    with len have "map (\<lambda>r. r ! j) (map (\<lambda>(r, v). r[i := v]) (zip (rows df) ws)) =
               map (\<lambda>r. r ! j) (rows df)"
      by (intro set_other_rows) simp_all
    then show ?thesis
      by (simp add: d getcol_def Some setcol_present [OF i])
  qed
  show ?thesis
    using rectangular_setcol [OF assms(1) g] setcol_columns [OF g] other by (simp add: d)
qed

lemma transform_reservation_data_keeps:
  assumes "rectangular r" and "transform_reservation_data e r = Inr r1"
  shows "rectangular r1" and "columns r1 = columns r" and "getcol r1 ''id'' = getcol r ''id''"
proof -
  from assms(2) obtain r0 where
    s1: "(if ''total_room_price'' \<in> set (columns r)
          then bind_err (getcol r ''total_room_price'') (\<lambda>vs.
               bind_err (apply_series (astype_float e) vs) (\<lambda>ws.
               Inr (setcol r ''total_room_price'' ws)))
          else Inr r) = Inr r0"
    and s2: "(if ''total_discount'' \<in> set (columns r0)
          then bind_err (getcol r0 ''total_discount'') (\<lambda>vs.
               bind_err (apply_series (astype_float e) vs) (\<lambda>ws.
               Inr (setcol r0 ''total_discount'' ws)))
          else Inr r0) = Inr r1"
    unfolding transform_reservation_data_def bind_err_eq_Inr by blast
  note a = astype_column [OF assms(1) s1]
  note b = astype_column [OF a [THEN conjunct1] s2]
  show "rectangular r1"
    using b by simp
  show "columns r1 = columns r"
    using a b by simp
  have "getcol r1 ''id'' = getcol r0 ''id''"
    using b by simp
  also have "\<dots> = getcol r ''id''"
    using a by simp
  finally show "getcol r1 ''id'' = getcol r ''id''" .
qed

text \<open>
  C9. Whenever the fact job writes a batch to \<^verbatim>\<open>fact_reservations\<close>, that batch is
  what the numeric transform followed by \<^verbatim>\<open>prepare_fact_data\<close> (projection on the fact
  columns, first-seen deduplication by \<^verbatim>\<open>id\<close>, rename of \<^verbatim>\<open>id\<close> to
  \<^verbatim>\<open>reservation_id\<close>) gives on the extracted Reservation batch itself: the left join
  with the stays' \<^verbatim>\<open>reservation_id\<close> column changes neither the rows nor their order.
\<close>

theorem fact_reservations_ignores_stays_join:
  assumes "read_sql e ''Reservations'' = Some r"
    and "rectangular r"
    and "ToSql ''fact_reservations'' mode d \<in> set (fst (main_fact e))"
  shows "spec_fact_reservations e r = Inr d"
proof -
  from main_fact_loads_reservations [OF assms(3)] obtain r' s ro u rc where
    "read_sql e ''Reservations'' = Some r'"
    and mr': "merge_and_reconcile e r' s ro u = Inr rc"
    and pf: "prepare_fact_data (reservations_df rc) fact_reservations_columns
              ''id'' ''reservation_id'' = Inr d"
    by (elim exE conjE) (rule that; assumption)
  then have mr: "merge_and_reconcile e r s ro u = Inr rc"
    using assms(1) by simp
  from merge_and_reconcile_Inr [OF mr] obtain res1 refs where
    t: "transform_reservation_data e r = Inr res1"
    and sr: "select (stays_df rc) [''reservation_id''] = Inr refs"
    and mg: "merge_left res1 refs ''id'' ''reservation_id'' [] ''_stays'' = Inr (reservations_df rc)"
    by (elim exE conjE) (rule that; assumption)
  have rect: "rectangular res1"
    using assms(2) t by (rule transform_reservation_data_keeps)
  have cr: "columns refs = [''reservation_id'']"
    using sr by (rule select_columns)
  have disj: "set fact_reservations_columns \<inter>
        set (map (\<lambda>c. if c \<in> set (columns res1) then c @ ''_stays'' else c) (columns refs)) = {}"
    by (simp add: cr fact_reservations_columns_def)
  have "prepare_fact_data res1 fact_reservations_columns ''id'' ''reservation_id'' = Inr d"
    using rect mg disj pf by (rule merge_then_prepare)
  then show ?thesis
    by (simp add: spec_fact_reservations_def t)
qed

theorem fact_reservations_ignores_stays_join_witness:
  "read_sql ex_env ''Reservations'' = Some ex_reservations
   \<and> rectangular ex_reservations
   \<and> ToSql ''fact_reservations'' Append ex_fact_reservations \<in> set (fst (main_fact ex_env))
   \<and> spec_fact_reservations ex_env ex_reservations = Inr ex_fact_reservations
   \<and> rows ex_reservations_df \<noteq> rows ex_reservations"
proof -
  have h1: "read_sql ex_env ''Reservations'' = Some ex_reservations"
    by (rule ex_read_sql)
  have h2: "rectangular ex_reservations"
    by (simp add: rectangular_def ex_reservations_def)
  have h3: "ToSql ''fact_reservations'' Append ex_fact_reservations
              \<in> set (fst (main_fact ex_env))"
    by (simp add: main_fact_ex_env)
  have n: "rows ex_reservations_df \<noteq> rows ex_reservations"
    by (simp add: ex_reservations_df_def ex_reservations_def)
  show ?thesis
    by (intro conjI) (rule h1 h2 h3 n fact_reservations_ignores_stays_join [OF h1 h2 h3])+
qed

subsection \<open>Valid and invalid stays\<close>

lemma index_of_append_Some:
  "index_of c xs = Some i \<Longrightarrow> index_of c (xs @ ys) = Some i"
  by (induction xs arbitrary: i) (auto split: if_splits)

lemma index_of_renamed:
  "index_of k xs = Some p \<Longrightarrow> v \<notin> set xs \<Longrightarrow>
   index_of v (map (\<lambda>c. case map_of [(k, v)] c of None \<Rightarrow> c | Some c' \<Rightarrow> c') xs) = Some p"
  by (induction xs arbitrary: p) (auto split: if_splits)

lemma mask_filter: "map fst (filter snd (zip xs (map P xs))) = filter P xs"
  by (induction xs) simp_all

lemma mask_filter_not: "map fst (filter snd (zip xs (map Not (map P xs)))) = filter (\<lambda>x. \<not> P x) xs"
  by (induction xs) simp_all

lemma prefix_nth: "prefix sr x \<Longrightarrow> p < length sr \<Longrightarrow> x ! p = sr ! p"
  by (auto simp: prefix_def nth_append)

lemma merge_rows_key_set:
  assumes "rectangular l" and "i < length (columns l)"
    and "rows m = concat (map (join_row r fill i' j) (rows l))"
  shows "set (map (\<lambda>x. x ! i) (rows m)) = set (map (\<lambda>x. x ! i) (rows l))"
proof -
  have len: "\<And>lr. lr \<in> set (rows l) \<Longrightarrow> i < length lr"
    using assms(1,2) by (simp add: rectangular_def list_all_iff)
  have "\<And>x. x \<in> set (rows m) \<Longrightarrow> x ! i \<in> (\<lambda>x. x ! i) ` set (rows l)"
  proof -
    fix x assume "x \<in> set (rows m)"
    then obtain lr where lr: "lr \<in> set (rows l)" and px: "prefix lr x"
      using merge_rows_prefix(1) [OF assms(3)] by blast
    have "x ! i = lr ! i"
      using px len [OF lr] by (rule prefix_nth)
    then show "x ! i \<in> (\<lambda>x. x ! i) ` set (rows l)"
      using lr by simp
  qed
  moreover have "\<And>lr. lr \<in> set (rows l) \<Longrightarrow> lr ! i \<in> (\<lambda>x. x ! i) ` set (rows m)"
  proof -
    fix lr assume lr: "lr \<in> set (rows l)"
    then obtain x where x: "x \<in> set (rows m)" and px: "prefix lr x"
      using merge_rows_prefix(2) [OF assms(3)] by blast
    have "x ! i = lr ! i"
      using px len [OF lr] by (rule prefix_nth)
    then show "lr ! i \<in> (\<lambda>x. x ! i) ` set (rows m)"
      using x by (metis image_eqI)
  qed
  ultimately show ?thesis
    by auto
qed

lemma reconciled_ids:
  assumes "rectangular r" and "merge_and_reconcile e r s ro u = Inr rc"
  shows "\<exists>ids ids2. getcol r ''id'' = Inr ids \<and> getcol (reservations_df rc) ''id'' = Inr ids2
           \<and> set ids2 = set ids"
proof -
  from merge_and_reconcile_Inr [OF assms(2)] obtain res1 refs ids2 where
    t: "transform_reservation_data e r = Inr res1"
    and mg: "merge_left res1 refs ''id'' ''reservation_id'' [] ''_stays'' = Inr (reservations_df rc)"
    and g2: "getcol (reservations_df rc) ''id'' = Inr ids2"
    by (elim exE conjE) (rule that; assumption)
  note k = transform_reservation_data_keeps [OF assms(1) t]
  from merge_left_plain [OF mg] obtain i j fill where
    i: "index_of ''id'' (columns res1) = Some i"
    and cm: "columns (reservations_df rc) = columns res1 @
           map (\<lambda>c. if c \<in> set (columns res1) then c @ ''_stays'' else c) (columns refs)"
    and rm: "rows (reservations_df rc) = concat (map (join_row refs fill i j) (rows res1))"
    by (elim exE conjE) (rule that; assumption)
  have i2: "index_of ''id'' (columns (reservations_df rc)) = Some i"
    unfolding cm using i by (rule index_of_append_Some)
  have g1: "getcol res1 ''id'' = Inr (map (\<lambda>x. x ! i) (rows res1))"
    by (simp add: getcol_def i)
  have ids2: "ids2 = map (\<lambda>x. x ! i) (rows (reservations_df rc))"
    using g2 by (simp add: getcol_def i2)
  have "set ids2 = set (map (\<lambda>x. x ! i) (rows res1))"
    unfolding ids2 using k(1) _ rm
    by (rule merge_rows_key_set) (use index_of_Some [OF i] in simp)
  then show ?thesis
    using g1 g2 k(3) by simp
qed

lemma reconciled_stays:
  assumes "rectangular s"
    and "index_of ''reference_reservation_id'' (columns s) = Some p"
    and "''reservation_id'' \<notin> set (columns s)"
    and "merge_and_reconcile e r s ro u = Inr rc"
  shows "index_of ''reservation_id'' (columns (stays_df rc)) = Some p"
    and "\<And>x. x \<in> set (rows (stays_df rc)) \<Longrightarrow> \<exists>sr \<in> set (rows s). prefix sr x"
    and "\<And>sr. sr \<in> set (rows s) \<Longrightarrow> \<exists>x \<in> set (rows (stays_df rc)). prefix sr x"
proof -
  from merge_and_reconcile_Inr [OF assms(4)] obtain rooms2 stays1 users2 stays2 where
    m1: "merge_left s rooms2 ''room_id'' ''id'' [] ''_room'' = Inr stays1"
    and m2: "merge_left stays1 users2 ''guest_id'' ''id'' [] ''_guest'' = Inr stays2"
    and s3: "stays_df rc = rename stays2 [(''reference_reservation_id'', ''reservation_id'')]"
    by (elim exE conjE) (rule that; assumption)
  from merge_left_plain [OF m1] obtain i1 j1 f1 where
    c1: "columns stays1 = columns s @
           map (\<lambda>c. if c \<in> set (columns s) then c @ ''_room'' else c) (columns rooms2)"
    and r1: "rows stays1 = concat (map (join_row rooms2 f1 i1 j1) (rows s))"
    by (elim exE conjE) (rule that; assumption)
  from merge_left_plain [OF m2] obtain i2 j2 f2 where
    c2: "columns stays2 = columns stays1 @
           map (\<lambda>c. if c \<in> set (columns stays1) then c @ ''_guest'' else c) (columns users2)"
    and r2: "rows stays2 = concat (map (join_row users2 f2 i2 j2) (rows stays1))"
    by (elim exE conjE) (rule that; assumption)
  have rs: "rows (stays_df rc) = rows stays2"
    by (simp add: s3)
  let ?ren = "\<lambda>c. case map_of [(''reference_reservation_id'', ''reservation_id'')] c of
                     None \<Rightarrow> c | Some c' \<Rightarrow> c'"
  have "index_of ''reservation_id'' (map ?ren (columns s)) = Some p"
    using assms(2,3) by (rule index_of_renamed)
  then have "index_of ''reservation_id'' (map ?ren (columns s) @ map ?ren
      (map (\<lambda>c. if c \<in> set (columns s) then c @ ''_room'' else c) (columns rooms2) @
       map (\<lambda>c. if c \<in> set (columns stays1) then c @ ''_guest'' else c) (columns users2))) =
      Some p"
    by (rule index_of_append_Some)
  then show "index_of ''reservation_id'' (columns (stays_df rc)) = Some p"
    by (simp add: s3 columns_rename c2 c1)
  show "\<exists>sr \<in> set (rows s). prefix sr x" if "x \<in> set (rows (stays_df rc))" for x
  proof -
    from that obtain y where y: "y \<in> set (rows stays1)" and yx: "prefix y x"
      unfolding rs using merge_rows_prefix(1) [OF r2] by blast
    from y obtain sr where sr: "sr \<in> set (rows s)" and sy: "prefix sr y"
      using merge_rows_prefix(1) [OF r1] by blast
    from sy yx have "prefix sr x"
      by (rule prefix_order.trans)
    with sr show ?thesis by blast
  qed
  show "\<exists>x \<in> set (rows (stays_df rc)). prefix sr x" if "sr \<in> set (rows s)" for sr
  proof -
    from that obtain y where y: "y \<in> set (rows stays1)" and sy: "prefix sr y"
      using merge_rows_prefix(2) [OF r1] by blast
    from y obtain x where x: "x \<in> set (rows stays2)" and yx: "prefix y x"
      using merge_rows_prefix(2) [OF r2] by blast
    from sy yx have "prefix sr x"
      by (rule prefix_order.trans)
    with x show ?thesis unfolding rs by blast
  qed
qed

lemma reconciled_split:
  assumes "index_of ''reservation_id'' (columns (stays_df rc)) = Some p"
    and "merge_and_reconcile e r s ro u = Inr rc"
    and "getcol (reservations_df rc) ''id'' = Inr ids2"
  shows "columns (valid_stays rc) = columns (stays_df rc)"
    and "columns (invalid_stays rc) = columns (stays_df rc)"
    and "rows (valid_stays rc) = filter (\<lambda>x. as_key (x ! p) \<in> as_key ` set ids2) (rows (stays_df rc))"
    and "rows (invalid_stays rc) = filter (\<lambda>x. as_key (x ! p) \<notin> as_key ` set ids2) (rows (stays_df rc))"
proof -
  from merge_and_reconcile_Inr [OF assms(2)] obtain ks ids' where
    gk: "getcol (stays_df rc) ''reservation_id'' = Inr ks"
    and gi: "getcol (reservations_df rc) ''id'' = Inr ids'"
    and v: "valid_stays rc = mask_rows (stays_df rc) (isin ks ids')"
    and iv: "invalid_stays rc = mask_rows (stays_df rc) (map Not (isin ks ids'))"
    by (elim exE conjE) (rule that; assumption)
  have i: "ids' = ids2"
    using gi assms(3) by simp
  have ks: "ks = map (\<lambda>x. x ! p) (rows (stays_df rc))"
    using gk by (simp add: getcol_def assms(1))
  have m: "isin ks ids2 = map (\<lambda>x. as_key (x ! p) \<in> as_key ` set ids2) (rows (stays_df rc))"
    by (simp add: isin_def ks)
  show "columns (valid_stays rc) = columns (stays_df rc)"
    by (simp add: v)
  show "columns (invalid_stays rc) = columns (stays_df rc)"
    by (simp add: iv)
  show "rows (valid_stays rc) = filter (\<lambda>x. as_key (x ! p) \<in> as_key ` set ids2) (rows (stays_df rc))"
    unfolding v i mask_rows_rows m by (rule mask_filter)
  show "rows (invalid_stays rc) = filter (\<lambda>x. as_key (x ! p) \<notin> as_key ` set ids2) (rows (stays_df rc))"
    unfolding iv i mask_rows_rows m by (rule mask_filter_not)
qed

lemma main_fact_reports:
  assumes "read_sql e ''Reservations'' = Some r" and "read_sql e ''Stays'' = Some s"
    and "read_sql e ''Rooms'' = Some ro" and "read_sql e ''Users'' = Some u"
    and "merge_and_reconcile e r s ro u = Inr rc"
    and "rows (invalid_stays rc) \<noteq> []"
  shows "PrintFrame (invalid_stays rc) \<in> set (fst (main_fact e))"
proof -
  from merge_and_reconcile_Inr [OF assms(5)] obtain ks ids where
    "invalid_stays rc = mask_rows (stays_df rc) (map Not (isin ks ids))"
    by (elim exE conjE) (rule that; assumption)
  then have "columns (invalid_stays rc) = columns (stays_df rc)"
    by simp
  then have "columns (invalid_stays rc) \<noteq> []"
    using stays_df_denormalised(1) [OF assms(5)] by auto
  then have ne: "\<not> empty_df (invalid_stays rc)"
    using assms(6) by (simp add: empty_df_def)
  show ?thesis
    by (simp add: main_fact_def extract_data_def assms(1-5) ne Let_def split: sum.splits)
qed

text \<open>
  What the split does when the job gets there. Let the fact job read a rectangular
  Reservation batch and a rectangular Stay batch whose reservation reference is the
  column \<^verbatim>\<open>reference_reservation_id\<close> (at position \<open>p\<close>; the batch has no column
  \<^verbatim>\<open>reservation_id\<close> of its own), and let the transforms and the three joins succeed.
  Then the denormalised stays batch has \<^verbatim>\<open>reservation_id\<close> at position \<open>p\<close>,
  each of its rows is an extracted stay row followed by the joined cells, and every
  extracted stay row occurs in it. The valid stays are exactly its rows whose
  \<^verbatim>\<open>reservation_id\<close> equals an extracted Reservation id as a key (the reference 1.0 of a
  float column equals the id 1) and the invalid stays are
  exactly the others, both in the batch's order: the two sets are disjoint and together
  they are the whole batch. So an extracted stay row appears among the valid stays if
  and only if its reference is an extracted Reservation id, and among the invalid stays
  if and only if it is not. The invalid stays are printed when there are any.
\<close>

lemma stays_partitioned:
  assumes "read_sql e ''Reservations'' = Some r" and "read_sql e ''Stays'' = Some s"
    and "read_sql e ''Rooms'' = Some ro" and "read_sql e ''Users'' = Some u"
    and "rectangular r" and "rectangular s"
    and "index_of ''reference_reservation_id'' (columns s) = Some p"
    and "''reservation_id'' \<notin> set (columns s)"
    and "merge_and_reconcile e r s ro u = Inr rc"
  shows "\<exists>ids. getcol r ''id'' = Inr ids
       \<and> index_of ''reservation_id'' (columns (stays_df rc)) = Some p
       \<and> columns (valid_stays rc) = columns (stays_df rc)
       \<and> columns (invalid_stays rc) = columns (stays_df rc)
       \<and> rows (valid_stays rc) = filter (\<lambda>x. as_key (x ! p) \<in> as_key ` set ids) (rows (stays_df rc))
       \<and> rows (invalid_stays rc) = filter (\<lambda>x. as_key (x ! p) \<notin> as_key ` set ids) (rows (stays_df rc))
       \<and> set (rows (valid_stays rc)) \<inter> set (rows (invalid_stays rc)) = {}
       \<and> set (rows (valid_stays rc)) \<union> set (rows (invalid_stays rc)) = set (rows (stays_df rc))
       \<and> length (rows (valid_stays rc)) + length (rows (invalid_stays rc)) =
           length (rows (stays_df rc))
       \<and> (\<forall>x \<in> set (rows (stays_df rc)). \<exists>sr \<in> set (rows s). prefix sr x \<and> x ! p = sr ! p)
       \<and> (\<forall>sr \<in> set (rows s).
             ((\<exists>x \<in> set (rows (valid_stays rc)). prefix sr x) \<longleftrightarrow> as_key (sr ! p) \<in> as_key ` set ids)
           \<and> ((\<exists>x \<in> set (rows (invalid_stays rc)). prefix sr x) \<longleftrightarrow> as_key (sr ! p) \<notin> as_key ` set ids))
       \<and> (rows (invalid_stays rc) \<noteq> [] \<longrightarrow>
             PrintFrame (invalid_stays rc) \<in> set (fst (main_fact e)))"
proof -
  from reconciled_ids [OF assms(5,9)] obtain ids ids2 where
    g: "getcol r ''id'' = Inr ids"
    and g2: "getcol (reservations_df rc) ''id'' = Inr ids2"
    and eq: "set ids2 = set ids"
    by (elim exE conjE) (rule that; assumption)
  note st = reconciled_stays [OF assms(6,7,8,9)]
  note sp = reconciled_split [OF st(1) assms(9) g2]
  let ?S = "rows (stays_df rc)"
  have v: "rows (valid_stays rc) = filter (\<lambda>x. as_key (x ! p) \<in> as_key ` set ids) ?S"
    using sp(3) by (simp only: eq)
  have iv: "rows (invalid_stays rc) = filter (\<lambda>x. as_key (x ! p) \<notin> as_key ` set ids) ?S"
    using sp(4) by (simp only: eq)
  have pl: "\<And>sr. sr \<in> set (rows s) \<Longrightarrow> p < length sr"
    using assms(6) index_of_Some [OF assms(7)] by (simp add: rectangular_def list_all_iff)
  have nth: "x ! p = sr ! p" if "sr \<in> set (rows s)" and "prefix sr x" for sr x
    using that(2) pl [OF that(1)] by (rule prefix_nth)
  have d1: "set (rows (valid_stays rc)) \<inter> set (rows (invalid_stays rc)) = {}"
    unfolding v iv by auto
  have d2: "set (rows (valid_stays rc)) \<union> set (rows (invalid_stays rc)) = set ?S"
    unfolding v iv by auto
  have d3: "length (rows (valid_stays rc)) + length (rows (invalid_stays rc)) = length ?S"
    unfolding v iv by (rule sum_length_filter_compl)
  have ext: "\<forall>x \<in> set ?S. \<exists>sr \<in> set (rows s). prefix sr x \<and> x ! p = sr ! p"
  proof
    fix x assume "x \<in> set ?S"
    then obtain sr where sr: "sr \<in> set (rows s)" and px: "prefix sr x"
      using st(2) by blast
    show "\<exists>sr \<in> set (rows s). prefix sr x \<and> x ! p = sr ! p"
      using sr px nth [OF sr px] by blast
  qed
  have iff: "\<forall>sr \<in> set (rows s).
             ((\<exists>x \<in> set (rows (valid_stays rc)). prefix sr x) \<longleftrightarrow> as_key (sr ! p) \<in> as_key ` set ids)
           \<and> ((\<exists>x \<in> set (rows (invalid_stays rc)). prefix sr x) \<longleftrightarrow> as_key (sr ! p) \<notin> as_key ` set ids)"
  proof
    fix sr assume sr: "sr \<in> set (rows s)"
    from st(3) [OF sr] obtain y where y: "y \<in> set ?S" and sy: "prefix sr y"
      by blast
    have yp: "y ! p = sr ! p"
      using sr sy by (rule nth)
    have a: "(\<exists>x \<in> set (rows (valid_stays rc)). prefix sr x) \<longleftrightarrow> as_key (sr ! p) \<in> as_key ` set ids"
    proof
      assume "\<exists>x \<in> set (rows (valid_stays rc)). prefix sr x"
      then obtain x where xi: "as_key (x ! p) \<in> as_key ` set ids" and px: "prefix sr x"
        unfolding v by auto
      show "as_key (sr ! p) \<in> as_key ` set ids"
        using xi nth [OF sr px] by simp
    next
      assume "as_key (sr ! p) \<in> as_key ` set ids"
      then have "y \<in> set (rows (valid_stays rc))"
        unfolding v using y yp by simp
      then show "\<exists>x \<in> set (rows (valid_stays rc)). prefix sr x"
        using sy by blast
    qed
    have b: "(\<exists>x \<in> set (rows (invalid_stays rc)). prefix sr x) \<longleftrightarrow> as_key (sr ! p) \<notin> as_key ` set ids"
    proof
      assume "\<exists>x \<in> set (rows (invalid_stays rc)). prefix sr x"
      then obtain x where xi: "as_key (x ! p) \<notin> as_key ` set ids" and px: "prefix sr x"
        unfolding iv by auto
      show "as_key (sr ! p) \<notin> as_key ` set ids"
        using xi nth [OF sr px] by simp
    next
      assume "as_key (sr ! p) \<notin> as_key ` set ids"
      then have "y \<in> set (rows (invalid_stays rc))"
        unfolding iv using y yp by simp
      then show "\<exists>x \<in> set (rows (invalid_stays rc)). prefix sr x"
        using sy by blast
    qed
    from a b show "((\<exists>x \<in> set (rows (valid_stays rc)). prefix sr x) \<longleftrightarrow> as_key (sr ! p) \<in> as_key ` set ids)
           \<and> ((\<exists>x \<in> set (rows (invalid_stays rc)). prefix sr x) \<longleftrightarrow> as_key (sr ! p) \<notin> as_key ` set ids)"
      by (rule conjI)
  qed
  have rep: "rows (invalid_stays rc) \<noteq> [] \<longrightarrow>
             PrintFrame (invalid_stays rc) \<in> set (fst (main_fact e))"
    using main_fact_reports [OF assms(1-4,9)] by (rule impI)
  show ?thesis
    by (rule exI [of _ ids]) (intro conjI, (rule g st(1) sp(1) sp(2) v iv d1 d2 d3 ext iff rep)+)
qed

lemma ex_unreferenced_read_sql:
  "read_sql ex_env_unreferenced ''Reservations'' = Some ex_reservations"
  "read_sql ex_env_unreferenced ''Stays'' = Some ex_stays_unreferenced"
  "read_sql ex_env_unreferenced ''Rooms'' = Some ex_rooms"
  "read_sql ex_env_unreferenced ''Users'' = Some ex_users_known"
  by (simp_all add: ex_env_unreferenced_def ex_env_def)

lemma ex_unreferenced_transform_phone_number:
  "transform_phone_number ex_users_known =
     Inr \<lparr>columns = [''id'', ''phone_number''],
          rows = [[Num 4, Str ''+620812''], [Num 5, Str ''+6281'']]\<rparr>"
  by (simp add: transform_phone_number_def ex_users_known_def getcol_def apply_series_def
      phone_lambda_def startswith_plus_def setcol_def)

lemma ex_unreferenced_transform_reservation_data:
  "transform_reservation_data ex_env_unreferenced ex_reservations = Inr ex_reservations_cast"
  by (simp add: transform_reservation_data_def ex_env_unreferenced_def ex_env_def
      ex_reservations_def getcol_def apply_series_def setcol_def ex_astype_float_def
      ex_reservations_cast_def)

lemma ex_unreferenced_merge_and_reconcile:
  "merge_and_reconcile ex_env_unreferenced ex_reservations ex_stays_unreferenced ex_rooms
     ex_users_known = Inl ValueError"
  unfolding merge_and_reconcile_def ex_transform_room_type
    ex_unreferenced_transform_phone_number ex_unreferenced_transform_reservation_data
    bind_err_Inr
  by (simp add: select_def positions_def project_def merge_eval rename_def
      ex_stays_unreferenced_def ex_reservations_cast_def getcol_def bind_err_def)

text \<open>
  C1. On a Stay batch whose references are all NULL the column
  \<^verbatim>\<open>reference_reservation_id\<close> holds \<^verbatim>\<open>None\<close> only, and the join of the reservations
  with the stays' references (line 128) refuses to merge the integer column \<^verbatim>\<open>id\<close>
  with it: the fact job ends there with a \<^verbatim>\<open>ValueError\<close>, before the split of lines 131
  and 132. Nothing is printed and nothing is loaded: the stay, whose reference is no
  Reservation id, is neither among the valid stays nor among the reported invalid ones.
\<close>

theorem unreferenced_stays_end_fact_job:
  "read_sql ex_env_unreferenced ''Reservations'' = Some ex_reservations
   \<and> read_sql ex_env_unreferenced ''Stays'' = Some ex_stays_unreferenced
   \<and> getcol ex_reservations ''id'' = Inr [Num 1, Num 2, Num 1]
   \<and> getcol ex_stays_unreferenced ''reference_reservation_id'' = Inr [Null]
   \<and> merge_and_reconcile ex_env_unreferenced ex_reservations ex_stays_unreferenced
        ex_rooms ex_users_known = Inl ValueError
   \<and> main_fact ex_env_unreferenced = ([], Some ValueError)"
proof -
  have a: "getcol ex_reservations ''id'' = Inr [Num 1, Num 2, Num 1]"
    by (simp add: getcol_def ex_reservations_def)
  have b: "getcol ex_stays_unreferenced ''reference_reservation_id'' = Inr [Null]"
    by (simp add: getcol_def ex_stays_unreferenced_def)
  have m: "main_fact ex_env_unreferenced = ([], Some ValueError)"
    by (simp add: main_fact_def extract_data_def ex_unreferenced_read_sql
        ex_unreferenced_merge_and_reconcile)
  show ?thesis
    by (intro conjI)
       (rule ex_unreferenced_read_sql(1,2) a b ex_unreferenced_merge_and_reconcile m)+
qed

subsection \<open>The marketing mart\<close>

lemma index_of_map_only:
  "index_of k xs = Some i \<Longrightarrow> h k = k' \<Longrightarrow> (\<And>x. x \<in> set xs \<Longrightarrow> h x = k' \<Longrightarrow> x = k) \<Longrightarrow>
   index_of k' (map h xs) = Some i"
proof (induction xs arbitrary: i)
  case Nil
  then show ?case by simp
next
  case (Cons x xs)
  show ?case
  proof (cases "x = k")
    case True
    then show ?thesis using Cons.prems(1,2) by simp
  next
    case False
    then have "h x \<noteq> k'"
      using Cons.prems(3) [of x] by auto
    moreover from False Cons.prems(1) obtain i' where i': "index_of k xs = Some i'" and "i = Suc i'"
      by auto
    moreover have "index_of k' (map h xs) = Some i'"
      using i' Cons.prems(2) by (rule Cons.IH) (use Cons.prems(3) in auto)
    ultimately show ?thesis by simp
  qed
qed

lemma index_of_map_none:
  "(\<And>x. x \<in> set xs \<Longrightarrow> h x \<noteq> k') \<Longrightarrow> index_of k' (map h xs) = None"
  unfolding index_of_None by auto

lemma index_of_append_right:
  "index_of c xs = None \<Longrightarrow>
   index_of c (xs @ ys) = map_option (\<lambda>k. length xs + k) (index_of c ys)"
proof (induction xs)
  case Nil
  show ?case by (cases "index_of c ys") simp_all
next
  case (Cons x xs)
  then show ?case by (cases "index_of c ys") (auto split: if_splits)
qed

lemma suffixed_last: "x @ s = n \<Longrightarrow> s \<noteq> [] \<Longrightarrow> last n = last s"
  by auto

lemma setcol_map:
  assumes "index_of c (columns df) = Some i"
  shows "setcol df c (map f (map (\<lambda>r. r ! i) (rows df))) =
         df\<lparr>rows := map (\<lambda>r. r[i := f (r ! i)]) (rows df)\<rparr>"
proof -
  have "map (\<lambda>(r, v). r[i := v]) (zip rs (map f (map (\<lambda>r. r ! i) rs))) =
        map (\<lambda>r. r[i := f (r ! i)]) rs" for rs
    by (induction rs) simp_all
  then show ?thesis
    by (simp add: setcol_present [OF assms])
qed

lemma join_row_match:
  assumes "cr \<in> set (rows c)" and "as_key (cr ! j) = as_key (lr ! i)"
  shows "lr @ (if fill then recast c cr else cr) \<in> set (join_row c fill i j lr)"
proof -
  have "cr \<in> set (matches c i j lr)"
    using assms by (simp add: matches_def)
  then show ?thesis
    unfolding join_row_def by (cases "matches c i j lr") auto
qed

lemma join_row_nomatch:
  assumes "\<And>cr. cr \<in> set (rows c) \<Longrightarrow> as_key (cr ! j) \<noteq> as_key (lr ! i)"
  shows "join_row c fill i j lr = [lr @ replicate (length (columns c)) NaN]"
proof -
  have "matches c i j lr = []"
    using assms by (simp add: matches_def filter_empty_conv)
  then show ?thesis
    by (simp add: join_row_def)
qed

lemma recast_nth:
  "k < length rr \<Longrightarrow>
   recast r rr ! k =
     (if dtype_of (map (\<lambda>x. x ! k) (rows r)) = Int64 then as_key (rr ! k) else rr ! k)"
  by (simp add: recast_def)

lemma dtype_of_Int64: "dtype_of vs = Int64 \<Longrightarrow> list_all is_num vs"
  by (simp add: dtype_of_def split: if_splits)

lemma carried_over:
  assumes "cr \<in> set (rows c)" and "k < length cr"
  shows "carried ((if fill then recast c cr else cr) ! k) (cr ! k)"
proof (cases "fill \<and> dtype_of (map (\<lambda>x. x ! k) (rows c)) = Int64")
  case True
  then have "list_all is_num (map (\<lambda>x. x ! k) (rows c))"
    by (simp add: dtype_of_Int64)
  then have "is_num (cr ! k)"
    using assms(1) by (simp add: list_all_iff)
  then show ?thesis
    using True assms(2) by (simp add: carried_def recast_nth)
next
  case False
  then show ?thesis
    using assms(2) by (auto simp: carried_def recast_nth)
qed

lemma carried_missing: "carried a v \<Longrightarrow> is_missing a = is_missing v"
  by (cases v) (auto simp: carried_def is_missing_def is_num_def as_key_def)

lemma carried_text: "carried a v \<Longrightarrow> \<not> is_num v \<Longrightarrow> a = v"
  by (simp add: carried_def)

lemma as_key_astype_str: "as_key (astype_str e v) = astype_str e v"
  by (cases v) (simp_all add: astype_str_def as_key_def)

lemma dtype_of_Object:
  assumes "\<And>v. v \<in> set vs \<Longrightarrow> \<not> is_num v \<and> \<not> is_flt v \<and> \<not> is_bool v"
  shows "dtype_of vs = Object"
proof (cases vs)
  case Nil
  then show ?thesis by (simp add: dtype_of_def)
next
  case (Cons v ws)
  then have "\<not> is_num v \<and> \<not> is_flt v \<and> \<not> is_bool v"
    using assms [of v] by simp
  moreover have "\<not> list_ex is_flt vs"
    using assms by (auto simp: list_ex_iff)
  ultimately show ?thesis
    using Cons by (simp add: dtype_of_def)
qed

lemma dtype_of_astype_str: "dtype_of (map (astype_str e) vs) = Object"
proof (rule dtype_of_Object)
  fix v assume "v \<in> set (map (astype_str e) vs)"
  then obtain w where "v = astype_str e w"
    by auto
  then show "\<not> is_num v \<and> \<not> is_flt v \<and> \<not> is_bool v"
    by (cases w) (simp_all add: astype_str_def is_num_def is_flt_def is_bool_def)
qed

lemma merge_keys_ok_astype_str:
  "merge_keys_ok (map (astype_str e) vs) (map (astype_str e) ws)"
  by (simp add: merge_keys_ok_def dtype_of_astype_str)

lemma updated_column:
  assumes "list_all (\<lambda>x. i < length x) rs"
  shows "map (\<lambda>x. x ! i) (map (\<lambda>x. x[i := f (x ! i)]) rs) = map f (map (\<lambda>x. x ! i) rs)"
  using assms by (induction rs) simp_all

text \<open>The positions of the mart's eight columns in the joined frame.\<close>

lemma plain_left_position:
  assumes "index_of k cr = Some i" and "k \<notin> set cc" and "last k \<noteq> CHR ''x''"
  shows "index_of k (map (\<lambda>x. if x \<in> set cc then x @ ''_x'' else x) cr @ rcols) = Some i"
proof -
  have "index_of k (map (\<lambda>x. if x \<in> set cc then x @ ''_x'' else x) cr) = Some i"
    using assms(1)
  proof (rule index_of_map_only)
    show "(if k \<in> set cc then k @ ''_x'' else k) = k"
      using assms(2) by simp
    show "x = k" if "x \<in> set cr" and "(if x \<in> set cc then x @ ''_x'' else x) = k" for x
    proof (cases "x \<in> set cc")
      case True
      with that(2) have "x @ ''_x'' = k" by simp
      then have "last k = last ''_x''" by (rule suffixed_last) simp
      then show ?thesis using assms(3) by simp
    next
      case False
      with that(2) show ?thesis by simp
    qed
  qed
  then show ?thesis
    by (rule index_of_append_Some)
qed

lemma id_x_position:
  assumes "index_of ''id'' cr = Some i" and "''id'' \<in> set cc" and "''id_x'' \<notin> set cr"
  shows "index_of ''id_x'' (map (\<lambda>x. if x \<in> set cc then x @ ''_x'' else x) cr @ rcols) = Some i"
proof -
  have "index_of ''id_x'' (map (\<lambda>x. if x \<in> set cc then x @ ''_x'' else x) cr) = Some i"
    using assms(1)
  proof (rule index_of_map_only)
    show "(if ''id'' \<in> set cc then ''id'' @ ''_x'' else ''id'') = ''id_x''"
      using assms(2) by simp
    show "x = ''id''" if "x \<in> set cr" and "(if x \<in> set cc then x @ ''_x'' else x) = ''id_x''" for x
    proof (cases "x \<in> set cc")
      case True
      with that(2) have "x @ ''_x'' = ''id'' @ ''_x''" by simp
      then show ?thesis by (simp only: append_same_eq)
    next
      case False
      with that show ?thesis using assms(3) by auto
    qed
  qed
  then show ?thesis
    by (rule index_of_append_Some)
qed

lemma right_position:
  assumes "index_of k cc = Some j" and "k \<notin> set cr"
    and "last k \<noteq> CHR ''x''" and "last k \<noteq> CHR ''y''"
  shows "index_of k (map (\<lambda>x. if x \<in> set cc then x @ ''_x'' else x) cr @
                     map (\<lambda>y. if y \<in> set cr then y @ ''_y'' else y) cc) = Some (length cr + j)"
proof -
  have l: "index_of k (map (\<lambda>x. if x \<in> set cc then x @ ''_x'' else x) cr) = None"
  proof (rule index_of_map_none)
    show "(if x \<in> set cc then x @ ''_x'' else x) \<noteq> k" if "x \<in> set cr" for x
    proof (cases "x \<in> set cc")
      case True
      have "x @ ''_x'' \<noteq> k"
      proof
        assume "x @ ''_x'' = k"
        then have "last k = last ''_x''" by (rule suffixed_last) simp
        then show False using assms(3) by simp
      qed
      with True show ?thesis by simp
    next
      case False
      with that assms(2) show ?thesis by auto
    qed
  qed
  have r: "index_of k (map (\<lambda>y. if y \<in> set cr then y @ ''_y'' else y) cc) = Some j"
    using assms(1)
  proof (rule index_of_map_only)
    show "(if k \<in> set cr then k @ ''_y'' else k) = k"
      using assms(2) by simp
    show "y = k" if "y \<in> set cc" and "(if y \<in> set cr then y @ ''_y'' else y) = k" for y
    proof (cases "y \<in> set cr")
      case True
      with that(2) have "y @ ''_y'' = k" by simp
      then have "last k = last ''_y''" by (rule suffixed_last) simp
      then show ?thesis using assms(4) by simp
    next
      case False
      with that(2) show ?thesis by simp
    qed
  qed
  show ?thesis
    using index_of_append_right [OF l] r by simp
qed

lemma marketing_mart_frame_eq:
  assumes rect: "rectangular r" "rectangular c"
    and r: "index_of ''id'' (columns r) = Some i0"
      "index_of ''reservation_datetime'' (columns r) = Some i1"
      "index_of ''check_in_date'' (columns r) = Some i2"
      "index_of ''check_out_date'' (columns r) = Some i3"
      "index_of ''total_room_price'' (columns r) = Some i4"
      "index_of ''total_discount'' (columns r) = Some i5"
      "index_of ''voucher_code'' (columns r) = Some iv"
    and c: "index_of ''id'' (columns c) = Some j0"
      "index_of ''name'' (columns c) = Some j1"
      "index_of ''description'' (columns c) = Some j2"
    and nr: "''name'' \<notin> set (columns r)" "''description'' \<notin> set (columns r)"
      "''id_x'' \<notin> set (columns r)"
    and nc: "''reservation_datetime'' \<notin> set (columns c)" "''check_in_date'' \<notin> set (columns c)"
      "''check_out_date'' \<notin> set (columns c)" "''total_room_price'' \<notin> set (columns c)"
      "''total_discount'' \<notin> set (columns c)"
  shows "\<exists>fill. marketing_mart_frame e r c =
     Inr \<lparr>columns = [''reservation_id'', ''reservation_datetime'', ''check_in_date'',
                     ''check_out_date'', ''total_room_price'', ''total_discount'',
                     ''campaign_name'', ''campaign_description''],
          rows = map (project [i0, i1, i2, i3, i4, i5,
                               length (columns r) + j1, length (columns r) + j2])
                   (concat (map (join_row
                       (c\<lparr>rows := map (\<lambda>x. x[j0 := astype_str e (x ! j0)]) (rows c)\<rparr>)
                       fill iv j0)
                     (map (\<lambda>x. x[iv := astype_str e (x ! iv)]) (rows r))))\<rparr>"
proof -
  let ?r1 = "r\<lparr>rows := map (\<lambda>x. x[iv := astype_str e (x ! iv)]) (rows r)\<rparr>"
  let ?c1 = "c\<lparr>rows := map (\<lambda>x. x[j0 := astype_str e (x ! j0)]) (rows c)\<rparr>"
  let ?cols = "map (\<lambda>x. if x \<in> set (columns c) then x @ ''_x'' else x) (columns r) @
               map (\<lambda>y. if y \<in> set (columns r) then y @ ''_y'' else y) (columns c)"
  have g1: "getcol r ''voucher_code'' = Inr (map (\<lambda>x. x ! iv) (rows r))"
    by (simp add: getcol_def r(7))
  have s1: "setcol r ''voucher_code'' (map (astype_str e) (map (\<lambda>x. x ! iv) (rows r))) = ?r1"
    by (rule setcol_map [OF r(7)])
  have g2: "getcol c ''id'' = Inr (map (\<lambda>x. x ! j0) (rows c))"
    by (simp add: getcol_def c(1))
  have s2: "setcol c ''id'' (map (astype_str e) (map (\<lambda>x. x ! j0) (rows c))) = ?c1"
    by (rule setcol_map [OF c(1)])
  define fill where "fill = list_ex (\<lambda>lr. matches ?c1 iv j0 lr = []) (rows ?r1)"
  have lr: "list_all (\<lambda>x. iv < length x) (rows r)"
    using rect(1) index_of_Some [OF r(7)] by (simp add: rectangular_def list_all_iff)
  have lc: "list_all (\<lambda>x. j0 < length x) (rows c)"
    using rect(2) index_of_Some [OF c(1)] by (simp add: rectangular_def list_all_iff)
  have k1: "map (\<lambda>x. x ! iv) (rows ?r1) = map (astype_str e) (map (\<lambda>x. x ! iv) (rows r))"
    using updated_column [OF lr] by simp
  have k2: "map (\<lambda>x. x ! j0) (rows ?c1) = map (astype_str e) (map (\<lambda>x. x ! j0) (rows c))"
    using updated_column [OF lc] by simp
  have ok: "merge_keys_ok (map (\<lambda>x. x ! iv) (rows ?r1)) (map (\<lambda>x. x ! j0) (rows ?c1))"
    unfolding k1 k2 by (rule merge_keys_ok_astype_str)
  have m: "merge_left ?r1 ?c1 ''voucher_code'' ''id'' ''_x'' ''_y'' =
           Inr \<lparr>columns = ?cols, rows = concat (map (join_row ?c1 fill iv j0) (rows ?r1))\<rparr>"
    using ok by (simp add: merge_left_def r(7) c(1) fill_def)
  have idc: "''id'' \<in> set (columns c)"
    using index_of_None [of "''id''" "columns c"] c(1) by auto
  have p0: "index_of ''id_x'' ?cols = Some i0"
    using r(1) idc nr(3) by (rule id_x_position)
  have p1: "index_of ''reservation_datetime'' ?cols = Some i1"
    using r(2) nc(1) by (rule plain_left_position) simp
  have p2: "index_of ''check_in_date'' ?cols = Some i2"
    using r(3) nc(2) by (rule plain_left_position) simp
  have p3: "index_of ''check_out_date'' ?cols = Some i3"
    using r(4) nc(3) by (rule plain_left_position) simp
  have p4: "index_of ''total_room_price'' ?cols = Some i4"
    using r(5) nc(4) by (rule plain_left_position) simp
  have p5: "index_of ''total_discount'' ?cols = Some i5"
    using r(6) nc(5) by (rule plain_left_position) simp
  have p6: "index_of ''name'' ?cols = Some (length (columns r) + j1)"
    using c(2) nr(1) by (rule right_position) simp_all
  have p7: "index_of ''description'' ?cols = Some (length (columns r) + j2)"
    using c(3) nr(2) by (rule right_position) simp_all
  have pos: "positions ?cols [''id_x'', ''reservation_datetime'', ''check_in_date'',
                 ''check_out_date'', ''total_room_price'', ''total_discount'',
                 ''name'', ''description''] =
             Inr [i0, i1, i2, i3, i4, i5, length (columns r) + j1, length (columns r) + j2]"
    unfolding positions_def list.map p0 p1 p2 p3 p4 p5 p6 p7 by simp
  have sel: "select \<lparr>columns = ?cols, rows = concat (map (join_row ?c1 fill iv j0) (rows ?r1))\<rparr>
               [''id_x'', ''reservation_datetime'', ''check_in_date'',
                 ''check_out_date'', ''total_room_price'', ''total_discount'',
                 ''name'', ''description''] =
             Inr \<lparr>columns = [''id_x'', ''reservation_datetime'', ''check_in_date'',
                 ''check_out_date'', ''total_room_price'', ''total_discount'',
                 ''name'', ''description''],
                  rows = map (project [i0, i1, i2, i3, i4, i5,
                               length (columns r) + j1, length (columns r) + j2])
                           (concat (map (join_row ?c1 fill iv j0) (rows ?r1)))\<rparr>"
    unfolding select_def by (simp add: pos)
  have "marketing_mart_frame e r c =
     Inr \<lparr>columns = [''reservation_id'', ''reservation_datetime'', ''check_in_date'',
                     ''check_out_date'', ''total_room_price'', ''total_discount'',
                     ''campaign_name'', ''campaign_description''],
          rows = map (project [i0, i1, i2, i3, i4, i5,
                               length (columns r) + j1, length (columns r) + j2])
                   (concat (map (join_row ?c1 fill iv j0) (rows ?r1)))\<rparr>"
    unfolding marketing_mart_frame_def g1 bind_err_Inr Let_def s1 g2 s2 m sel
    by (simp add: set_columns_def)
  then show ?thesis
    by auto
qed

lemma mart_project:
  assumes "length lr = n" and "list_all (\<lambda>i. i < n) [i0, i1, i2, i3, i4, i5]"
  shows "project [i0, i1, i2, i3, i4, i5, n + j1, n + j2] (lr @ ext) =
         [lr ! i0, lr ! i1, lr ! i2, lr ! i3, lr ! i4, lr ! i5, ext ! j1, ext ! j2]"
  using assms by (simp add: project_def nth_append)

lemma in_joined_rows:
  assumes "lr \<in> set ls" and "x \<in> set (join_row c fill i j lr)"
  shows "project is x \<in> set (map (project is) (concat (map (join_row c fill i j) ls)))"
proof -
  have "x \<in> set (concat (map (join_row c fill i j) ls))"
    using assms by auto
  then show ?thesis
    by simp
qed

lemma mart_rows_matched:
  assumes "row \<in> set rs" and "camp \<in> set cs"
    and "length row = n" and "iv < n"
    and "list_all (\<lambda>i. i < n \<and> i \<noteq> iv) [i0, i1, i2, i3, i4, i5]"
    and "j0 < length camp" and "j1 \<noteq> j0" and "j2 \<noteq> j0"
    and "j1 < length camp" and "j2 < length camp"
    and "astype_str e (row ! iv) = astype_str e (camp ! j0)"
  shows "\<exists>a b. [row ! i0, row ! i1, row ! i2, row ! i3, row ! i4, row ! i5, a, b]
         \<in> set (map (project [i0, i1, i2, i3, i4, i5, n + j1, n + j2])
                 (concat (map (join_row
                     (c\<lparr>rows := map (\<lambda>x. x[j0 := astype_str e (x ! j0)]) cs\<rparr>) fill iv j0)
                   (map (\<lambda>x. x[iv := astype_str e (x ! iv)]) rs))))
       \<and> carried a (camp ! j1) \<and> carried b (camp ! j2)"
proof -
  let ?c1 = "c\<lparr>rows := map (\<lambda>x. x[j0 := astype_str e (x ! j0)]) cs\<rparr>"
  let ?lr = "row[iv := astype_str e (row ! iv)]"
  let ?cr = "camp[j0 := astype_str e (camp ! j0)]"
  let ?ext = "if fill then recast ?c1 ?cr else ?cr"
  have "?lr \<in> (\<lambda>x. x[iv := astype_str e (x ! iv)]) ` set rs"
    using assms(1) by (rule imageI)
  then have l: "?lr \<in> set (map (\<lambda>x. x[iv := astype_str e (x ! iv)]) rs)"
    by simp
  have "?cr \<in> (\<lambda>x. x[j0 := astype_str e (x ! j0)]) ` set cs"
    using assms(2) by (rule imageI)
  then have cr: "?cr \<in> set (rows ?c1)"
    by simp
  have "?cr ! j0 = ?lr ! iv"
    using assms(3,4,6,11) by simp
  then have "as_key (?cr ! j0) = as_key (?lr ! iv)"
    by simp
  with cr have x: "?lr @ ?ext \<in> set (join_row ?c1 fill iv j0 ?lr)"
    by (rule join_row_match)
  have "project [i0, i1, i2, i3, i4, i5, n + j1, n + j2] (?lr @ ?ext) =
        [?lr ! i0, ?lr ! i1, ?lr ! i2, ?lr ! i3, ?lr ! i4, ?lr ! i5, ?ext ! j1, ?ext ! j2]"
    using assms(3,5) by (intro mart_project) simp_all
  also have "\<dots> = [row ! i0, row ! i1, row ! i2, row ! i3, row ! i4, row ! i5,
                   ?ext ! j1, ?ext ! j2]"
    using assms(5) by simp
  finally have p: "project [i0, i1, i2, i3, i4, i5, n + j1, n + j2] (?lr @ ?ext) =
        [row ! i0, row ! i1, row ! i2, row ! i3, row ! i4, row ! i5, ?ext ! j1, ?ext ! j2]" .
  have m: "[row ! i0, row ! i1, row ! i2, row ! i3, row ! i4, row ! i5, ?ext ! j1, ?ext ! j2]
         \<in> set (map (project [i0, i1, i2, i3, i4, i5, n + j1, n + j2])
                 (concat (map (join_row ?c1 fill iv j0)
                   (map (\<lambda>x. x[iv := astype_str e (x ! iv)]) rs))))"
    using in_joined_rows [OF l x, of "[i0, i1, i2, i3, i4, i5, n + j1, n + j2]"]
    unfolding p .
  have "carried (?ext ! j1) (?cr ! j1)"
    using cr by (rule carried_over) (use assms(9) in simp)
  then have a: "carried (?ext ! j1) (camp ! j1)"
    using assms(7) by simp
  have "carried (?ext ! j2) (?cr ! j2)"
    using cr by (rule carried_over) (use assms(10) in simp)
  then have b: "carried (?ext ! j2) (camp ! j2)"
    using assms(8) by simp
  from m a b show ?thesis
    by blast
qed

lemma mart_rows_unmatched:
  assumes "row \<in> set rs"
    and "length row = n" and "iv < n"
    and "list_all (\<lambda>i. i < n \<and> i \<noteq> iv) [i0, i1, i2, i3, i4, i5]"
    and "list_all (\<lambda>camp. j0 < length camp) cs"
    and "j1 < length (columns c)" and "j2 < length (columns c)"
    and "\<And>camp. camp \<in> set cs \<Longrightarrow> astype_str e (row ! iv) \<noteq> astype_str e (camp ! j0)"
  shows "[row ! i0, row ! i1, row ! i2, row ! i3, row ! i4, row ! i5, NaN, NaN]
         \<in> set (map (project [i0, i1, i2, i3, i4, i5, n + j1, n + j2])
                 (concat (map (join_row
                     (c\<lparr>rows := map (\<lambda>x. x[j0 := astype_str e (x ! j0)]) cs\<rparr>) fill iv j0)
                   (map (\<lambda>x. x[iv := astype_str e (x ! iv)]) rs))))"
proof -
  let ?c1 = "c\<lparr>rows := map (\<lambda>x. x[j0 := astype_str e (x ! j0)]) cs\<rparr>"
  let ?lr = "row[iv := astype_str e (row ! iv)]"
  let ?ext = "replicate (length (columns c)) NaN"
  have "?lr \<in> (\<lambda>x. x[iv := astype_str e (x ! iv)]) ` set rs"
    using assms(1) by (rule imageI)
  then have l: "?lr \<in> set (map (\<lambda>x. x[iv := astype_str e (x ! iv)]) rs)"
    by simp
  have "as_key (cr ! j0) \<noteq> as_key (?lr ! iv)" if "cr \<in> set (rows ?c1)" for cr
  proof -
    from that obtain camp where camp: "camp \<in> set cs"
      and cr: "cr = camp[j0 := astype_str e (camp ! j0)]"
      by auto
    have "j0 < length camp"
      using assms(5) camp by (simp add: list_all_iff)
    then have "cr ! j0 = astype_str e (camp ! j0)"
      by (simp add: cr)
    moreover have "?lr ! iv = astype_str e (row ! iv)"
      using assms(2,3) by simp
    ultimately show ?thesis
      using assms(8) [OF camp] by (simp add: as_key_astype_str)
  qed
  then have "join_row ?c1 fill iv j0 ?lr = [?lr @ replicate (length (columns ?c1)) NaN]"
    by (rule join_row_nomatch)
  then have x: "?lr @ ?ext \<in> set (join_row ?c1 fill iv j0 ?lr)"
    by simp
  have "project [i0, i1, i2, i3, i4, i5, n + j1, n + j2] (?lr @ ?ext) =
        [?lr ! i0, ?lr ! i1, ?lr ! i2, ?lr ! i3, ?lr ! i4, ?lr ! i5, ?ext ! j1, ?ext ! j2]"
    using assms(2,4) by (intro mart_project) simp_all
  also have "\<dots> = [row ! i0, row ! i1, row ! i2, row ! i3, row ! i4, row ! i5, NaN, NaN]"
    using assms(4,6,7) by simp
  finally show ?thesis
    using in_joined_rows [OF l x, of "[i0, i1, i2, i3, i4, i5, n + j1, n + j2]"] by simp
qed

lemma index_of_distinct:
  "index_of a cs = Some i \<Longrightarrow> index_of b cs = Some j \<Longrightarrow> a \<noteq> b \<Longrightarrow> i \<noteq> j"
  using index_of_Some [of a cs i] index_of_Some [of b cs j] by auto

lemma create_marketing_mart_loads:
  assumes "read_sql e ''Reservations'' = Some r" and "read_sql e ''Campaign'' = Some c"
    and "marketing_mart_frame e r c = Inr m"
  shows "ToSql ''marketing_mart'' Replace m \<in> set (fst (create_marketing_mart e))"
  by (simp add: create_marketing_mart_def extract_data_def load_data_mart_def assms)

lemma ex_astype_str:
  "astype_str ex_env (Str ''5'') = Str ''5''" "astype_str ex_env (Str ''7'') = Str ''7''"
  "astype_str ex_env Null = Str ''None''" "astype_str ex_env (Num 5) = Str ''5''"
  "astype_str ex_env (Num 15) = Str ''15''"
  by (simp_all add: astype_str_def str_of_int_def str_of_nat.simps digit_char_def ex_env_def)

text \<open>
  The claim's own example with a campaign 5 that has neither a name nor a description:
  the voucher code is the string 5, the campaign id is the number 5, the row joins, and
  the one row of the mart has \<^verbatim>\<open>None\<close> in \<^verbatim>\<open>campaign_name\<close> and
  \<^verbatim>\<open>campaign_description\<close>.
\<close>

theorem marketing_mart_unnamed_campaign:
  "cell ex_reservation_five ''voucher_code'' (hd (rows ex_reservation_five)) = Str ''5''
   \<and> cell ex_campaigns_unnamed ''id'' (hd (rows ex_campaigns_unnamed)) = Num 5
   \<and> marketing_mart_frame ex_env ex_reservation_five ex_campaigns_unnamed =
       Inr \<lparr>columns = [''reservation_id'', ''reservation_datetime'', ''check_in_date'',
                       ''check_out_date'', ''total_room_price'', ''total_discount'',
                       ''campaign_name'', ''campaign_description''],
            rows = [[Num 1, Str ''t1'', Str ''d1'', Str ''d2'', Num 100, Num 0, Null, Null]]\<rparr>"
proof -
  have a: "cell ex_reservation_five ''voucher_code'' (hd (rows ex_reservation_five)) = Str ''5''"
    by (simp add: cell_def ex_reservation_five_def)
  have b: "cell ex_campaigns_unnamed ''id'' (hd (rows ex_campaigns_unnamed)) = Num 5"
    by (simp add: cell_def ex_campaigns_unnamed_def)
  have c: "marketing_mart_frame ex_env ex_reservation_five ex_campaigns_unnamed =
       Inr \<lparr>columns = [''reservation_id'', ''reservation_datetime'', ''check_in_date'',
                       ''check_out_date'', ''total_room_price'', ''total_discount'',
                       ''campaign_name'', ''campaign_description''],
            rows = [[Num 1, Str ''t1'', Str ''d1'', Str ''d2'', Num 100, Num 0, Null, Null]]\<rparr>"
    by (simp add: marketing_mart_frame_def ex_reservation_five_def ex_campaigns_unnamed_def
        getcol_def setcol_def ex_astype_str merge_eval select_def positions_def project_def
        set_columns_def)
  show ?thesis
    by (intro conjI) (rule a b c)+
qed

text \<open>
  C3. Take a rectangular Reservation batch with the columns \<^verbatim>\<open>id\<close>,
  \<^verbatim>\<open>reservation_datetime\<close>, \<^verbatim>\<open>check_in_date\<close>, \<^verbatim>\<open>check_out_date\<close>, \<^verbatim>\<open>total_room_price\<close>,
  \<^verbatim>\<open>total_discount\<close>, \<^verbatim>\<open>voucher_code\<close> and a rectangular Campaign batch with the columns
  \<^verbatim>\<open>id\<close>, \<^verbatim>\<open>name\<close>, \<^verbatim>\<open>description\<close>, in any order and among any other columns, as long
  as no label the mart selects exists on the wrong side. Then the marketing mart is
  built, with its eight relabelled columns, and written to \<^verbatim>\<open>marketing_mart\<close>. For
  every reservation row and campaign row whose keys are equal after \<^verbatim>\<open>astype(str)\<close>, the
  mart has the reservation's row with the campaign's \<^verbatim>\<open>name\<close> and \<^verbatim>\<open>description\<close> carried
  over into its columns \<^verbatim>\<open>campaign_name\<close> and \<^verbatim>\<open>campaign_description\<close>: each of the two
  is missing exactly when the campaign's is. A \<^verbatim>\<open>voucher_code\<close> that is the string 5 and
  a campaign \<^verbatim>\<open>id\<close> that is the number 5 are equal after \<^verbatim>\<open>astype(str)\<close>. For every
  reservation row whose key equals no campaign's key the mart has the reservation's row
  with a missing value in both campaign columns.
\<close>

theorem marketing_mart_left_join:
  assumes "rectangular reservations" and "rectangular campaigns"
    and "set [''id'', ''reservation_datetime'', ''check_in_date'', ''check_out_date'',
              ''total_room_price'', ''total_discount'', ''voucher_code'']
         \<subseteq> set (columns reservations)"
    and "set [''id'', ''name'', ''description''] \<subseteq> set (columns campaigns)"
    and "set [''name'', ''description'', ''id_x''] \<inter> set (columns reservations) = {}"
    and "set [''reservation_datetime'', ''check_in_date'', ''check_out_date'',
              ''total_room_price'', ''total_discount''] \<inter> set (columns campaigns) = {}"
  shows "\<exists>m. marketing_mart_frame e reservations campaigns = Inr m
     \<and> columns m = [''reservation_id'', ''reservation_datetime'', ''check_in_date'',
                    ''check_out_date'', ''total_room_price'', ''total_discount'',
                    ''campaign_name'', ''campaign_description'']
     \<and> (\<forall>row a b. cell m ''reservation_id'' (mart_row reservations row a b) =
                      cell reservations ''id'' row
                  \<and> cell m ''campaign_name'' (mart_row reservations row a b) = a
                  \<and> cell m ''campaign_description'' (mart_row reservations row a b) = b)
     \<and> (\<forall>row \<in> set (rows reservations). \<forall>camp \<in> set (rows campaigns).
           astype_str e (cell reservations ''voucher_code'' row) =
           astype_str e (cell campaigns ''id'' camp) \<longrightarrow>
           (\<exists>a b. mart_row reservations row a b \<in> set (rows m)
                \<and> carried a (cell campaigns ''name'' camp)
                \<and> carried b (cell campaigns ''description'' camp)
                \<and> is_missing a = is_missing (cell campaigns ''name'' camp)
                \<and> is_missing b = is_missing (cell campaigns ''description'' camp)))
     \<and> (\<forall>row \<in> set (rows reservations). \<forall>camp \<in> set (rows campaigns).
           cell reservations ''voucher_code'' row = Str ''5'' \<and>
           cell campaigns ''id'' camp = Num 5 \<longrightarrow>
           astype_str e (cell reservations ''voucher_code'' row) =
           astype_str e (cell campaigns ''id'' camp)
           \<and> (\<exists>a b. mart_row reservations row a b \<in> set (rows m)
                \<and> carried a (cell campaigns ''name'' camp)
                \<and> carried b (cell campaigns ''description'' camp)
                \<and> is_missing a = is_missing (cell campaigns ''name'' camp)
                \<and> is_missing b = is_missing (cell campaigns ''description'' camp)))
     \<and> (\<forall>row \<in> set (rows reservations).
           (\<forall>camp \<in> set (rows campaigns).
               astype_str e (cell reservations ''voucher_code'' row) \<noteq>
               astype_str e (cell campaigns ''id'' camp)) \<longrightarrow>
           mart_row reservations row NaN NaN \<in> set (rows m))
     \<and> (read_sql e ''Reservations'' = Some reservations \<and>
         read_sql e ''Campaign'' = Some campaigns \<longrightarrow>
           ToSql ''marketing_mart'' Replace m \<in> set (fst (create_marketing_mart e)))"
proof -
  let ?r = reservations and ?c = campaigns
  obtain i0 i1 i2 i3 i4 i5 iv where
    r: "index_of ''id'' (columns ?r) = Some i0"
      "index_of ''reservation_datetime'' (columns ?r) = Some i1"
      "index_of ''check_in_date'' (columns ?r) = Some i2"
      "index_of ''check_out_date'' (columns ?r) = Some i3"
      "index_of ''total_room_price'' (columns ?r) = Some i4"
      "index_of ''total_discount'' (columns ?r) = Some i5"
      "index_of ''voucher_code'' (columns ?r) = Some iv"
  proof -
    have "\<exists>i. index_of ''id'' (columns ?r) = Some i"
      "\<exists>i. index_of ''reservation_datetime'' (columns ?r) = Some i"
      "\<exists>i. index_of ''check_in_date'' (columns ?r) = Some i"
      "\<exists>i. index_of ''check_out_date'' (columns ?r) = Some i"
      "\<exists>i. index_of ''total_room_price'' (columns ?r) = Some i"
      "\<exists>i. index_of ''total_discount'' (columns ?r) = Some i"
      "\<exists>i. index_of ''voucher_code'' (columns ?r) = Some i"
      using assms(3) by (simp_all add: index_of_mem)
    then show thesis
      by (elim exE) (rule that; assumption)
  qed
  obtain j0 j1 j2 where
    c: "index_of ''id'' (columns ?c) = Some j0"
      "index_of ''name'' (columns ?c) = Some j1"
      "index_of ''description'' (columns ?c) = Some j2"
  proof -
    have "\<exists>j. index_of ''id'' (columns ?c) = Some j"
      "\<exists>j. index_of ''name'' (columns ?c) = Some j"
      "\<exists>j. index_of ''description'' (columns ?c) = Some j"
      using assms(4) by (simp_all add: index_of_mem)
    then show thesis
      by (elim exE) (rule that; assumption)
  qed
  have nr: "''name'' \<notin> set (columns ?r)" "''description'' \<notin> set (columns ?r)"
      "''id_x'' \<notin> set (columns ?r)"
    using assms(5) by simp_all
  have nc: "''reservation_datetime'' \<notin> set (columns ?c)" "''check_in_date'' \<notin> set (columns ?c)"
      "''check_out_date'' \<notin> set (columns ?c)" "''total_room_price'' \<notin> set (columns ?c)"
      "''total_discount'' \<notin> set (columns ?c)"
    using assms(6) by simp_all
  let ?n = "length (columns ?r)"
  let ?is = "[i0, i1, i2, i3, i4, i5, ?n + j1, ?n + j2]"
  from marketing_mart_frame_eq [OF assms(1,2) r c nr nc, of e] obtain fill where
    frame0: "marketing_mart_frame e ?r ?c =
     Inr \<lparr>columns = [''reservation_id'', ''reservation_datetime'', ''check_in_date'',
                     ''check_out_date'', ''total_room_price'', ''total_discount'',
                     ''campaign_name'', ''campaign_description''],
          rows = map (project ?is)
                   (concat (map (join_row
                       (?c\<lparr>rows := map (\<lambda>x. x[j0 := astype_str e (x ! j0)]) (rows ?c)\<rparr>)
                       fill iv j0)
                     (map (\<lambda>x. x[iv := astype_str e (x ! iv)]) (rows ?r))))\<rparr>"
    by (elim exE) (rule that)
  let ?body = "concat (map (join_row
                  (?c\<lparr>rows := map (\<lambda>x. x[j0 := astype_str e (x ! j0)]) (rows ?c)\<rparr>) fill iv j0)
                (map (\<lambda>x. x[iv := astype_str e (x ! iv)]) (rows ?r)))"
  let ?m = "\<lparr>columns = [''reservation_id'', ''reservation_datetime'', ''check_in_date'',
                     ''check_out_date'', ''total_room_price'', ''total_discount'',
                     ''campaign_name'', ''campaign_description''],
            rows = map (project ?is) ?body\<rparr>"
  have frame: "marketing_mart_frame e ?r ?c = Inr ?m"
    by (rule frame0)
  have cols: "columns ?m = [''reservation_id'', ''reservation_datetime'', ''check_in_date'',
                    ''check_out_date'', ''total_room_price'', ''total_discount'',
                    ''campaign_name'', ''campaign_description'']"
    by simp
  have rm: "rows ?m = map (project ?is) ?body"
    by simp
  have len: "\<And>row. row \<in> set (rows ?r) \<Longrightarrow> length row = ?n"
    using assms(1) by (simp add: rectangular_def list_all_iff)
  have clen0: "\<And>camp. camp \<in> set (rows ?c) \<Longrightarrow> length camp = length (columns ?c)"
    using assms(2) by (simp add: rectangular_def list_all_iff)
  have clen: "list_all (\<lambda>camp. j0 < length camp) (rows ?c)"
    using assms(2) index_of_Some [OF c(1)] by (simp add: rectangular_def list_all_iff)
  have ivn: "iv < ?n"
    using index_of_Some [OF r(7)] by simp
  have bnd: "list_all (\<lambda>i. i < ?n \<and> i \<noteq> iv) [i0, i1, i2, i3, i4, i5]"
    using index_of_Some [OF r(1)] index_of_Some [OF r(2)] index_of_Some [OF r(3)]
      index_of_Some [OF r(4)] index_of_Some [OF r(5)] index_of_Some [OF r(6)]
      index_of_distinct [OF r(1) r(7)] index_of_distinct [OF r(2) r(7)]
      index_of_distinct [OF r(3) r(7)] index_of_distinct [OF r(4) r(7)]
      index_of_distinct [OF r(5) r(7)] index_of_distinct [OF r(6) r(7)]
    by simp
  have j10: "j1 \<noteq> j0" and j20: "j2 \<noteq> j0"
    using index_of_distinct [OF c(2) c(1)] index_of_distinct [OF c(3) c(1)] by simp_all
  have j1n: "j1 < length (columns ?c)" and j2n: "j2 < length (columns ?c)"
    using index_of_Some [OF c(2)] index_of_Some [OF c(3)] by simp_all
  have vc: "\<And>row. cell ?r ''voucher_code'' row = row ! iv"
    by (simp add: cell_def r(7))
  have cid: "\<And>camp. cell ?c ''id'' camp = camp ! j0"
    by (simp add: cell_def c(1))
  have mr: "\<And>row a b. mart_row ?r row a b =
              [row ! i0, row ! i1, row ! i2, row ! i3, row ! i4, row ! i5, a, b]"
    by (simp add: mart_row_def cell_def r)
  have cn: "\<And>camp. cell ?c ''name'' camp = camp ! j1"
    and cd: "\<And>camp. cell ?c ''description'' camp = camp ! j2"
    by (simp_all add: cell_def c)
  have matched: "\<exists>a b. mart_row ?r row a b \<in> set (rows ?m)
                \<and> carried a (cell ?c ''name'' camp)
                \<and> carried b (cell ?c ''description'' camp)
                \<and> is_missing a = is_missing (cell ?c ''name'' camp)
                \<and> is_missing b = is_missing (cell ?c ''description'' camp)"
    if "row \<in> set (rows ?r)" and "camp \<in> set (rows ?c)"
      and "astype_str e (cell ?r ''voucher_code'' row) = astype_str e (cell ?c ''id'' camp)"
    for row camp
  proof -
    have j0c: "j0 < length camp"
      using clen that(2) by (simp add: list_all_iff)
    have j1c: "j1 < length camp" and j2c: "j2 < length camp"
      using j1n j2n clen0 [OF that(2)] by simp_all
    have k: "astype_str e (row ! iv) = astype_str e (camp ! j0)"
      using that(3) unfolding vc cid .
    from mart_rows_matched [OF that(1,2) len [OF that(1)] ivn bnd j0c j10 j20 j1c j2c k,
        of ?c fill]
    obtain a b where
      m: "[row ! i0, row ! i1, row ! i2, row ! i3, row ! i4, row ! i5, a, b]
            \<in> set (map (project ?is) ?body)"
      and ca: "carried a (camp ! j1)" and cb: "carried b (camp ! j2)"
      by (elim exE conjE) (rule that; assumption)
    have m': "mart_row ?r row a b \<in> set (rows ?m)"
      unfolding mr rm by (rule m)
    have ca': "carried a (cell ?c ''name'' camp)"
      unfolding cn by (rule ca)
    have cb': "carried b (cell ?c ''description'' camp)"
      unfolding cd by (rule cb)
    show ?thesis
      by (intro exI conjI) (rule m' ca' cb' carried_missing [OF ca'] carried_missing [OF cb'])+
  qed
  have five: "astype_str e (Str ''5'') = astype_str e (Num 5)"
    by (simp add: astype_str_def str_of_int_def str_of_nat.simps digit_char_def)
  have unmatched: "mart_row ?r row NaN NaN \<in> set (rows ?m)"
    if "row \<in> set (rows ?r)"
      and "\<forall>camp \<in> set (rows ?c).
              astype_str e (cell ?r ''voucher_code'' row) \<noteq> astype_str e (cell ?c ''id'' camp)"
    for row
  proof -
    have "\<And>camp. camp \<in> set (rows ?c) \<Longrightarrow>
            astype_str e (row ! iv) \<noteq> astype_str e (camp ! j0)"
      using that(2) unfolding vc cid by blast
    then show ?thesis
      unfolding mr rm
      by (intro mart_rows_unmatched that(1) len [OF that(1)] ivn bnd clen j1n j2n)
  qed
  have a: "\<forall>row \<in> set (rows ?r). \<forall>camp \<in> set (rows ?c).
           astype_str e (cell ?r ''voucher_code'' row) = astype_str e (cell ?c ''id'' camp) \<longrightarrow>
           (\<exists>a b. mart_row ?r row a b \<in> set (rows ?m)
                \<and> carried a (cell ?c ''name'' camp)
                \<and> carried b (cell ?c ''description'' camp)
                \<and> is_missing a = is_missing (cell ?c ''name'' camp)
                \<and> is_missing b = is_missing (cell ?c ''description'' camp))"
    by (intro ballI impI) (rule matched)
  have b: "\<forall>row \<in> set (rows ?r). \<forall>camp \<in> set (rows ?c).
           cell ?r ''voucher_code'' row = Str ''5'' \<and> cell ?c ''id'' camp = Num 5 \<longrightarrow>
           astype_str e (cell ?r ''voucher_code'' row) = astype_str e (cell ?c ''id'' camp)
           \<and> (\<exists>a b. mart_row ?r row a b \<in> set (rows ?m)
                \<and> carried a (cell ?c ''name'' camp)
                \<and> carried b (cell ?c ''description'' camp)
                \<and> is_missing a = is_missing (cell ?c ''name'' camp)
                \<and> is_missing b = is_missing (cell ?c ''description'' camp))"
  proof (intro ballI impI)
    fix row camp
    assume rw: "row \<in> set (rows ?r)" and cp: "camp \<in> set (rows ?c)"
      and k: "cell ?r ''voucher_code'' row = Str ''5'' \<and> cell ?c ''id'' camp = Num 5"
    have eq: "astype_str e (cell ?r ''voucher_code'' row) = astype_str e (cell ?c ''id'' camp)"
      using k five by simp
    show "astype_str e (cell ?r ''voucher_code'' row) = astype_str e (cell ?c ''id'' camp)
           \<and> (\<exists>a b. mart_row ?r row a b \<in> set (rows ?m)
                \<and> carried a (cell ?c ''name'' camp)
                \<and> carried b (cell ?c ''description'' camp)
                \<and> is_missing a = is_missing (cell ?c ''name'' camp)
                \<and> is_missing b = is_missing (cell ?c ''description'' camp))"
      using eq matched [OF rw cp eq] by (rule conjI)
  qed
  have d: "\<forall>row \<in> set (rows ?r).
           (\<forall>camp \<in> set (rows ?c).
               astype_str e (cell ?r ''voucher_code'' row) \<noteq>
               astype_str e (cell ?c ''id'' camp)) \<longrightarrow>
           mart_row ?r row NaN NaN \<in> set (rows ?m)"
    using unmatched by blast
  have lab: "\<forall>row a b. cell ?m ''reservation_id'' (mart_row ?r row a b) = cell ?r ''id'' row
                  \<and> cell ?m ''campaign_name'' (mart_row ?r row a b) = a
                  \<and> cell ?m ''campaign_description'' (mart_row ?r row a b) = b"
    by (simp add: cell_def mart_row_def r(1))
  have l: "read_sql e ''Reservations'' = Some ?r \<and> read_sql e ''Campaign'' = Some ?c \<longrightarrow>
           ToSql ''marketing_mart'' Replace ?m \<in> set (fst (create_marketing_mart e))"
    using frame by (auto intro: create_marketing_mart_loads)
  show ?thesis
    by (rule exI [of _ ?m]) (intro conjI, (rule frame cols lab a b d l)+)
qed

lemma ex_marketing_mart_frame:
  "marketing_mart_frame ex_env ex_reservations ex_campaigns = Inr ex_marketing_mart"
  by (simp add: marketing_mart_frame_def ex_reservations_def ex_campaigns_def getcol_def
      setcol_def ex_astype_str merge_eval select_def positions_def project_def
      set_columns_def ex_marketing_mart_def)

theorem marketing_mart_left_join_witness:
  "rectangular ex_reservations \<and> rectangular ex_campaigns
   \<and> set [''id'', ''reservation_datetime'', ''check_in_date'', ''check_out_date'',
           ''total_room_price'', ''total_discount'', ''voucher_code'']
       \<subseteq> set (columns ex_reservations)
   \<and> set [''id'', ''name'', ''description''] \<subseteq> set (columns ex_campaigns)
   \<and> set [''name'', ''description'', ''id_x''] \<inter> set (columns ex_reservations) = {}
   \<and> set [''reservation_datetime'', ''check_in_date'', ''check_out_date'',
           ''total_room_price'', ''total_discount''] \<inter> set (columns ex_campaigns) = {}
   \<and> marketing_mart_frame ex_env ex_reservations ex_campaigns = Inr ex_marketing_mart
   \<and> [Num 1, Str ''t1'', Str ''d1'', Str ''d2'', Num 100, Num 0, Str ''promo'', Str ''five'']
       \<in> set (rows ex_marketing_mart)
   \<and> [Num 2, Str ''t2'', Str ''d1'', Str ''d2'', Num 100, Num 0, NaN, NaN]
       \<in> set (rows ex_marketing_mart)"
proof -
  let ?row1 = "[Num 1, Str ''t1'', Str ''d1'', Str ''d2'', Str ''ok'', Num 1, Num 7, Num 100,
                Str ''5'', Num 0]"
  let ?row2 = "[Num 2, Str ''t2'', Str ''d1'', Str ''d2'', Str ''ok'', Num 1, Num 7, Num 100,
                Null, Num 0]"
  let ?camp = "[Num 5, Str ''promo'', Str ''five'']"
  have h1: "rectangular ex_reservations"
    by (simp add: rectangular_def ex_reservations_def)
  have h2: "rectangular ex_campaigns"
    by (simp add: rectangular_def ex_campaigns_def)
  have h3: "set [''id'', ''reservation_datetime'', ''check_in_date'', ''check_out_date'',
           ''total_room_price'', ''total_discount'', ''voucher_code'']
       \<subseteq> set (columns ex_reservations)"
    by (simp add: ex_reservations_def)
  have h4: "set [''id'', ''name'', ''description''] \<subseteq> set (columns ex_campaigns)"
    by (simp add: ex_campaigns_def)
  have h5: "set [''name'', ''description'', ''id_x''] \<inter> set (columns ex_reservations) = {}"
    by (simp add: ex_reservations_def)
  have h6: "set [''reservation_datetime'', ''check_in_date'', ''check_out_date'',
           ''total_room_price'', ''total_discount''] \<inter> set (columns ex_campaigns) = {}"
    by (simp add: ex_campaigns_def)
  from marketing_mart_left_join [where e = ex_env, OF h1 h2 h3 h4 h5 h6]
  obtain m where f: "marketing_mart_frame ex_env ex_reservations ex_campaigns = Inr m"
    and five: "\<forall>row \<in> set (rows ex_reservations). \<forall>camp \<in> set (rows ex_campaigns).
           cell ex_reservations ''voucher_code'' row = Str ''5'' \<and>
           cell ex_campaigns ''id'' camp = Num 5 \<longrightarrow>
           astype_str ex_env (cell ex_reservations ''voucher_code'' row) =
           astype_str ex_env (cell ex_campaigns ''id'' camp)
           \<and> (\<exists>a b. mart_row ex_reservations row a b \<in> set (rows m)
                \<and> carried a (cell ex_campaigns ''name'' camp)
                \<and> carried b (cell ex_campaigns ''description'' camp)
                \<and> is_missing a = is_missing (cell ex_campaigns ''name'' camp)
                \<and> is_missing b = is_missing (cell ex_campaigns ''description'' camp))"
    and none: "\<forall>row \<in> set (rows ex_reservations).
           (\<forall>camp \<in> set (rows ex_campaigns).
               astype_str ex_env (cell ex_reservations ''voucher_code'' row) \<noteq>
               astype_str ex_env (cell ex_campaigns ''id'' camp)) \<longrightarrow>
           mart_row ex_reservations row NaN NaN \<in> set (rows m)"
    by (elim exE conjE) (rule that; assumption)
  have m: "m = ex_marketing_mart"
    using f by (simp add: ex_marketing_mart_frame)
  have r1: "?row1 \<in> set (rows ex_reservations)" and r2: "?row2 \<in> set (rows ex_reservations)"
    by (simp_all add: ex_reservations_def)
  have c1: "?camp \<in> set (rows ex_campaigns)"
    by (simp add: ex_campaigns_def)
  have k: "cell ex_reservations ''voucher_code'' ?row1 = Str ''5'' \<and>
           cell ex_campaigns ''id'' ?camp = Num 5"
    by (simp add: cell_def ex_reservations_def ex_campaigns_def)
  have n: "cell ex_campaigns ''name'' ?camp = Str ''promo''"
    "cell ex_campaigns ''description'' ?camp = Str ''five''"
    by (simp_all add: cell_def ex_campaigns_def)
  from five r1 c1 k
  obtain a b where ab: "mart_row ex_reservations ?row1 a b \<in> set (rows m)"
    and ca: "carried a (cell ex_campaigns ''name'' ?camp)"
    and cb: "carried b (cell ex_campaigns ''description'' ?camp)"
    by blast
  have a: "a = Str ''promo''"
    using carried_text [OF ca] by (simp add: n is_num_def)
  have b: "b = Str ''five''"
    using carried_text [OF cb] by (simp add: n is_num_def)
  have w1: "[Num 1, Str ''t1'', Str ''d1'', Str ''d2'', Num 100, Num 0, Str ''promo'',
                  Str ''five''] \<in> set (rows ex_marketing_mart)"
    using ab unfolding m a b by (simp add: mart_row_def cell_def ex_reservations_def)
  have u: "\<forall>camp \<in> set (rows ex_campaigns).
               astype_str ex_env (cell ex_reservations ''voucher_code'' ?row2) \<noteq>
               astype_str ex_env (cell ex_campaigns ''id'' camp)"
    by (simp add: cell_def ex_reservations_def ex_campaigns_def ex_astype_str)
  from none r2 u have "mart_row ex_reservations ?row2 NaN NaN \<in> set (rows m)"
    by blast
  then have w2: "[Num 2, Str ''t2'', Str ''d1'', Str ''d2'', Num 100, Num 0, NaN, NaN]
       \<in> set (rows ex_marketing_mart)"
    unfolding m by (simp add: mart_row_def cell_def ex_reservations_def)
  show ?thesis
    by (intro conjI) (rule h1 h2 h3 h4 h5 h6 ex_marketing_mart_frame w1 w2)+
qed

subsection \<open>A missing phone number held as NaN\<close>

lemma ex_nan_read_sql:
  "read_sql ex_env_nan ''Reservations'' = Some ex_reservations"
  "read_sql ex_env_nan ''Stays'' = Some ex_stays"
  "read_sql ex_env_nan ''Rooms'' = Some ex_rooms"
  "read_sql ex_env_nan ''Users'' = Some ex_users_nan"
  by (simp_all add: ex_env_nan_def ex_env_def)

lemma ex_nan_transform_phone_number:
  "transform_phone_number ex_users_nan = Inl AttributeError"
  by (simp add: transform_phone_number_def ex_users_nan_def getcol_def apply_series_def
      phone_lambda_def startswith_plus_def bind_err_def)

lemma ex_nan_transform_dimension_data:
  "transform_dimension_data ex_users_nan ''dim_guests'' = Inl AttributeError"
  by (simp add: transform_dimension_data_def ex_users_nan_def getcol_def apply_series_def
      phone_lambda_def startswith_plus_def bind_err_def)

lemma ex_transform_dimension_data_rooms:
  "transform_dimension_data ex_rooms ''dim_rooms'' =
     Inr \<lparr>columns = [''id'', ''name'', ''room_type'', ''floor'', ''hotel_id''],
          rows = [[Num 3, Str ''n'', Str ''deluxe'', Num 1, Num 1]]\<rparr>"
proof -
  have n: "normalize_room_type ''De-Luxe'' = ''deluxe''"
    by (simp add: normalize_room_type_def lower_char_def is_az_def)
  show ?thesis
    by (simp add: transform_dimension_data_def ex_rooms_def getcol_def str_lower_replace_def
        is_text_def str_lower_replace_cell_def n setcol_def)
qed

text \<open>
  C4. A missing phone number that pandas holds as \<open>NaN\<close> (the NULL of a text column
  read by a pandas that keeps text in its string dtype, and the NULL of every float
  column) is a float other than zero, so the lambda's test \<^verbatim>\<open>x and ...\<close> lets it
  through to \<^verbatim>\<open>x.startswith\<close>, which a float does not have. On a Users batch with one
  such phone number both transforms raise \<^verbatim>\<open>AttributeError\<close>, and the fact job and the
  dimension job end with it before anything is printed or loaded. The spec's
  normalisation returns the missing value as it is, which is what the lambda does with
  \<^verbatim>\<open>None\<close>.
\<close>

theorem missing_phone_number_raises:
  "getcol ex_users_nan ''phone_number'' = Inr [Str ''0812'', NaN]
   \<and> spec_normalize_phone_number NaN = NaN
   \<and> phone_lambda NaN = Inl AttributeError
   \<and> phone_lambda Null = Inr Null
   \<and> transform_phone_number ex_users_nan = Inl AttributeError
   \<and> transform_dimension_data ex_users_nan ''dim_guests'' = Inl AttributeError
   \<and> main_fact ex_env_nan = ([], Some AttributeError)
   \<and> main_dims ex_env_nan = ([], Some AttributeError)"
proof -
  have a: "getcol ex_users_nan ''phone_number'' = Inr [Str ''0812'', NaN]"
    by (simp add: getcol_def ex_users_nan_def)
  have b: "spec_normalize_phone_number NaN = NaN"
    by (simp add: spec_normalize_phone_number_def)
  have c: "phone_lambda NaN = Inl AttributeError"
    by (simp add: phone_lambda_def)
  have d: "phone_lambda Null = Inr Null"
    by (simp add: phone_lambda_def)
  have m: "merge_and_reconcile ex_env_nan ex_reservations ex_stays ex_rooms ex_users_nan =
             Inl AttributeError"
    unfolding merge_and_reconcile_def ex_transform_room_type bind_err_Inr
      ex_nan_transform_phone_number
    by (simp add: bind_err_def)
  have f: "main_fact ex_env_nan = ([], Some AttributeError)"
    by (simp add: main_fact_def extract_data_def ex_nan_read_sql m)
  have g: "main_dims ex_env_nan = ([], Some AttributeError)"
    by (simp add: main_dims_def extract_data_def ex_nan_read_sql
        ex_transform_dimension_data_rooms ex_nan_transform_dimension_data)
  show ?thesis
    by (intro conjI)
       (rule a b c d ex_nan_transform_phone_number ex_nan_transform_dimension_data f g)+
qed

end
